(* ===== verification/Prelude.thy ===== *)
theory Prelude
  imports Complex_Main "HOL-Library.Word" "HOL-Library.Signed_Division" "HOL-Library.Monad_Syntax"
    "HOL-Library.Multiset"
begin

text \<open>
  Shared vocabulary of the development: the machine integer types, the status values that the
  binder interfaces return, the calls the power code makes on the hint manager, checked signed
  arithmetic, page rounding on 32-bit sizes, little-endian words, and the notion of a reachable
  state with the interface (a locale) through which every state machine of the development
  obtains its invariants.
\<close>

unbundle bit_operations_syntax

named_theorems hal_defs \<open>definitions of handlers that the component proofs unfold\<close>
named_theorems page_simps \<open>page rounding on 32-bit sizes\<close>

type_synonym u8 = "8 word"
type_synonym u32 = "32 word"
type_synonym u64 = "64 word"

section \<open>Binder status values\<close>

text \<open>
  \<open>ndk::ScopedAStatus\<close>: success, an exception code, a service specific error, or a raw status.
\<close>

datatype exception_code =
    EX_SECURITY
  | EX_ILLEGAL_ARGUMENT
  | EX_ILLEGAL_STATE
  | EX_UNSUPPORTED_OPERATION
  | EX_TRANSACTION_FAILED

datatype ScopedAStatus =
    status_ok
  | fromExceptionCode exception_code
  | fromServiceSpecificError int
  | fromStatus int

section \<open>Calls on the hint manager\<close>

text \<open>
  \<open>HintManager\<close> is the library libperfmgr, which is not part of the repository. What the
  power code does to it is the sequence of its calls, newest first: \<open>DoHint\<close> without and with a
  duration in milliseconds, and \<open>EndHint\<close>. A hint is held when the newest untimed call
  that names it is \<open>DoHint\<close>.
\<close>

datatype hint_call =
    DoHint string
  | DoHintFor string int
  | EndHint string

primrec hint_held :: "string \<Rightarrow> hint_call list \<Rightarrow> bool" where
  "hint_held h [] = False"
| "hint_held h (c # cs) =
     (case c of
        DoHint h' \<Rightarrow> h = h' \<or> hint_held h cs
      | EndHint h' \<Rightarrow> h \<noteq> h' \<and> hint_held h cs
      | DoHintFor h' ms \<Rightarrow> hint_held h cs)"

section \<open>Checked signed arithmetic\<close>

text \<open>
  The value of a signed 64-bit or 32-bit C++ expression whose mathematical value is \<open>x\<close>.
  Overflow is undefined behaviour of the source and is the value \<open>None\<close> here.
\<close>

definition chk64 :: "int \<Rightarrow> int option" where
  "chk64 x = (if - (2 ^ 63) \<le> x \<and> x < 2 ^ 63 then Some x else None)"

definition chk32 :: "int \<Rightarrow> int option" where
  "chk32 x = (if - (2 ^ 31) \<le> x \<and> x < 2 ^ 31 then Some x else None)"

text \<open>Narrowing conversions to \<open>int32_t\<close> keep the low bits.\<close>

definition to_int32 :: "int \<Rightarrow> int" where
  "to_int32 x = sint (word_of_int x :: u32)"

section \<open>Page rounding\<close>

text \<open>
  The idiom \<open>(n + pagemask) & ~pagemask\<close> with \<open>pagemask = pagesize - 1\<close>, on
  \<open>unsigned\<close> values that wrap around.
\<close>

definition page_up :: "u32 \<Rightarrow> u32 \<Rightarrow> u32" where
  "page_up pagesize n = (n + (pagesize - 1)) AND NOT (pagesize - 1)"

definition page_up_nat :: "nat \<Rightarrow> nat \<Rightarrow> nat" where
  "page_up_nat p n = (n + p - 1) div p * p"

section \<open>Little-endian 32-bit words\<close>

definition le32 :: "u32 \<Rightarrow> u8 list" where
  "le32 w = [ucast w, ucast (drop_bit 8 w), ucast (drop_bit 16 w), ucast (drop_bit 24 w)]"

fun read_le32 :: "u8 list \<Rightarrow> u32 option" where
  "read_le32 (a # b # c # d # _) =
     Some (ucast a OR push_bit 8 (ucast b) OR push_bit 16 (ucast c) OR push_bit 24 (ucast d))"
| "read_le32 _ = None"

section \<open>Printing numbers\<close>

definition digit_char :: "nat \<Rightarrow> char" where
  "digit_char d = char_of (if d < 10 then 48 + d else 87 + d)"

fun show_base :: "nat \<Rightarrow> nat \<Rightarrow> string" where
  "show_base b n =
     (if b < 2 \<or> n < b then [digit_char n] else show_base b (n div b) @ [digit_char (n mod b)])"

declare show_base.simps [simp del]

definition show_int :: "int \<Rightarrow> string" where
  "show_int i = (if i < 0 then CHR ''-'' # show_base 10 (nat (- i)) else show_base 10 (nat i))"

section \<open>Reachable states\<close>

inductive reach :: "('s \<Rightarrow> bool) \<Rightarrow> ('s \<Rightarrow> 's \<Rightarrow> bool) \<Rightarrow> 's \<Rightarrow> bool"
  for start :: "'s \<Rightarrow> bool" and stp :: "'s \<Rightarrow> 's \<Rightarrow> bool" where
  reach_start: "start s \<Longrightarrow> reach start stp s"
| reach_step: "reach start stp s \<Longrightarrow> stp s t \<Longrightarrow> reach start stp t"

text \<open>
  The contract of a state machine with an inductive invariant. A component interprets it with
  its own start states, step relation and invariant.
\<close>

locale invariant_system =
  fixes start :: "'s \<Rightarrow> bool"
    and stp :: "'s \<Rightarrow> 's \<Rightarrow> bool"
    and invar :: "'s \<Rightarrow> bool"
  assumes invar_start: "start s \<Longrightarrow> invar s"
    and invar_step: "invar s \<Longrightarrow> stp s t \<Longrightarrow> invar t"
begin

lemma reach_invar: "reach start stp s \<Longrightarrow> invar s"
  by (induction rule: reach.induct) (auto intro: invar_start invar_step)

lemma reach_rtranclp: "reach start stp s \<Longrightarrow> stp\<^sup>*\<^sup>* s t \<Longrightarrow> reach start stp t"
  by (rotate_tac, induction rule: rtranclp_induct) (auto intro: reach_step)

lemma rtranclp_invar: "invar s \<Longrightarrow> stp\<^sup>*\<^sup>* s t \<Longrightarrow> invar t"
  by (rotate_tac, induction rule: rtranclp_induct) (auto intro: invar_step)

end

section \<open>Generic lemmas\<close>

lemma chk64_Some_iff: "chk64 x = Some y \<longleftrightarrow> y = x \<and> - (2 ^ 63) \<le> x \<and> x < 2 ^ 63"
  by (auto simp: chk64_def)

lemma chk64_in_range [simp]: "- (2 ^ 63) \<le> x \<Longrightarrow> x < 2 ^ 63 \<Longrightarrow> chk64 x = Some x"
  by (simp add: chk64_def)

lemma chk32_Some_iff: "chk32 x = Some y \<longleftrightarrow> y = x \<and> - (2 ^ 31) \<le> x \<and> x < 2 ^ 31"
  by (auto simp: chk32_def)

lemma to_int32_id: "- (2 ^ 31) \<le> x \<Longrightarrow> x < 2 ^ 31 \<Longrightarrow> to_int32 x = x"
  by (simp add: to_int32_def sint_sbintrunc' signed_take_bit_int_eq_self)

lemma to_int32_range: "- (2 ^ 31) \<le> to_int32 x" "to_int32 x < 2 ^ 31"
  using sint_greater_eq [of "word_of_int x :: u32"] sint_less [of "word_of_int x :: u32"]
  by (simp_all add: to_int32_def)

lemma length_le32 [simp]: "length (le32 w) = 4"
  by (simp add: le32_def)

lemma read_le32_le32 [simp]: "read_le32 (le32 w @ bs) = Some w"
proof -
  have "ucast (ucast w :: u8) OR push_bit 8 (ucast (ucast (drop_bit 8 w) :: u8)) OR
        push_bit 16 (ucast (ucast (drop_bit 16 w) :: u8)) OR
        push_bit 24 (ucast (ucast (drop_bit 24 w) :: u8)) = w" (is "?l = w")
  proof (rule bit_word_eqI)
    fix n
    assume "n < LENGTH(32)"
    then consider "n < 8" | "8 \<le> n" "n < 16" | "16 \<le> n" "n < 24" | "24 \<le> n" "n < 32"
      by (simp add: not_less) linarith
    then show "bit ?l n \<longleftrightarrow> bit w n"
      by cases (auto simp: bit_simps)
  qed
  then show ?thesis
    by (simp add: le32_def)
qed

lemma show_base_not_Nil [simp]: "show_base b n \<noteq> []" "[] \<noteq> show_base b n"
  by (subst show_base.simps, simp)+

lemma of_digit_char: "d < 16 \<Longrightarrow> (of_char (digit_char d) :: nat) = (if d < 10 then 48 + d else 87 + d)"
  by (simp add: digit_char_def)

lemma digit_char_inj: "m < 16 \<Longrightarrow> n < 16 \<Longrightarrow> digit_char m = digit_char n \<longleftrightarrow> m = n"
proof
  assume "m < 16" "n < 16" "digit_char m = digit_char n"
  then have "(if m < 10 then 48 + m else 87 + m) = (if n < 10 then 48 + n else 87 + n)"
    using of_digit_char by metis
  then show "m = n"
    using \<open>m < 16\<close> \<open>n < 16\<close> by (simp split: if_splits)
qed simp

lemma show_base_inj: "2 \<le> b \<Longrightarrow> b \<le> 16 \<Longrightarrow> show_base b m = show_base b n \<Longrightarrow> m = n"
proof (induction b m arbitrary: n rule: show_base.induct)
  case (1 b m)
  show ?case
  proof (cases "m < b \<or> n < b")
    case True
    with 1 show ?thesis
      by (auto simp: show_base.simps [of b m] show_base.simps [of b n] digit_char_inj split: if_splits)
  next
    case False
    with 1(3) have "show_base b (m div b) = show_base b (n div b)" "digit_char (m mod b) = digit_char (n mod b)"
      using 1(2,4) by (simp_all add: show_base.simps [of b m] show_base.simps [of b n])
    moreover have "m mod b < 16" "n mod b < 16"
      using 1(2,3) by (auto intro: less_le_trans [OF mod_less_divisor])
    ultimately have "m div b = n div b" "m mod b = n mod b"
      using 1 False by (auto simp: digit_char_inj)
    then show ?thesis
      by (metis div_mult_mod_eq)
  qed
qed

lemma show_base_no_minus: "2 \<le> b \<Longrightarrow> b \<le> 16 \<Longrightarrow> CHR ''-'' \<notin> set (show_base b n)"
proof (induction b n rule: show_base.induct)
  case (1 b n)
  have "CHR ''-'' \<noteq> digit_char d" if "d < 16" for d
    using that by (auto simp: digit_char_def dest!: arg_cong [of _ _ "of_char :: char \<Rightarrow> nat"] split: if_splits)
  moreover have "n mod b < 16"
    using 1(2,3) by (auto intro: less_le_trans [OF mod_less_divisor])
  ultimately show ?case
    using 1 by (subst show_base.simps) auto
qed

lemma append_sep_eq: "c \<notin> set xs \<Longrightarrow> c \<notin> set ys \<Longrightarrow> xs @ c # us = ys @ c # vs \<longleftrightarrow> xs = ys \<and> us = vs"
  by (induction xs arbitrary: ys; case_tac ys) auto

text \<open>A number that is followed by a minus sign can be read back.\<close>

lemma show_int_sep: "show_int a @ CHR ''-'' # us = show_int b @ CHR ''-'' # vs \<longleftrightarrow> a = b \<and> us = vs"
proof -
  have hd: "\<exists>c cs. show_base 10 n = c # cs \<and> c \<noteq> CHR ''-''" for n
    using show_base_no_minus [of 10 n] by (cases "show_base 10 n") auto
  have "nat (- a) = nat (- b) \<longleftrightarrow> a = b" if "a < 0" "b < 0"
    using that by auto
  moreover have "nat a = nat b \<longleftrightarrow> a = b" if "\<not> a < 0" "\<not> b < 0"
    using that by auto
  ultimately show ?thesis
    using hd [of "nat a"] hd [of "nat b"]
    by (auto simp: show_int_def append_sep_eq show_base_no_minus dest: show_base_inj [rotated 2])
qed

lemma page_up_nat_ge: "0 < p \<Longrightarrow> n \<le> page_up_nat p n"
proof -
  assume p: "0 < p"
  have "n + p - 1 = (n + p - 1) div p * p + (n + p - 1) mod p"
    by simp
  moreover have "(n + p - 1) mod p < p"
    using p by simp
  ultimately show ?thesis
    using p unfolding page_up_nat_def by linarith
qed

lemma page_up_nat_less: "0 < p \<Longrightarrow> page_up_nat p n < n + p"
proof -
  assume p: "0 < p"
  have "(n + p - 1) div p * p \<le> n + p - 1"
    by simp
  then show ?thesis
    using p unfolding page_up_nat_def by linarith
qed

lemma page_up_nat_dvd [simp]: "p dvd page_up_nat p n"
  by (simp add: page_up_nat_def)

lemma unat_AND_NOT_mask: "unat (x AND NOT (mask k)) = unat (x::'a::len word) div 2 ^ k * 2 ^ k"
proof -
  have "(x AND mask k) + (x AND NOT (mask k)) = (x AND mask k) OR (x AND NOT (mask k))"
    by (rule disjunctive_add_eq_or) (auto intro!: bit_word_eqI simp: bit_simps)
  also have "\<dots> = x"
    by (auto intro!: bit_word_eqI simp: bit_simps)
  finally have "x AND NOT (mask k) = x - (x AND mask k)"
    by (simp add: algebra_simps)
  moreover have "x AND mask k \<le> x" by (rule word_and_le2)
  ultimately have "unat (x AND NOT (mask k)) = unat x - unat (x AND mask k)"
    by (simp add: unat_sub)
  also have "unat (x AND mask k) = take_bit k (unat x)"
    by (simp only: unsigned_take_bit_eq flip: take_bit_eq_mask)
  finally show ?thesis by (simp only: take_bit_eq_mod minus_mod_eq_div_mult)
qed

lemma and_mask_zero:
  assumes "k < 32"
  shows "unat (n AND ((2::u32) ^ k - 1)) = unat n mod 2 ^ k" "n AND (2 ^ k - 1) = 0 \<longleftrightarrow> unat n mod 2 ^ k = 0"
proof -
  show "unat (n AND ((2::u32) ^ k - 1)) = unat n mod 2 ^ k"
    by (simp only: mask_eq_exp_minus_1 [symmetric] take_bit_eq_mask [symmetric] unsigned_take_bit_eq take_bit_eq_mod [of k "unat n"])
  then show "n AND (2 ^ k - 1) = 0 \<longleftrightarrow> unat n mod 2 ^ k = 0"
    by (metis unat_0 unat_eq_zero)
qed

lemma unat_exp_u32: "k < 32 \<Longrightarrow> unat (2 ^ k :: u32) = 2 ^ k"
proof -
  assume "k < 32"
  then have "(2::nat) ^ k < 2 ^ 32" by (rule power_strict_increasing) simp
  moreover have "LENGTH(32) = 32" by simp
  ultimately have "unat (of_nat (2 ^ k) :: u32) = 2 ^ k" by (simp only: unat_of_nat mod_less)
  then show ?thesis by (simp only: of_nat_power of_nat_numeral)
qed

lemma page_up_unat [page_simps]:
  assumes "k < 32" "unat n + 2 ^ k \<le> 2 ^ 32"
  shows "unat (page_up (2 ^ k) n) = page_up_nat (2 ^ k) (unat n)"
proof -
  have nz: "(2 ^ k :: u32) \<noteq> 0" using unat_exp_u32 [OF assms(1)] by (metis power_not_zero unat_0 zero_neq_numeral)
  have m: "(2 ^ k :: u32) - 1 = mask k" by (simp only: mask_eq_exp_minus_1)
  have um: "unat (mask k :: u32) = 2 ^ k - 1"
    by (simp only: m [symmetric] unat_minus_one [OF nz] unat_exp_u32 [OF assms(1)])
  have pos: "(1::nat) \<le> 2 ^ k" by simp
  have L: "LENGTH(32) = 32" by simp
  have "unat n + unat (mask k :: u32) < 2 ^ LENGTH(32)"
    unfolding L using assms(2) um pos by linarith
  then have "unat (n + mask k) = unat n + unat (mask k :: u32)"
    by (simp only: unat_add_lem)
  then have "unat (n + mask k) = unat n + 2 ^ k - 1"
    using um pos by linarith
  then show ?thesis
    by (simp only: page_up_def page_up_nat_def m unat_AND_NOT_mask)
qed

lemma uint_u32_bounds: "0 \<le> uint (d::u32)" "uint d < 4294967296"
  using uint_lt2p [of d] by simp_all

lemma sint_u32_cases:
  fixes d :: u32
  obtains (pos) "sint d = uint d" "uint d < 2147483648"
    | (neg) "sint d = uint d - 4294967296" "2147483648 \<le> uint d"
proof (cases "uint d < 2147483648")
  case True
  moreover have "sint d = (uint d + 2147483648) mod 4294967296 - 2147483648"
    using int_word_sint [of "uint d", where 'a = 32] by simp
  ultimately have "sint d = uint d"
    using uint_u32_bounds [of d] by simp
  with True show ?thesis by (rule pos [rotated])
next
  case False
  have "sint d = (uint d + 2147483648) mod 4294967296 - 2147483648"
    using int_word_sint [of "uint d", where 'a = 32] by simp
  also have "(uint d + 2147483648) mod 4294967296 = (uint d - 2147483648) mod 4294967296"
    using mod_add_self2 [of "uint d - 2147483648" 4294967296] by (simp add: add.commute)
  also have "\<dots> = uint d - 2147483648"
    using False uint_u32_bounds [of d] by (intro mod_pos_pos_trivial) linarith+
  finally have "sint d = uint d - 4294967296" by simp
  with False show ?thesis by (intro neg) linarith+
qed

lemma uint_add_signed:
  assumes "uint off < 2147483648"
  shows "uint ((d::u32) + off) =
    (if sint d + uint off < 0 then sint d + uint off + 4294967296 else sint d + uint off)"
proof -
  have "uint (d + off) = (if uint d + uint off < 4294967296 then uint d + uint off
                          else uint d + uint off - 4294967296)"
    by (simp add: uint_plus_if')
  then show ?thesis
    using assms uint_u32_bounds [of d] uint_u32_bounds [of off]
    by (cases d rule: sint_u32_cases; simp only: split: if_splits; linarith)
qed

lemma uint_scast_u64: "0 \<le> sint (w::u32) \<Longrightarrow> uint (scast w :: u64) = sint w"
proof -
  assume "0 \<le> sint w"
  moreover have "sint w < 2 ^ 64" using sint_less [of w] by simp
  moreover have "uint (scast w :: u64) = sint w mod 2 ^ 64"
    by (simp only: scast_eq uint_word_of_int) simp
  ultimately show ?thesis by simp
qed

lemma sint_diff_u32:
  assumes "0 \<le> sint f" "sint f \<le> sint m"
  shows "sint ((m::u32) - f) = sint m - sint f"
proof -
  have f: "sint f = uint f" using assms(1) uint_u32_bounds [of f] by (cases f rule: sint_u32_cases) auto
  then have m: "sint m = uint m" "uint m < 2147483648"
    using assms uint_u32_bounds [of m] by (cases m rule: sint_u32_cases; linarith)+
  have "uint (m - f) = uint m - uint f"
    using assms f m by (simp add: uint_sub_if')
  then show ?thesis
    using f m uint_u32_bounds [of f] by (cases "m - f" rule: sint_u32_cases; linarith)
qed

lemma split_fst_snd: "(case p of (x, y) \<Rightarrow> f x y) = f (fst p) (snd p)"
  by (simp add: case_prod_beta)

end
