(* ===== verification/InteractionHandler.thy ===== *)
theory InteractionHandler
  imports Prelude
begin

text \<open>
  The interaction boost of the power HAL, \<open>src/aidl/power-libperfmgr/InteractionHandler.cpp\<close>.
  Binder threads call \<open>Acquire\<close>; one worker thread runs \<open>Routine\<close>, which waits for the display
  to become idle and then calls \<open>Release\<close>. Every access to the shared fields is under
  \<open>mLock\<close>, so each locked region is one atomic step here. The blocking regions of the worker are
  the values of its program counter. The theory holds the operations, the step relation, its
  invariant, and the properties of durations and time differences.
\<close>

section \<open>Data\<close>

datatype InteractionState =
    INTERACTION_STATE_UNINITIALIZED
  | INTERACTION_STATE_IDLE
  | INTERACTION_STATE_INTERACTION
  | INTERACTION_STATE_WAITING

record timespec =
  tv_sec :: int
  tv_nsec :: int

text \<open>The constants that the process reads from system properties when it starts.\<close>

record ih_config =
  kDisplayIdleSupport :: bool
  kWaitMs :: u32
  kMinDurationMs :: u32
  kMaxDurationMs :: u32
  kDurationOffsetMs :: u32

text \<open>The values the properties default to.\<close>

definition ih_default_config :: ih_config where
  "ih_default_config =
     \<lparr>kDisplayIdleSupport = True, kWaitMs = 100, kMinDurationMs = 1400, kMaxDurationMs = 5650,
      kDurationOffsetMs = 650\<rparr>"

text \<open>
  Where the worker thread is: not created, at the lock and condition variable at the top of the
  loop, inside \<open>WaitForIdle\<close>, about to call \<open>Release\<close>, or returned.
\<close>

datatype routine_pc = R_NONE | R_COND | R_WAIT | R_RELEASE | R_DONE

text \<open>
  \<open>ih_eventCount\<close> is the counter of the non-blocking event file descriptor, \<open>ih_fdsOpen\<close> says
  whether the two descriptors are open, \<open>ih_exiting\<close> is true between the unlock and the join of
  \<open>Exit\<close>, and \<open>ih_hints\<close> is the sequence of calls on the hint manager.
\<close>

record InteractionHandler =
  mState :: InteractionState
  mIdleFd :: int
  mEventFd :: int
  mDurationMs :: u32
  mLastTimespec :: timespec
  ih_pc :: routine_pc
  ih_eventCount :: nat
  ih_fdsOpen :: bool
  ih_exiting :: bool
  ih_hints :: "hint_call list"

section \<open>Operations\<close>

definition CalcTimespecDiffMs :: "timespec \<Rightarrow> timespec \<Rightarrow> u64" where
  "CalcTimespecDiffMs start finish =
     (let diff_in_ms = 0;
          diff_in_ms = diff_in_ms + word_of_int ((tv_sec finish - tv_sec start) * 1000);
          diff_in_ms = diff_in_ms + word_of_int ((tv_nsec finish - tv_nsec start) sdiv 1000000)
      in diff_in_ms)"

definition kDispIdlePath :: "string list" where
  "kDispIdlePath = [''/sys/class/drm/card0/device/idle_state'', ''/sys/class/graphics/fb0/idle_state'']"

text \<open>The argument \<open>openf\<close> gives the result of \<open>open(path, O_RDONLY)\<close>.\<close>

fun FbIdleOpen_loop :: "(string \<Rightarrow> int) \<Rightarrow> string list \<Rightarrow> int" where
  "FbIdleOpen_loop openf [] = -1"
| "FbIdleOpen_loop openf (path # paths) =
     (let fd = openf path in if fd \<ge> 0 then fd else FbIdleOpen_loop openf paths)"

definition FbIdleOpen :: "(string \<Rightarrow> int) \<Rightarrow> int" where
  "FbIdleOpen openf = FbIdleOpen_loop openf kDispIdlePath"

text \<open>The constructor leaves the descriptors and the time stamp as it finds them in memory.\<close>

definition InteractionHandler_new :: "int \<Rightarrow> int \<Rightarrow> timespec \<Rightarrow> InteractionHandler" where
  "InteractionHandler_new ifd efd ts =
     \<lparr>mState = INTERACTION_STATE_UNINITIALIZED, mIdleFd = ifd, mEventFd = efd, mDurationMs = 0,
      mLastTimespec = ts, ih_pc = R_NONE, ih_eventCount = 0, ih_fdsOpen = False,
      ih_exiting = False, ih_hints = []\<rparr>"

text \<open>\<open>efd\<close> is the result of \<open>eventfd(0, EFD_NONBLOCK)\<close>.\<close>

definition Init :: "(string \<Rightarrow> int) \<Rightarrow> int \<Rightarrow> InteractionHandler \<Rightarrow> bool \<times> InteractionHandler" where
  "Init openf efd s =
     (if mState s \<noteq> INTERACTION_STATE_UNINITIALIZED then (True, s)
      else let fd = FbIdleOpen openf in
        if fd < 0 then (False, s)
        else let s = s\<lparr>mIdleFd := fd, mEventFd := efd\<rparr> in
          if efd < 0 then (False, s)
          else (True, s\<lparr>ih_eventCount := 0, ih_fdsOpen := True,
                        mState := INTERACTION_STATE_IDLE, ih_pc := R_COND\<rparr>))"

text \<open>Writing 1 to the event descriptor; the kernel refuses a write that would pass \<open>2^64 - 2\<close>.\<close>

definition AbortWaitLocked :: "InteractionHandler \<Rightarrow> InteractionHandler" where
  "AbortWaitLocked s =
     (if ih_eventCount s + 1 \<le> 2 ^ 64 - 2 then s\<lparr>ih_eventCount := ih_eventCount s + 1\<rparr> else s)"

text \<open>\<open>Exit\<close> up to the join, which waits for the worker to return, and after it.\<close>

definition Exit_signal :: "InteractionHandler \<Rightarrow> InteractionHandler" where
  "Exit_signal s =
     (if mState s = INTERACTION_STATE_UNINITIALIZED then s
      else (AbortWaitLocked s)\<lparr>mState := INTERACTION_STATE_UNINITIALIZED, ih_exiting := True\<rparr>)"

definition Exit_join :: "InteractionHandler \<Rightarrow> InteractionHandler" where
  "Exit_join s = s\<lparr>ih_exiting := False, ih_fdsOpen := False\<rparr>"

definition PerfLock :: "InteractionHandler \<Rightarrow> InteractionHandler" where
  "PerfLock s = s\<lparr>ih_hints := DoHint ''INTERACTION'' # ih_hints s\<rparr>"

definition PerfRel :: "InteractionHandler \<Rightarrow> InteractionHandler" where
  "PerfRel s = s\<lparr>ih_hints := EndHint ''INTERACTION'' # ih_hints s\<rparr>"

text \<open>
  The duration computation of \<open>Acquire\<close>. The sum is unsigned, and so are the comparisons with
  the unsigned limits: the usual arithmetic conversions turn \<open>inputDuration\<close> into \<open>uint32_t\<close>.
\<close>

definition finalDuration :: "ih_config \<Rightarrow> u32 \<Rightarrow> u32" where
  "finalDuration cfg duration =
     (let inputDuration = duration + kDurationOffsetMs cfg in
      if inputDuration > kMaxDurationMs cfg then kMaxDurationMs cfg
      else if inputDuration > kMinDurationMs cfg then inputDuration
      else kMinDurationMs cfg)"

definition Acquire ::
  "ih_config \<Rightarrow> u32 \<Rightarrow> timespec \<Rightarrow> InteractionHandler \<Rightarrow> InteractionHandler" where
  "Acquire cfg duration cur_timespec s =
     (let final = finalDuration cfg duration in
      if \<not> kDisplayIdleSupport cfg \<or> mState s = INTERACTION_STATE_UNINITIALIZED
      then s\<lparr>ih_hints := DoHintFor ''INTERACTION'' (sint final) # ih_hints s\<rparr>
      else if mState s \<noteq> INTERACTION_STATE_IDLE \<and> sint final \<le> sint (mDurationMs s)
              \<and> CalcTimespecDiffMs (mLastTimespec s) cur_timespec \<le> scast (mDurationMs s - final)
      then s
      else let s = s\<lparr>mLastTimespec := cur_timespec, mDurationMs := final\<rparr>;
               s = (if mState s = INTERACTION_STATE_WAITING then AbortWaitLocked s
                    else if mState s = INTERACTION_STATE_IDLE then PerfLock s
                    else s)
           in s\<lparr>mState := INTERACTION_STATE_INTERACTION\<rparr>)"

text \<open>Reading the event descriptor resets its counter (or fails when the counter is 0).\<close>

definition Release :: "InteractionHandler \<Rightarrow> InteractionHandler" where
  "Release s =
     (if mState s = INTERACTION_STATE_WAITING
      then (PerfRel s)\<lparr>mState := INTERACTION_STATE_IDLE\<rparr>
      else s\<lparr>ih_eventCount := 0\<rparr>)"

datatype wait_outcome =
    WaitAborted | PollError | UnexpectedEOF | AlreadyIdle | IdleWaitError | IdleWaitTimedOut
  | IdleWaitAborted | IdleDetected | NoEvents

text \<open>
  \<open>WaitForIdle\<close> changes no field; the model is the branch it takes. The arguments are the two
  results of \<open>poll\<close>, the result of \<open>pread\<close> with the bytes it stored, the earlier contents of the
  stack buffer, and the two \<open>revents\<close> masks.
\<close>

definition WaitForIdle ::
  "int \<Rightarrow> int \<Rightarrow> string \<Rightarrow> string \<Rightarrow> int \<Rightarrow> u32 \<Rightarrow> u32 \<Rightarrow> wait_outcome" where
  "WaitForIdle poll1 pread_ret pread_data stack_data poll2 revents0 revents1 =
     (if poll1 > 0 then WaitAborted
      else if poll1 < 0 then PollError
      else if pread_ret = 0 then UnexpectedEOF
      else let data = (if pread_ret > 0 then pread_data @ drop (nat pread_ret) stack_data
                       else stack_data) in
        if take 4 data = ''idle'' then AlreadyIdle
        else if poll2 < 0 then IdleWaitError
        else if poll2 = 0 then IdleWaitTimedOut
        else if revents0 \<noteq> 0 then IdleWaitAborted
        else if revents1 \<noteq> 0 then IdleDetected
        else NoEvents)"

text \<open>
  One move of the worker. At the condition variable it is blocked while the state is IDLE, and
  leaves the loop when the state is UNINITIALIZED.
\<close>

definition routine_step :: "InteractionHandler \<Rightarrow> InteractionHandler" where
  "routine_step s =
     (case ih_pc s of
        R_COND \<Rightarrow>
          (if mState s = INTERACTION_STATE_IDLE then s
           else if mState s = INTERACTION_STATE_UNINITIALIZED then s\<lparr>ih_pc := R_DONE\<rparr>
           else s\<lparr>mState := INTERACTION_STATE_WAITING, ih_pc := R_WAIT\<rparr>)
      | R_WAIT \<Rightarrow> s\<lparr>ih_pc := R_RELEASE\<rparr>
      | R_RELEASE \<Rightarrow> (Release s)\<lparr>ih_pc := R_COND\<rparr>
      | _ \<Rightarrow> s)"

section \<open>The step relation\<close>

text \<open>
  \<open>Power\<close> calls \<open>Init\<close> once from its constructor, before any other call, and the destructor
  calls \<open>Exit\<close>; \<open>Acquire\<close> and the worker interleave freely.
\<close>

inductive ih_step :: "ih_config \<Rightarrow> InteractionHandler \<Rightarrow> InteractionHandler \<Rightarrow> bool"
  for cfg :: ih_config where
  step_init: "ih_pc s = R_NONE \<Longrightarrow> ih_step cfg s (snd (Init openf efd s))"
| step_acquire: "ih_step cfg s (Acquire cfg duration cur s)"
| step_routine: "ih_step cfg s (routine_step s)"
| step_exit: "\<not> ih_exiting s \<Longrightarrow> ih_step cfg s (Exit_signal s)"
| step_join: "ih_exiting s \<Longrightarrow> ih_pc s = R_DONE \<Longrightarrow> ih_step cfg s (Exit_join s)"

abbreviation ih_start :: "InteractionHandler \<Rightarrow> bool" where
  "ih_start s \<equiv> (\<exists>ifd efd ts. s = InteractionHandler_new ifd efd ts)"

abbreviation ih_reachable :: "ih_config \<Rightarrow> InteractionHandler \<Rightarrow> bool" where
  "ih_reachable cfg \<equiv> reach ih_start (ih_step cfg)"

abbreviation ih_running :: "InteractionHandler \<Rightarrow> bool" where
  "ih_running s \<equiv> mState s \<noteq> INTERACTION_STATE_UNINITIALIZED"

text \<open>The instant a time specification stands for, in nanoseconds.\<close>

definition timespec_ns :: "timespec \<Rightarrow> int" where
  "timespec_ns t = tv_sec t * 1000000000 + tv_nsec t"

abbreviation ih_settled :: "InteractionHandler \<Rightarrow> bool" where
  "ih_settled s \<equiv> mState s = INTERACTION_STATE_IDLE \<and> \<not> hint_held ''INTERACTION'' (ih_hints s)"

text \<open>A handler after initialisation and one interaction, for the witnesses.\<close>

abbreviation ih_example :: InteractionHandler where
  "ih_example \<equiv> Acquire ih_default_config 100 \<lparr>tv_sec = 1, tv_nsec = 0\<rparr>
     (snd (Init (\<lambda>_. 3) 4 (InteractionHandler_new 0 0 \<lparr>tv_sec = 0, tv_nsec = 0\<rparr>)))"

definition ih_inv :: "InteractionHandler \<Rightarrow> bool" where
  "ih_inv s \<longleftrightarrow>
     (ih_pc s = R_NONE \<longrightarrow> \<not> ih_running s \<and> \<not> ih_exiting s \<and> \<not> hint_held ''INTERACTION'' (ih_hints s)) \<and>
     (ih_running s \<longrightarrow> ih_pc s \<in> {R_COND, R_WAIT, R_RELEASE} \<and> \<not> ih_exiting s) \<and>
     (ih_running s \<longrightarrow> (hint_held ''INTERACTION'' (ih_hints s) \<longleftrightarrow> mState s \<noteq> INTERACTION_STATE_IDLE)) \<and>
     (mState s = INTERACTION_STATE_IDLE \<longrightarrow> ih_pc s = R_COND) \<and>
     (mState s = INTERACTION_STATE_WAITING \<longrightarrow> ih_pc s \<noteq> R_COND) \<and>
     (ih_running s \<longrightarrow>
        ih_eventCount s = (if mState s = INTERACTION_STATE_INTERACTION \<and> ih_pc s \<noteq> R_COND then 1 else 0)) \<and>
     (\<not> ih_running s \<and> ih_pc s = R_WAIT \<longrightarrow> 0 < ih_eventCount s) \<and>
     (\<not> ih_running s \<and> ih_pc s \<in> {R_COND, R_WAIT, R_RELEASE} \<longrightarrow> ih_exiting s) \<and>
     (ih_pc s \<in> {R_COND, R_WAIT, R_RELEASE} \<longrightarrow> ih_fdsOpen s)"

section \<open>The invariant\<close>

lemmas ih_op_defs = Init_def AbortWaitLocked_def Exit_signal_def Exit_join_def PerfLock_def
  PerfRel_def Release_def Let_def

lemma ih_inv_new: "ih_inv (InteractionHandler_new ifd efd ts)"
  by (simp add: ih_inv_def InteractionHandler_new_def)

lemma ih_inv_Init: "ih_inv s \<Longrightarrow> ih_pc s = R_NONE \<Longrightarrow> ih_inv (snd (Init openf efd s))"
  by (auto simp: ih_inv_def ih_op_defs)

lemma ih_inv_Acquire: "ih_inv s \<Longrightarrow> ih_inv (Acquire cfg duration cur s)"
  by (cases "mState s") (auto simp: ih_inv_def ih_op_defs Acquire_def)

lemma ih_inv_routine_step: "ih_inv s \<Longrightarrow> ih_inv (routine_step s)"
  by (cases "ih_pc s"; cases "mState s") (auto simp: ih_inv_def ih_op_defs routine_step_def)

lemma ih_inv_Exit_signal: "ih_inv s \<Longrightarrow> ih_inv (Exit_signal s)"
  by (cases "mState s") (auto simp: ih_inv_def ih_op_defs)

lemma ih_inv_Exit_join: "ih_inv s \<Longrightarrow> ih_exiting s \<Longrightarrow> ih_pc s = R_DONE \<Longrightarrow> ih_inv (Exit_join s)"
  by (auto simp: ih_inv_def ih_op_defs)

interpretation ih: invariant_system ih_start "ih_step cfg" ih_inv for cfg
proof unfold_locales
  show "ih_start s \<Longrightarrow> ih_inv s" for s
    by (auto simp: ih_inv_new)
  show "ih_inv s \<Longrightarrow> ih_step cfg s t \<Longrightarrow> ih_inv t" for s t
    by (erule ih_step.cases)
      (auto intro: ih_inv_Init ih_inv_Acquire ih_inv_routine_step ih_inv_Exit_signal ih_inv_Exit_join)
qed

section \<open>Properties\<close>

lemma ih_example_reachable: "ih_reachable ih_default_config ih_example"
proof -
  let ?s = "InteractionHandler_new 0 0 \<lparr>tv_sec = 0, tv_nsec = 0\<rparr>"
  have "ih_reachable ih_default_config ?s"
    by (rule reach.reach_start) blast
  moreover have "ih_pc ?s = R_NONE"
    by (simp add: InteractionHandler_new_def)
  ultimately have "ih_reachable ih_default_config (snd (Init (\<lambda>_. 3) 4 ?s))"
    by (blast intro: reach.reach_step ih_step.step_init)
  then show ?thesis
    by (rule reach.reach_step) (rule ih_step.step_acquire)
qed

lemmas ih_example_simps = finalDuration_def ih_default_config_def Acquire_def Init_def FbIdleOpen_def kDispIdlePath_def
  InteractionHandler_new_def PerfLock_def Let_def

text \<open>
  C1. In every reachable state of an initialised handler, over all interleavings of
  \<open>Acquire\<close>, the worker and \<open>Exit\<close>, the INTERACTION hint is held exactly while the state is
  INTERACTION or WAITING: no boost is leaked while idle and none is dropped while in use.
\<close>

theorem interaction_hint_balanced:
  assumes "ih_reachable cfg s" and "ih_running s"
  shows "hint_held ''INTERACTION'' (ih_hints s) \<longleftrightarrow>
         mState s \<in> {INTERACTION_STATE_INTERACTION, INTERACTION_STATE_WAITING}"
  using ih.reach_invar [OF assms(1)] assms(2)
  by (cases "mState s") (auto simp: ih_inv_def)

theorem interaction_hint_balanced_witness:
  "ih_reachable ih_default_config ih_example \<and> ih_running ih_example \<and>
   hint_held ''INTERACTION'' (ih_hints ih_example) \<and>
   mState ih_example = INTERACTION_STATE_INTERACTION"
proof -
  have "mState ih_example = INTERACTION_STATE_INTERACTION"
    by (simp add: ih_example_simps)
  then show ?thesis
    using ih_example_reachable interaction_hint_balanced [OF ih_example_reachable] by simp
qed

text \<open>
  C3. While the worker is inside \<open>WaitForIdle\<close> its descriptors are open, and an abort is pending
  in the event descriptor exactly when the state was changed under it: an \<open>Acquire\<close> or \<open>Exit\<close> is
  never missed, and a wait is never aborted without one.
\<close>

theorem routine_wait_abort_pending:
  assumes "ih_reachable cfg s" and "ih_pc s = R_WAIT"
  shows "ih_fdsOpen s \<and> (mState s = INTERACTION_STATE_WAITING \<longleftrightarrow> ih_eventCount s = 0)"
  using ih.reach_invar [OF assms(1)] assms(2)
  by (cases "mState s") (auto simp: ih_inv_def)

theorem routine_wait_abort_pending_witness:
  "ih_pc (routine_step ih_example) = R_WAIT \<and> ih_fdsOpen (routine_step ih_example) \<and>
   ih_eventCount (routine_step ih_example) = 0"
proof -
  have r: "ih_reachable ih_default_config (routine_step ih_example)"
    by (rule reach.reach_step [OF ih_example_reachable step_routine])
  have pc: "ih_pc (routine_step ih_example) = R_WAIT"
    and st: "mState (routine_step ih_example) = INTERACTION_STATE_WAITING"
    by (simp_all add: ih_example_simps routine_step_def)
  show ?thesis
    using routine_wait_abort_pending [OF r pc] pc st by simp
qed

lemma routine_step_simps:
  "ih_pc s = R_COND \<Longrightarrow> mState s = INTERACTION_STATE_INTERACTION \<Longrightarrow>
     routine_step s = s\<lparr>mState := INTERACTION_STATE_WAITING, ih_pc := R_WAIT\<rparr>"
  "ih_pc s = R_COND \<Longrightarrow> mState s = INTERACTION_STATE_UNINITIALIZED \<Longrightarrow>
     routine_step s = s\<lparr>ih_pc := R_DONE\<rparr>"
  "ih_pc s = R_WAIT \<Longrightarrow> routine_step s = s\<lparr>ih_pc := R_RELEASE\<rparr>"
  "ih_pc s = R_RELEASE \<Longrightarrow> mState s = INTERACTION_STATE_WAITING \<Longrightarrow>
     routine_step s = (PerfRel s)\<lparr>mState := INTERACTION_STATE_IDLE, ih_pc := R_COND\<rparr>"
  "ih_pc s = R_RELEASE \<Longrightarrow> mState s \<noteq> INTERACTION_STATE_WAITING \<Longrightarrow>
     routine_step s = s\<lparr>ih_eventCount := 0, ih_pc := R_COND\<rparr>"
  by (simp_all add: routine_step_def Release_def)

lemma settles_from_cond:
  assumes "ih_pc s = R_COND" "mState s = INTERACTION_STATE_INTERACTION"
  shows "ih_settled ((routine_step ^^ 3) s)"
  using assms by (simp add: numeral_3_eq_3 routine_step_simps PerfRel_def)

lemma settles_from_release:
  assumes "ih_pc s = R_RELEASE" "ih_inv s" "ih_running s"
  shows "\<exists>n\<le>4. ih_settled ((routine_step ^^ n) s)"
proof (cases "mState s = INTERACTION_STATE_WAITING")
  case True
  then have "ih_settled ((routine_step ^^ 1) s)"
    using assms by (simp add: routine_step_simps PerfRel_def)
  then show ?thesis by (metis one_le_numeral)
next
  case False
  with assms have "mState s = INTERACTION_STATE_INTERACTION"
    by (cases "mState s") (auto simp: ih_inv_def)
  then have "ih_pc (routine_step s) = R_COND" "mState (routine_step s) = INTERACTION_STATE_INTERACTION"
    using assms by (simp_all add: routine_step_simps)
  then have "ih_settled ((routine_step ^^ 3) (routine_step s))"
    by (rule settles_from_cond)
  then have "ih_settled ((routine_step ^^ 4) s)"
    by (simp add: numeral_3_eq_3 eval_nat_numeral funpow_swap1)
  then show ?thesis by blast
qed

lemma running_settles:
  assumes inv: "ih_inv s" and run: "ih_running s"
  shows "\<exists>n\<le>5. ih_settled ((routine_step ^^ n) s)"
proof -
  consider (idle) "mState s = INTERACTION_STATE_IDLE"
    | (cond) "ih_pc s = R_COND" "mState s = INTERACTION_STATE_INTERACTION"
    | (release) "ih_pc s = R_RELEASE" | (wait) "ih_pc s = R_WAIT"
    using inv run by (cases "mState s") (auto simp: ih_inv_def)
  then show ?thesis
  proof cases
    case idle
    then have "ih_settled ((routine_step ^^ 0) s)"
      using inv by (simp add: ih_inv_def)
    then show ?thesis by blast
  next
    case cond
    then have "3 \<le> (5::nat) \<and> ih_settled ((routine_step ^^ 3) s)"
      using settles_from_cond by simp
    then show ?thesis by blast
  next
    case release
    then obtain n where "n \<le> 4" "ih_settled ((routine_step ^^ n) s)"
      using settles_from_release inv run by blast
    then have "n \<le> 5 \<and> ih_settled ((routine_step ^^ n) s)" by simp
    then show ?thesis by blast
  next
    case wait
    then have "ih_pc (routine_step s) = R_RELEASE" "ih_running (routine_step s)"
      using run by (simp_all add: routine_step_simps)
    then obtain n where "n \<le> 4" "ih_settled ((routine_step ^^ n) (routine_step s))"
      using settles_from_release ih_inv_routine_step [OF inv] by blast
    then have "Suc n \<le> 5 \<and> ih_settled ((routine_step ^^ Suc n) s)"
      by (simp add: funpow_swap1)
    then show ?thesis by blast
  qed
qed

lemma exiting_returns:
  assumes inv: "ih_inv s" and ex: "ih_exiting s"
  shows "ih_pc ((routine_step ^^ 3) s) = R_DONE"
proof -
  have "mState s = INTERACTION_STATE_UNINITIALIZED" and "ih_pc s \<noteq> R_NONE"
    using inv ex by (auto simp: ih_inv_def)
  then show ?thesis
    by (cases "ih_pc s") (simp_all add: numeral_3_eq_3 routine_step_def Release_def)
qed

text \<open>
  C2. Progress of the worker. From every reachable state of an initialised handler at most five
  moves of the worker (with no further \<open>Acquire\<close>) bring it to IDLE with the INTERACTION hint
  released, and once \<open>Exit\<close> has signalled, three moves make it return, so the join ends.
\<close>

theorem routine_settles:
  assumes "ih_reachable cfg s"
  shows "(ih_running s \<longrightarrow> (\<exists>n\<le>5. ih_settled ((routine_step ^^ n) s))) \<and>
         (ih_exiting s \<longrightarrow> ih_pc ((routine_step ^^ 3) s) = R_DONE)"
  using ih.reach_invar [OF assms] running_settles exiting_returns by blast

theorem routine_settles_witness:
  "ih_running ih_example \<and> (\<exists>n\<le>5. ih_settled ((routine_step ^^ n) ih_example)) \<and>
   ih_exiting (Exit_signal ih_example) \<and>
   ih_pc ((routine_step ^^ 3) (Exit_signal ih_example)) = R_DONE"
proof -
  have run: "ih_running ih_example"
    by (simp add: ih_example_simps)
  have ex: "\<not> ih_exiting ih_example" "ih_exiting (Exit_signal ih_example)"
    by (simp_all add: ih_example_simps Exit_signal_def AbortWaitLocked_def)
  have r: "ih_reachable ih_default_config (Exit_signal ih_example)"
    by (rule reach.reach_step [OF ih_example_reachable ih_step.step_exit [OF ex(1)]])
  show ?thesis
    using routine_settles [OF ih_example_reachable] routine_settles [OF r] run ex(2) by blast
qed

text \<open>
  C5. The duration of a boost. The requested duration plus the offset is clamped between the
  minimum and the maximum when the sum is not negative; a negative sum is compared as an unsigned
  number and gives the maximum duration instead of the minimum.
\<close>

theorem finalDuration_spec:
  assumes "uint (kDurationOffsetMs cfg) < 2 ^ 31" "uint (kMaxDurationMs cfg) < 2 ^ 31"
    and "kMinDurationMs cfg \<le> kMaxDurationMs cfg"
  shows "uint (finalDuration cfg duration) =
     (let input = sint duration + uint (kDurationOffsetMs cfg) in
      if input < 0 then uint (kMaxDurationMs cfg)
      else max (uint (kMinDurationMs cfg)) (min (uint (kMaxDurationMs cfg)) input))"
proof -
  let ?in = "sint duration + uint (kDurationOffsetMs cfg)"
  have off: "uint (kDurationOffsetMs cfg) < 2147483648" and mx: "uint (kMaxDurationMs cfg) < 2147483648"
    using assms(1,2) by simp_all
  have mm: "uint (kMinDurationMs cfg) \<le> uint (kMaxDurationMs cfg)"
    using assms(3) by (simp add: word_le_def)
  have lo: "- 2147483648 \<le> sint duration"
    using sint_greater_eq [of duration] by simp
  have "uint (duration + kDurationOffsetMs cfg) = (if ?in < 0 then ?in + 4294967296 else ?in)"
    by (rule uint_add_signed [OF off])
  moreover have "uint (kMaxDurationMs cfg) < ?in + 4294967296"
    using mx lo uint_u32_bounds(1) [of "kDurationOffsetMs cfg"] by linarith
  ultimately show ?thesis
    using mm
    unfolding finalDuration_def Let_def word_less_def
    by (cases "?in < 0") (simp_all add: max_def min_def)
qed

theorem finalDuration_spec_witness:
  "uint (finalDuration ih_default_config 2000) = 2650 \<and>
   uint (finalDuration ih_default_config (- 700)) = 5650"
  using finalDuration_spec [of ih_default_config 2000]
    finalDuration_spec [of ih_default_config "- 700"]
  by (simp add: ih_default_config_def Let_def)

text \<open>
  \<open>CalcTimespecDiffMs\<close> is the time between two normalised instants to within one
  millisecond, although it divides the nanosecond part separately and adds in wrapping
  arithmetic.
\<close>

theorem CalcTimespecDiffMs_accurate:
  assumes "0 \<le> tv_nsec a" "tv_nsec a < 1000000000" "0 \<le> tv_nsec b" "tv_nsec b < 1000000000"
    and "timespec_ns a \<le> timespec_ns b" "timespec_ns b - timespec_ns a < 1000000 * 2 ^ 62"
  shows "\<bar>uint (CalcTimespecDiffMs a b) * 1000000 - (timespec_ns b - timespec_ns a)\<bar> < 1000000"
proof -
  let ?q = "(tv_nsec b - tv_nsec a) sdiv 1000000"
  define x where "x = (tv_sec b - tv_sec a) * 1000 + ?q"
  have "\<bar>?q * 1000000 - (tv_nsec b - tv_nsec a)\<bar> < 1000000"
    by (auto simp: signed_divide_int_def sgn_if)
  then have x: "\<bar>x * 1000000 - (timespec_ns b - timespec_ns a)\<bar> < 1000000"
    by (simp add: timespec_ns_def x_def algebra_simps)
  then have "x < 2 ^ 64"
    using assms(6) by (simp add: abs_less_iff)
  moreover from x have "0 \<le> x"
    using assms(5) by (simp add: abs_less_iff)
  ultimately have "uint (CalcTimespecDiffMs a b) = x"
    using uint_word_of_int [where 'a = 64 and k = x] by (simp add: CalcTimespecDiffMs_def x_def)
  with x show ?thesis by simp
qed

theorem CalcTimespecDiffMs_accurate_witness:
  "\<bar>uint (CalcTimespecDiffMs \<lparr>tv_sec = 1, tv_nsec = 999500000\<rparr> \<lparr>tv_sec = 2, tv_nsec = 499999\<rparr>)
     * 1000000 - 999999\<bar> < 1000000"
  using CalcTimespecDiffMs_accurate [of "\<lparr>tv_sec = 1, tv_nsec = 999500000\<rparr>"
      "\<lparr>tv_sec = 2, tv_nsec = 499999\<rparr>"]
  by (simp add: timespec_ns_def)

text \<open>
  C4. After every \<open>Acquire\<close> on an initialised handler the recorded boost window covers the
  requested one: the time since the recorded start plus the final duration is at most the recorded
  duration. In particular the early return skips a hint only when the previous one covers it.
\<close>

theorem Acquire_window_covers:
  assumes "kDisplayIdleSupport cfg" and "ih_running s"
    and "0 \<le> sint (finalDuration cfg duration)"
    and "Acquire cfg duration cur s = s'"
  shows "uint (CalcTimespecDiffMs (mLastTimespec s') cur) + sint (finalDuration cfg duration)
           \<le> sint (mDurationMs s')"
proof (cases "mState s \<noteq> INTERACTION_STATE_IDLE \<and> sint (finalDuration cfg duration) \<le> sint (mDurationMs s)
         \<and> CalcTimespecDiffMs (mLastTimespec s) cur \<le> scast (mDurationMs s - finalDuration cfg duration)")
  case True
  then have "s' = s" using assms(1,2,4) by (simp add: Acquire_def Let_def)
  moreover have "uint (scast (mDurationMs s - finalDuration cfg duration) :: u64) =
      sint (mDurationMs s) - sint (finalDuration cfg duration)"
    using True assms(3) by (simp add: uint_scast_u64 sint_diff_u32)
  ultimately show ?thesis using True by (simp add: word_le_def)
next
  case False
  then have "mLastTimespec s' = cur \<and> mDurationMs s' = finalDuration cfg duration"
    using assms by (auto simp: Acquire_def Let_def PerfLock_def AbortWaitLocked_def)
  then show ?thesis by (simp add: CalcTimespecDiffMs_def)
qed

theorem Acquire_window_covers_witness:
  "uint (CalcTimespecDiffMs
      (mLastTimespec (Acquire ih_default_config 50 \<lparr>tv_sec = 1, tv_nsec = 0\<rparr> ih_example))
      \<lparr>tv_sec = 1, tv_nsec = 0\<rparr>) + 1400
     \<le> sint (mDurationMs (Acquire ih_default_config 50 \<lparr>tv_sec = 1, tv_nsec = 0\<rparr> ih_example))"
proof -
  have f: "sint (finalDuration ih_default_config 50) = 1400"
    by (simp add: finalDuration_def ih_default_config_def)
  show ?thesis
    using Acquire_window_covers [of ih_default_config ih_example 50 "\<lparr>tv_sec = 1, tv_nsec = 0\<rparr>"] f
    by (simp add: ih_example_simps)
qed

end
