(* ===== verification/Doubles.thy ===== *)
theory Doubles
  imports Prelude
begin

text \<open>
  The \<open>double\<close> arithmetic of the C++ code on the finite values of the format: every operation is
  the exact rational operation followed by one rounding to 53 significant bits, ties to even.
  The exponent is not bounded. In the code every result is cast to \<open>int64_t\<close> at once: a value too
  large for the format is out of range of the cast too, and a value too small for the format is
  cast to 0 either way, so the bounds of the exponent do not show. The cast of a value that
  \<open>int64_t\<close> cannot hold, and so of an infinity or a NaN, is undefined and is \<open>None\<close> here.
\<close>

section \<open>Definitions\<close>

fun ilog2 :: "nat \<Rightarrow> nat" where
  "ilog2 n = (if n < 2 then 0 else Suc (ilog2 (n div 2)))"

declare ilog2.simps [simp del]

definition round_half_even :: "rat \<Rightarrow> int" where
  "round_half_even q =
     (let f = \<lfloor>q\<rfloor>; d = q - of_int f in
      if d < 1 / 2 then f else if d > 1 / 2 then f + 1 else if even f then f else f + 1)"

text \<open>The binary exponent of a non-zero number.\<close>

definition dexp :: "rat \<Rightarrow> int" where
  "dexp x =
     (let (p, q) = quotient_of \<bar>x\<bar>;
          e0 = int (ilog2 (nat p)) - int (ilog2 (nat q))
      in if \<bar>x\<bar> < 2 powi e0 then e0 - 1 else e0)"

definition dbl_round :: "rat \<Rightarrow> rat" where
  "dbl_round x =
     (if x = 0 then 0
      else of_int (round_half_even (x * 2 powi (52 - dexp x))) * 2 powi (dexp x - 52))"

definition dbl_of_int :: "int \<Rightarrow> rat" where
  "dbl_of_int i = dbl_round (of_int i)"

definition dbl_mult :: "rat \<Rightarrow> rat \<Rightarrow> rat" where
  "dbl_mult x y = dbl_round (x * y)"

text \<open>Division by zero gives an infinity or a NaN, which is no finite value.\<close>

definition dbl_divide :: "rat \<Rightarrow> rat \<Rightarrow> rat option" where
  "dbl_divide x y = (if y = 0 then None else Some (dbl_round (x / y)))"

text \<open>\<open>static_cast<int64_t>\<close> truncates towards zero.\<close>

definition trunc :: "rat \<Rightarrow> int" where
  "trunc x = (if 0 \<le> x then \<lfloor>x\<rfloor> else \<lceil>x\<rceil>)"

definition dbl_to_int64 :: "rat \<Rightarrow> int option" where
  "dbl_to_int64 x = chk64 (trunc x)"

section \<open>Rounding to an integer\<close>

lemma round_half_even_error: "\<bar>of_int (round_half_even q) - q\<bar> \<le> 1 / 2"
proof -
  have "of_int \<lfloor>q\<rfloor> \<le> q" "q < of_int \<lfloor>q\<rfloor> + 1"
    by linarith+
  then show ?thesis
    by (auto simp: round_half_even_def Let_def abs_le_iff)
qed

lemma round_half_even_of_int [simp]: "round_half_even (of_int i) = i"
  by (simp add: round_half_even_def)

section \<open>The exponent\<close>

lemma ilog2_bounds: "0 < n \<Longrightarrow> 2 ^ ilog2 n \<le> n \<and> n < 2 ^ Suc (ilog2 n)"
proof (induction n rule: ilog2.induct)
  case (1 n)
  show ?case
  proof (cases "n < 2")
    case True
    with "1.prems" show ?thesis by (simp add: ilog2.simps)
  next
    case False
    then have "2 ^ ilog2 (n div 2) \<le> n div 2 \<and> n div 2 < 2 ^ Suc (ilog2 (n div 2))"
      by (intro "1.IH") auto
    moreover have "ilog2 n = Suc (ilog2 (n div 2))"
      using False by (simp add: ilog2.simps [of n])
    ultimately show ?thesis by auto
  qed
qed

lemma ilog2_rat_bounds:
  assumes "0 < p"
  shows "(2::rat) powi int (ilog2 (nat p)) \<le> of_int p"
    and "of_int p < (2::rat) powi (int (ilog2 (nat p)) + 1)"
proof -
  have b: "2 ^ ilog2 (nat p) \<le> nat p" "nat p < 2 ^ Suc (ilog2 (nat p))"
    using ilog2_bounds [of "nat p"] assms by auto
  have "(2::rat) ^ ilog2 (nat p) = of_nat (2 ^ ilog2 (nat p))" by simp
  also have "\<dots> \<le> of_nat (nat p)" using b(1) by (simp only: of_nat_le_iff)
  finally show "(2::rat) powi int (ilog2 (nat p)) \<le> of_int p" using assms by simp
  have "(of_nat (nat p) :: rat) < of_nat (2 ^ Suc (ilog2 (nat p)))"
    using b(2) by (simp only: of_nat_less_iff)
  then show "of_int p < (2::rat) powi (int (ilog2 (nat p)) + 1)"
    using assms by (simp add: power_int_add)
qed

lemma dexp_bounds:
  assumes "x \<noteq> 0"
  shows "2 powi dexp x \<le> \<bar>x\<bar>" and "\<bar>x\<bar> < 2 powi (dexp x + 1)"
proof -
  obtain p q where pq: "quotient_of \<bar>x\<bar> = (p, q)" by fastforce
  then have x: "\<bar>x\<bar> = of_int p / of_int q" and q: "0 < q"
    by (auto simp: quotient_of_div quotient_of_denom_pos)
  have p: "0 < p"
    using x q assms by (metis of_int_0_less_iff zero_less_abs_iff zero_less_divide_iff order_less_asym)
  define a b where "a = int (ilog2 (nat p))" and "b = int (ilog2 (nat q))"
  have d: "dexp x = (if \<bar>x\<bar> < 2 powi (a - b) then a - b - 1 else a - b)"
    by (simp add: dexp_def pq a_def b_def)
  note P = ilog2_rat_bounds [OF p, folded a_def] and Q = ilog2_rat_bounds [OF q, folded b_def]
  have "2 powi a / 2 powi (b + 1) \<le> (of_int p :: rat) / of_int q"
    using P Q q p by (intro frac_le) (auto simp: less_imp_le)
  then have lo: "2 powi (a - b - 1) \<le> \<bar>x\<bar>"
    by (simp add: x power_int_diff power_int_add)
  have "(of_int p :: rat) / of_int q < 2 powi (a + 1) / 2 powi b"
    using P Q q p by (intro frac_less) auto
  then have "\<bar>x\<bar> < 2 powi (a - b + 1)"
    by (simp add: x power_int_diff power_int_add)
  then show "2 powi dexp x \<le> \<bar>x\<bar>" "\<bar>x\<bar> < 2 powi (dexp x + 1)"
    using lo by (auto simp: d)
qed

section \<open>Accuracy of the operations\<close>

lemma dbl_round_0 [simp]: "dbl_round 0 = 0"
  by (simp add: dbl_round_def)

lemma dbl_round_error: "\<bar>dbl_round x - x\<bar> \<le> \<bar>x\<bar> / 2 ^ 53"
proof (cases "x = 0")
  case False
  let ?y = "x * 2 powi (52 - dexp x)" and ?u = "(2::rat) powi (dexp x - 52)"
  have one: "2 powi (52 - dexp x) * ?u = 1"
    by (simp flip: power_int_add)
  then have "dbl_round x - x = (of_int (round_half_even ?y) - ?y) * ?u"
    using False by (simp add: dbl_round_def algebra_simps)
  then have "\<bar>dbl_round x - x\<bar> = \<bar>of_int (round_half_even ?y) - ?y\<bar> * ?u"
    by (simp add: abs_mult)
  also have "\<dots> \<le> 1 / 2 * ?u"
    by (intro mult_right_mono round_half_even_error) simp
  also have "\<dots> = 2 powi dexp x / 2 ^ 53"
    by (simp add: power_int_diff)
  also have "\<dots> \<le> \<bar>x\<bar> / 2 ^ 53"
    using dexp_bounds(1) [OF False] by (intro divide_right_mono) auto
  finally show ?thesis .
qed simp

lemma dbl_round_abs_le: "\<bar>dbl_round x\<bar> \<le> 2 * \<bar>x\<bar>"
proof -
  have "\<bar>x\<bar> / 2 ^ 53 \<le> \<bar>x\<bar>" by (simp add: field_simps)
  then show ?thesis using dbl_round_error [of x] by linarith
qed

lemma dbl_of_int_exact: "\<bar>i\<bar> < 2 ^ 53 \<Longrightarrow> dbl_of_int i = of_int i"
proof (cases "i = 0")
  case False
  assume i: "\<bar>i\<bar> < 2 ^ 53"
  let ?e = "dexp (of_int i)"
  have "(2::rat) powi ?e \<le> of_int \<bar>i\<bar>"
    using dexp_bounds(1) [of "of_int i"] False by simp
  also have "(of_int \<bar>i\<bar> :: rat) < of_int (2 ^ 53)"
    using i by (simp only: of_int_less_iff)
  also have "(of_int (2 ^ 53) :: rat) = 2 powi 53" by simp
  finally have "?e < 53"
    by (metis not_le power_int_increasing one_le_numeral)
  then have "0 \<le> 52 - ?e" by simp
  then obtain k where k: "52 - ?e = int k" by (rule nonneg_int_cases)
  then have "of_int i * 2 powi (52 - ?e) = (of_int (i * 2 ^ k) :: rat)"
    by simp
  then have "round_half_even (of_int i * 2 powi (52 - ?e)) = i * 2 ^ k"
    by (simp only: round_half_even_of_int)
  moreover have "?e - 52 = - int k" using k by simp
  ultimately show ?thesis
    using False by (simp add: dbl_of_int_def dbl_round_def power_int_minus)
qed (simp add: dbl_of_int_def)

lemma dbl_to_int64_bounded:
  assumes "\<bar>x\<bar> < 2 ^ 63"
  shows "dbl_to_int64 x = Some (trunc x)" and "\<bar>of_int (trunc x)\<bar> \<le> \<bar>x\<bar>"
proof -
  show le: "\<bar>of_int (trunc x)\<bar> \<le> \<bar>x\<bar>"
    by (auto simp: trunc_def)
  then have "of_int \<bar>trunc x\<bar> < (of_int (2 ^ 63) :: rat)"
    using assms by simp
  then have "\<bar>trunc x\<bar> < 2 ^ 63" by (simp only: of_int_less_iff)
  then show "dbl_to_int64 x = Some (trunc x)"
    by (auto simp: dbl_to_int64_def chk64_def abs_less_iff)
qed

lemma trunc_of_int [simp]: "trunc (of_int i) = i"
  by (simp add: trunc_def)

lemma trunc_numeral [simp]: "trunc (numeral n) = numeral n" "trunc (- numeral n) = - numeral n"
  using trunc_of_int [of "numeral n"] trunc_of_int [of "- numeral n"] by simp_all

lemma dbl_of_int_abs_le: "\<bar>dbl_of_int i\<bar> \<le> 2 * \<bar>of_int i\<bar>"
  by (simp add: dbl_of_int_def dbl_round_abs_le)

lemma dbl_mult_abs_le: "\<bar>x\<bar> \<le> a \<Longrightarrow> \<bar>y\<bar> \<le> b \<Longrightarrow> \<bar>dbl_mult x y\<bar> \<le> 2 * (a * b)"
proof -
  assume "\<bar>x\<bar> \<le> a" "\<bar>y\<bar> \<le> b"
  then have "\<bar>x * y\<bar> \<le> a * b" unfolding abs_mult by (intro mult_mono) auto
  then show ?thesis using dbl_round_abs_le [of "x * y"] by (simp add: dbl_mult_def)
qed

lemma dbl_divide_abs_le:
  assumes "1 \<le> n" "n < 2 ^ 53"
  obtains q where "dbl_divide x (dbl_of_int n) = Some q" "\<bar>q\<bar> \<le> 2 * \<bar>x\<bar>"
proof
  have n: "dbl_of_int n = of_int n" using assms by (intro dbl_of_int_exact) simp
  show "dbl_divide x (dbl_of_int n) = Some (dbl_round (x / of_int n))"
    using assms(1) by (simp add: dbl_divide_def n)
  have "\<bar>x / of_int n\<bar> \<le> \<bar>x\<bar>" using assms(1) by (simp add: divide_le_eq mult_le_cancel_left1)
  then show "\<bar>dbl_round (x / of_int n)\<bar> \<le> 2 * \<bar>x\<bar>"
    using dbl_round_abs_le [of "x / of_int n"] by linarith
qed

section \<open>Evaluation\<close>

lemma dexp_unique:
  assumes "2 powi e \<le> \<bar>x\<bar>" "\<bar>x\<bar> < 2 powi (e + 1)"
  shows "dexp x = e"
proof -
  have x: "x \<noteq> 0" using assms(1) by (metis abs_zero not_less zero_less_power_int zero_less_numeral)
  have "(2::rat) powi e < 2 powi (dexp x + 1)" "(2::rat) powi dexp x < 2 powi (e + 1)"
    using assms dexp_bounds [OF x] by linarith+
  then have "e < dexp x + 1" "dexp x < e + 1"
    by (metis not_le power_int_increasing one_le_numeral)+
  then show ?thesis by simp
qed

lemma round_half_even_unique: "\<bar>q - of_int m\<bar> < 1 / 2 \<Longrightarrow> round_half_even q = m"
proof -
  assume q: "\<bar>q - of_int m\<bar> < 1 / 2"
  have "\<bar>of_int (round_half_even q) - of_int m\<bar> < (1::rat)"
    using round_half_even_error [of q] q by linarith
  then have "of_int \<bar>round_half_even q - m\<bar> < (of_int 1 :: rat)" by simp
  then show ?thesis by (simp only: of_int_less_iff)
qed

text \<open>The value of a rounding, given its exponent and significand.\<close>

lemma dbl_roundI:
  assumes "2 powi e \<le> \<bar>x\<bar>" "\<bar>x\<bar> < 2 powi (e + 1)" "\<bar>x * 2 powi (52 - e) - of_int m\<bar> < 1 / 2"
  shows "dbl_round x = of_int m * 2 powi (e - 52)"
proof -
  have "x \<noteq> 0" using assms(1) by (metis abs_zero not_less zero_less_power_int zero_less_numeral)
  then show ?thesis
    by (simp add: dbl_round_def dexp_unique [OF assms(1,2)] round_half_even_unique [OF assms(3)])
qed

end
