(* ===== verification/PowerHintSession.thy ===== *)
theory PowerHintSession
  imports Doubles
begin

text \<open>
  One hint session of the power HAL, \<open>src/aidl/power-libperfmgr/PowerHintSession.cpp\<close>: the
  tunables read from system properties, the clamping of the scheduler attribute, pause, resume
  and close, the PID controller of \<open>reportActualWorkDuration\<close>, and the stale timer.
  An operation returns its status, the new session and the calls it makes on the rest of the
  process, in order. An operation whose C++ expressions can overflow, divide by zero or cast a
  \<open>double\<close> out of range returns \<open>None\<close> there. Times are nanoseconds of the steady clock and are
  not bounded. The trace output under \<open>ATRACE_ENABLED()\<close> is left out.
\<close>

section \<open>Tunables\<close>

text \<open>
  The values of the system properties, with the types the code reads them at. A floating point
  property is \<open>None\<close> when it is not set or does not parse.
\<close>

record adpf_properties =
  prop_pid_p_over :: "rat option"
  prop_pid_p_under :: "rat option"
  prop_pid_i :: "rat option"
  prop_pid_d_over :: "rat option"
  prop_pid_d_under :: "rat option"
  prop_pid_i_init :: int
  prop_pid_i_high_limit :: int
  prop_pid_i_low_limit :: int
  prop_uclamp_min_high_limit :: u32
  prop_uclamp_min_low_limit :: u32
  prop_uclamp_min_granularity :: u32
  prop_stale_timeout_factor :: u32
  prop_p_window :: u32
  prop_i_window :: u32
  prop_d_window :: u32
  prop_uclamp :: bool

record adpf_statics =
  sPidPOver :: rat
  sPidPUnder :: rat
  sPidI :: rat
  sPidDOver :: rat
  sPidDUnder :: rat
  sPidIInit :: int
  sPidIHighLimit :: int
  sPidILowLimit :: int
  sUclampMinHighLimit :: int
  sUclampMinLowLimit :: int
  sUclampMinGranularity :: u32
  sStaleTimeFactor :: int
  sPSamplingWindow :: int
  sISamplingWindow :: int
  sDSamplingWindow :: int
  kPowerHalAdpfUclamp :: bool

definition getDoubleProperty :: "rat option \<Rightarrow> rat \<Rightarrow> rat" where
  "getDoubleProperty parsed value = (case parsed of Some v \<Rightarrow> v | None \<Rightarrow> value)"

definition adpf_defaults :: adpf_properties where
  "adpf_defaults =
     \<lparr>prop_pid_p_over = None, prop_pid_p_under = None, prop_pid_i = None,
      prop_pid_d_over = None, prop_pid_d_under = None, prop_pid_i_init = 200,
      prop_pid_i_high_limit = 512, prop_pid_i_low_limit = - 30,
      prop_uclamp_min_high_limit = 384, prop_uclamp_min_low_limit = 2,
      prop_uclamp_min_granularity = 5, prop_stale_timeout_factor = 20,
      prop_p_window = 1, prop_i_window = 0, prop_d_window = 1, prop_uclamp = True\<rparr>"

definition pid_i_scaled :: "rat \<Rightarrow> int \<Rightarrow> int option" where
  "pid_i_scaled i v =
     (if i = 0 then Some 0 else do { q \<leftarrow> dbl_divide (dbl_of_int v) i; dbl_to_int64 q })"

definition adpf_statics_init :: "adpf_properties \<Rightarrow> adpf_statics option" where
  "adpf_statics_init p = do {
     let pid_i = getDoubleProperty (prop_pid_i p) (dbl_round (1 / 1000));
     i_init \<leftarrow> pid_i_scaled pid_i (prop_pid_i_init p);
     i_high \<leftarrow> pid_i_scaled pid_i (prop_pid_i_high_limit p);
     i_low \<leftarrow> pid_i_scaled pid_i (prop_pid_i_low_limit p);
     Some \<lparr>sPidPOver = getDoubleProperty (prop_pid_p_over p) 2,
       sPidPUnder = getDoubleProperty (prop_pid_p_under p) 1, sPidI = pid_i,
       sPidDOver = getDoubleProperty (prop_pid_d_over p) 500,
       sPidDUnder = getDoubleProperty (prop_pid_d_under p) 0,
       sPidIInit = i_init, sPidIHighLimit = i_high, sPidILowLimit = i_low,
       sUclampMinHighLimit = sint (prop_uclamp_min_high_limit p),
       sUclampMinLowLimit = sint (prop_uclamp_min_low_limit p),
       sUclampMinGranularity = prop_uclamp_min_granularity p,
       sStaleTimeFactor = uint (prop_stale_timeout_factor p),
       sPSamplingWindow = uint (prop_p_window p), sISamplingWindow = uint (prop_i_window p),
       sDSamplingWindow = uint (prop_d_window p), kPowerHalAdpfUclamp = prop_uclamp p\<rparr> }"

section \<open>State and effects\<close>

record sched_attr =
  attr_size :: u32
  sched_policy :: u32
  sched_flags :: u64
  sched_nice :: u32
  sched_priority :: u32
  sched_runtime :: u64
  sched_deadline :: u64
  sched_period :: u64
  sched_util_min :: u32
  sched_util_max :: u32

record AppHintDesc =
  tgid :: int
  uid :: int
  threadIds :: "int list"
  duration :: int
  current_min :: int
  is_active :: bool
  update_count :: u64
  integral_error :: int
  previous_error :: int

record StaleHandler =
  mIsMonitoringStale :: bool
  mLastUpdatedTime :: int

record PowerHintSession =
  mDescriptor :: AppHintDesc
  mStaleHandler :: StaleHandler
  kAdpfRate :: int
  mSessionClosed :: bool

text \<open>
  The calls a session makes on its surroundings: the system call, messages to the session manager
  and to its own stale handler (with the delay) in the monitor's looper, and its registration.
\<close>

datatype session_effect =
    SchedSetattr int sched_attr
  | SendManagerMessage
  | SendStaleMessage int
  | RemoveStaleMessages
  | AddPowerSession
  | RemovePowerSession

type_synonym session_result = "ScopedAStatus \<times> PowerHintSession \<times> session_effect list"

definition kMaxUclampValue :: int where
  "kMaxUclampValue = 1024"

definition AppHintDesc_new :: "int \<Rightarrow> int \<Rightarrow> int list \<Rightarrow> AppHintDesc" where
  "AppHintDesc_new tgid0 uid0 tids =
     \<lparr>tgid = tgid0, uid = uid0, threadIds = tids, duration = 0, current_min = 0, is_active = True,
      update_count = 0, integral_error = 0, previous_error = 0\<rparr>"

definition upd_desc :: "(AppHintDesc \<Rightarrow> AppHintDesc) \<Rightarrow> PowerHintSession \<Rightarrow> PowerHintSession" where
  "upd_desc f s = s\<lparr>mDescriptor := f (mDescriptor s)\<rparr>"

section \<open>Operations\<close>

definition sched_setattr :: "adpf_statics \<Rightarrow> int \<Rightarrow> sched_attr \<Rightarrow> session_effect list" where
  "sched_setattr st pid attr = (if \<not> kPowerHalAdpfUclamp st then [] else [SchedSetattr pid attr])"

definition ns_to_100us :: "int \<Rightarrow> int" where
  "ns_to_100us ns = ns sdiv 100000"

text \<open>\<open>SCHED_FLAG_KEEP_ALL | SCHED_FLAG_UTIL_CLAMP\<close> is \<open>0x18 | 0x60\<close> in the kernel's header.\<close>

definition uclamp_attr :: "int \<Rightarrow> int \<Rightarrow> sched_attr" where
  "uclamp_attr mn mx =
     \<lparr>attr_size = 56, sched_policy = 0, sched_flags = 0x18 OR 0x60, sched_nice = 0,
      sched_priority = 0, sched_runtime = 0, sched_deadline = 0, sched_period = 0,
      sched_util_min = word_of_int mn, sched_util_max = word_of_int mx\<rparr>"

definition setUclamp ::
  "adpf_statics \<Rightarrow> int \<Rightarrow> int \<Rightarrow> PowerHintSession \<Rightarrow> PowerHintSession \<times> session_effect list" where
  "setUclamp st mn mx s =
     (let mn = max 0 mn;
          mn = min mn mx;
          mx = max 0 mx;
          mx = max mn mx;
          effs = concat (map (\<lambda>tid. sched_setattr st tid (uclamp_attr mn mx))
                             (threadIds (mDescriptor s)))
      in (upd_desc (\<lambda>d. d\<lparr>current_min := mn\<rparr>) s, effs))"

text \<open>\<open>updateUniveralBoostMode\<close> posts a message to the session manager.\<close>

text \<open>The identity of a session in the trace, and the printed descriptor; \<open>this\<close> is the address of the object.\<close>

definition getIdString :: "u64 \<Rightarrow> PowerHintSession \<Rightarrow> string" where
  "getIdString this s = show_int (tgid (mDescriptor s)) @ ''-'' @ show_int (uid (mDescriptor s)) @ ''-''
     @ show_base 16 (unat (this AND 0xFFFF))"

fun print_tids :: "bool \<Rightarrow> int list \<Rightarrow> string" where
  "print_tids first [] = []"
| "print_tids first (tid # tids) = (if \<not> first then '', '' else []) @ show_int tid @ print_tids False tids"

definition AppHintDesc_toString :: "u64 \<Rightarrow> AppHintDesc \<Rightarrow> string" where
  "AppHintDesc_toString this d =
     ''session '' @ show_base 16 (unat (this AND 0xFFFF)) @ [CHR 0x0A]
     @ ''  duration: '' @ show_int (duration d) @ '' ns'' @ [CHR 0x0A]
     @ ''  uclamp.min: '' @ show_int (current_min d) @ '' '' @ [CHR 0x0A]
     @ ''  uid: '' @ show_int (uid d) @ '', tgid: '' @ show_int (tgid d) @ [CHR 0x0A]
     @ ''  threadIds: ['' @ print_tids True (threadIds d) @ '']'' @ [CHR 0x0A]"

definition updateUniveralBoostMode :: "session_effect list" where
  "updateUniveralBoostMode = [SendManagerMessage]"

definition PowerHintSession_new ::
  "adpf_statics \<Rightarrow> int \<Rightarrow> int \<Rightarrow> int list \<Rightarrow> int \<Rightarrow> int \<Rightarrow> int \<Rightarrow> PowerHintSession \<times> session_effect list"
where
  "PowerHintSession_new st tgid0 uid0 tids durationNanos adpfRate now =
     (let s = \<lparr>mDescriptor = (AppHintDesc_new tgid0 uid0 tids)\<lparr>duration := durationNanos\<rparr>,
               mStaleHandler = \<lparr>mIsMonitoringStale = False, mLastUpdatedTime = now\<rparr>,
               kAdpfRate = adpfRate, mSessionClosed = False\<rparr>;
          (s, effs) = setUclamp st (sUclampMinHighLimit st) kMaxUclampValue s
      in (s, AddPowerSession # effs))"

definition pause :: "adpf_statics \<Rightarrow> PowerHintSession \<Rightarrow> session_result" where
  "pause st s =
     (if \<not> is_active (mDescriptor s) then (fromExceptionCode EX_ILLEGAL_STATE, s, [])
      else let (s, effs) = setUclamp st 0 kMaxUclampValue s;
               s = upd_desc (\<lambda>d. d\<lparr>is_active := False\<rparr>) s
           in (status_ok, s, effs @ updateUniveralBoostMode))"

definition resume :: "adpf_statics \<Rightarrow> PowerHintSession \<Rightarrow> session_result" where
  "resume st s =
     (if is_active (mDescriptor s) then (fromExceptionCode EX_ILLEGAL_STATE, s, [])
      else let s = upd_desc (\<lambda>d. d\<lparr>is_active := True,
                       integral_error := max (sPidIInit st) (integral_error d)\<rparr>) s;
               (s, effs) = setUclamp st (sUclampMinHighLimit st) kMaxUclampValue s
           in (status_ok, s, effs @ updateUniveralBoostMode))"

definition close_session :: "adpf_statics \<Rightarrow> PowerHintSession \<Rightarrow> session_result" where
  "close_session st s =
     (if mSessionClosed s then (fromExceptionCode EX_ILLEGAL_STATE, s, [])
      else let s = s\<lparr>mSessionClosed := True\<rparr>;
               (s, effs) = setUclamp st 0 kMaxUclampValue s
           in (status_ok, s,
               [RemoveStaleMessages] @ effs @ [RemovePowerSession] @ updateUniveralBoostMode))"

text \<open>The quotient of the durations is an integer division; only its result is made a \<open>double\<close>.\<close>

definition updateTargetWorkDuration ::
  "adpf_statics \<Rightarrow> int \<Rightarrow> PowerHintSession \<Rightarrow> session_result option" where
  "updateTargetWorkDuration st targetDurationNanos s =
     (if targetDurationNanos \<le> 0 then Some (fromExceptionCode EX_ILLEGAL_ARGUMENT, s, [])
      else do {
        let ratio = (if targetDurationNanos = 0 then 1
                     else dbl_of_int (duration (mDescriptor s) sdiv targetDurationNanos));
        e \<leftarrow> dbl_to_int64 (dbl_mult (dbl_of_int (integral_error (mDescriptor s))) ratio);
        Some (status_ok,
              upd_desc (\<lambda>d. d\<lparr>integral_error := max (sPidIInit st) e,
                              duration := targetDurationNanos\<rparr>) s, []) })"

section \<open>Stale timer\<close>

definition getStaleTime :: "adpf_statics \<Rightarrow> PowerHintSession \<Rightarrow> int" where
  "getStaleTime st s =
     mLastUpdatedTime (mStaleHandler s) + (kAdpfRate s sdiv 1000000) * sStaleTimeFactor st * 1000000"

definition isActive :: "PowerHintSession \<Rightarrow> bool" where
  "isActive s = is_active (mDescriptor s)"

definition isStale :: "adpf_statics \<Rightarrow> int \<Rightarrow> PowerHintSession \<Rightarrow> bool" where
  "isStale st now s = (now \<ge> getStaleTime st s)"

definition getTidList :: "PowerHintSession \<Rightarrow> int list" where
  "getTidList s = threadIds (mDescriptor s)"

definition setStale :: "adpf_statics \<Rightarrow> PowerHintSession \<Rightarrow> PowerHintSession \<times> session_effect list" where
  "setStale st s =
     (let (s, effs) = setUclamp st 0 kMaxUclampValue s in (s, effs @ updateUniveralBoostMode))"

definition updateStaleTimer ::
  "adpf_statics \<Rightarrow> bool \<Rightarrow> int \<Rightarrow> PowerHintSession \<Rightarrow> PowerHintSession \<times> session_effect list" where
  "updateStaleTimer st running now s =
     (if \<not> running then (s, [])
      else let when = getStaleTime st s;
               s = s\<lparr>mStaleHandler := (mStaleHandler s)\<lparr>mLastUpdatedTime := now\<rparr>\<rparr>;
               effs = (if now > when then updateUniveralBoostMode else [])
           in if \<not> mIsMonitoringStale (mStaleHandler s)
              then (s\<lparr>mStaleHandler := (mStaleHandler s)\<lparr>mIsMonitoringStale := True\<rparr>\<rparr>,
                    effs @ [SendStaleMessage (getStaleTime st s - now)])
              else (s, effs))"

definition StaleHandler_handleMessage ::
  "adpf_statics \<Rightarrow> int \<Rightarrow> PowerHintSession \<Rightarrow> PowerHintSession \<times> session_effect list" where
  "StaleHandler_handleMessage st now s =
     (let when = getStaleTime st s in
      if now > when
      then let (s, effs) = setStale st s
           in (s\<lparr>mStaleHandler := (mStaleHandler s)\<lparr>mIsMonitoringStale := False\<rparr>\<rparr>, effs)
      else (s, [SendStaleMessage (when - now)]))"

section \<open>The PID controller\<close>

text \<open>What the loop over the samples carries.\<close>

record pid_acc =
  acc_integral :: int
  acc_previous :: int
  acc_err_sum :: int
  acc_derivative_sum :: int

definition window_start :: "int \<Rightarrow> int \<Rightarrow> int" where
  "window_start window len = (if window = 0 \<or> window > len then 0 else len - window)"

definition pid_body ::
  "adpf_statics \<Rightarrow> int \<Rightarrow> int \<Rightarrow> int \<Rightarrow> int \<Rightarrow> int \<Rightarrow> int \<Rightarrow> int \<Rightarrow> pid_acc \<Rightarrow> pid_acc option"
where
  "pid_body st target dt p_start i_start d_start i actual a = do {
     chk64 \<bar>actual\<bar>;
     chk64 (target * 20);
     diff \<leftarrow> chk64 (actual - target);
     let error = ns_to_100us diff;
     a \<leftarrow> (if i \<ge> d_start
           then do { e \<leftarrow> chk64 (error - acc_previous a);
                     d \<leftarrow> chk64 (acc_derivative_sum a + e);
                     Some (a\<lparr>acc_derivative_sum := d\<rparr>) }
           else Some a);
     a \<leftarrow> (if i \<ge> p_start
           then do { e \<leftarrow> chk64 (acc_err_sum a + error); Some (a\<lparr>acc_err_sum := e\<rparr>) }
           else Some a);
     a \<leftarrow> (if i \<ge> i_start
           then do { m \<leftarrow> chk64 (error * dt);
                     e \<leftarrow> chk64 (acc_integral a + m);
                     let e = min (sPidIHighLimit st) e;
                     let e = max (sPidILowLimit st) e;
                     Some (a\<lparr>acc_integral := e\<rparr>) }
           else Some a);
     Some (a\<lparr>acc_previous := error\<rparr>) }"

fun pid_loop ::
  "adpf_statics \<Rightarrow> int \<Rightarrow> int \<Rightarrow> int \<Rightarrow> int \<Rightarrow> int \<Rightarrow> int \<Rightarrow> int list \<Rightarrow> pid_acc \<Rightarrow> pid_acc option"
where
  "pid_loop st target dt p_start i_start d_start i [] a = Some a"
| "pid_loop st target dt p_start i_start d_start i (actual # actuals) a = do {
     a \<leftarrow> pid_body st target dt p_start i_start d_start i actual a;
     pid_loop st target dt p_start i_start d_start (i + 1) actuals a }"

definition pid_gain :: "rat \<Rightarrow> rat \<Rightarrow> int \<Rightarrow> rat" where
  "pid_gain gOver gUnder x = dbl_mult (if x > 0 then gOver else gUnder) (dbl_of_int x)"

definition pid_output ::
  "adpf_statics \<Rightarrow> int \<Rightarrow> int \<Rightarrow> int \<Rightarrow> int \<Rightarrow> pid_acc \<Rightarrow> int option" where
  "pid_output st dt len p_start d_start a = do {
     p \<leftarrow> dbl_divide (pid_gain (sPidPOver st) (sPidPUnder st) (acc_err_sum a))
            (dbl_of_int (len - p_start));
     pOut \<leftarrow> dbl_to_int64 p;
     iOut \<leftarrow> dbl_to_int64 (dbl_mult (sPidI st) (dbl_of_int (acc_integral a)));
     d \<leftarrow> dbl_divide (pid_gain (sPidDOver st) (sPidDUnder st) (acc_derivative_sum a)) (dbl_of_int dt);
     d \<leftarrow> dbl_divide d (dbl_of_int (len - d_start));
     dOut \<leftarrow> dbl_to_int64 d;
     piOut \<leftarrow> chk64 (pOut + iOut);
     chk64 (piOut + dOut) }"

text \<open>
  The difference is an \<open>int\<close>; its absolute value is compared as an unsigned number because the
  granularity is unsigned.
\<close>

definition applyOutput ::
  "adpf_statics \<Rightarrow> int \<Rightarrow> PowerHintSession \<Rightarrow> (PowerHintSession \<times> session_effect list) option" where
  "applyOutput st outp s =
     (if outp \<noteq> 0
      then do {
        let next_min = min (sUclampMinHighLimit st) (to_int32 outp);
        let next_min = max (sUclampMinLowLimit st) next_min;
        diff \<leftarrow> chk32 (current_min (mDescriptor s) - next_min);
        diff \<leftarrow> chk32 \<bar>diff\<bar>;
        if (word_of_int diff :: u32) > sUclampMinGranularity st
        then Some (setUclamp st next_min kMaxUclampValue s)
        else Some (s, []) }
      else Some (s, []))"

text \<open>The part of \<open>reportActualWorkDuration\<close> between the checks and the stale timer.\<close>

definition report_pid :: "adpf_statics \<Rightarrow> int list \<Rightarrow> PowerHintSession \<Rightarrow> (PowerHintSession \<times> int) option" where
  "report_pid st actualDurations s = do {
     let target = duration (mDescriptor s);
     let len = int (length actualDurations);
     let p_start = window_start (sPSamplingWindow st) len;
     let i_start = window_start (sISamplingWindow st) len;
     let d_start = window_start (sDSamplingWindow st) len;
     let dt = ns_to_100us target;
     let i = min p_start (min i_start d_start);
     a \<leftarrow> pid_loop st target dt p_start i_start d_start i (drop (nat i) actualDurations)
            \<lparr>acc_integral = integral_error (mDescriptor s),
             acc_previous = previous_error (mDescriptor s),
             acc_err_sum = 0, acc_derivative_sum = 0\<rparr>;
     outp \<leftarrow> pid_output st dt len p_start d_start a;
     Some (upd_desc (\<lambda>d. d\<lparr>integral_error := acc_integral a, previous_error := acc_previous a,
                            update_count := update_count d + 1\<rparr>) s, outp) }"

text \<open>
  \<open>running\<close> is \<open>PowerHintMonitor::isRunning()\<close>; the clock reads \<open>now1\<close> in the staleness
  check and \<open>now2\<close> in the update of the stale timer.
\<close>

definition reportActualWorkDuration ::
  "adpf_statics \<Rightarrow> bool \<Rightarrow> int \<Rightarrow> int \<Rightarrow> int list \<Rightarrow> PowerHintSession \<Rightarrow> session_result option" where
  "reportActualWorkDuration st running now1 now2 actualDurations s =
     (if duration (mDescriptor s) = 0 then Some (fromExceptionCode EX_ILLEGAL_STATE, s, [])
      else if length actualDurations = 0 then Some (fromExceptionCode EX_ILLEGAL_ARGUMENT, s, [])
      else if \<not> is_active (mDescriptor s) then Some (fromExceptionCode EX_ILLEGAL_STATE, s, [])
      else do {
        let s = (if running \<and> isStale st now1 s
                 then upd_desc (\<lambda>d. d\<lparr>integral_error := max (sPidIInit st) (integral_error d)\<rparr>) s
                 else s);
        (s, outp) \<leftarrow> report_pid st actualDurations s;
        let (s, effs1) = updateStaleTimer st running now2 s;
        (s, effs2) \<leftarrow> applyOutput st outp s;
        Some (status_ok, s, effs1 @ effs2) })"

section \<open>Specifications and example states\<close>

text \<open>What holds of a session at all times, and of every scheduler attribute it hands out.\<close>

definition session_ok :: "PowerHintSession \<Rightarrow> bool" where
  "session_ok s \<longleftrightarrow> 0 \<le> current_min (mDescriptor s) \<and> current_min (mDescriptor s) \<le> kMaxUclampValue"

primrec effect_ok :: "session_effect \<Rightarrow> bool" where
  "effect_ok (SchedSetattr tid a) =
     (sched_util_min a \<le> sched_util_max a \<and> sched_util_max a = 1024)"
| "effect_ok SendManagerMessage = True"
| "effect_ok (SendStaleMessage d) = True"
| "effect_ok RemoveStaleMessages = True"
| "effect_ok AddPowerSession = True"
| "effect_ok RemovePowerSession = True"

text \<open>The error of each sample against the target, and the clamped integral of a list of errors.\<close>

definition sample_errors :: "int \<Rightarrow> int list \<Rightarrow> int list" where
  "sample_errors target = map (\<lambda>actual. ns_to_100us (actual - target))"

definition clamped_integral :: "adpf_statics \<Rightarrow> int \<Rightarrow> int \<Rightarrow> int list \<Rightarrow> int" where
  "clamped_integral st dt =
     foldl (\<lambda>e err. max (sPidILowLimit st) (min (sPidIHighLimit st) (e + err * dt)))"

text \<open>
  The level that the controller's outputut asks for: the output clamped to the limits, taken over
  only when it differs from the current level by more than the granularity.
\<close>

definition next_uclamp :: "adpf_statics \<Rightarrow> int \<Rightarrow> int \<Rightarrow> int" where
  "next_uclamp st outp cur =
     (let n = max (sUclampMinLowLimit st) (min (sUclampMinHighLimit st) (to_int32 outp)) in
      if outp \<noteq> 0 \<and> \<bar>cur - n\<bar> > uint (sUclampMinGranularity st) then min (max 0 n) 1024 else cur)"

definition default_statics :: adpf_statics where
  "default_statics =
     \<lparr>sPidPOver = 2, sPidPUnder = 1, sPidI = dbl_round (1 / 1000), sPidDOver = 500, sPidDUnder = 0,
      sPidIInit = 200000, sPidIHighLimit = 512000, sPidILowLimit = - 30000,
      sUclampMinHighLimit = 384, sUclampMinLowLimit = 2, sUclampMinGranularity = 5,
      sStaleTimeFactor = 20, sPSamplingWindow = 1, sISamplingWindow = 0, sDSamplingWindow = 1,
      kPowerHalAdpfUclamp = True\<rparr>"

abbreviation example_session :: PowerHintSession where
  "example_session \<equiv> fst (PowerHintSession_new default_statics 10 20 [30, 31] 16666666 16666666 0)"

text \<open>
  Tunables and states of ordinary size: gains up to 1000, integral limits up to \<open>10^12\<close>, scheduler
  limits up to 1024, targets between 100 microseconds and 1000 seconds.
\<close>

definition sane_statics :: "adpf_statics \<Rightarrow> bool" where
  "sane_statics st \<longleftrightarrow>
     \<bar>sPidPOver st\<bar> \<le> 1000 \<and> \<bar>sPidPUnder st\<bar> \<le> 1000 \<and> \<bar>sPidI st\<bar> \<le> 1000 \<and>
     \<bar>sPidDOver st\<bar> \<le> 1000 \<and> \<bar>sPidDUnder st\<bar> \<le> 1000 \<and>
     - (10 ^ 12) \<le> sPidILowLimit st \<and> sPidILowLimit st \<le> sPidIHighLimit st \<and>
     sPidIHighLimit st \<le> 10 ^ 12 \<and> \<bar>sPidIInit st\<bar> \<le> 10 ^ 12 \<and>
     0 \<le> sPSamplingWindow st \<and> 0 \<le> sISamplingWindow st \<and> 0 \<le> sDSamplingWindow st \<and>
     0 \<le> sUclampMinLowLimit st \<and> sUclampMinLowLimit st \<le> sUclampMinHighLimit st \<and>
     sUclampMinHighLimit st \<le> 1024"

definition sane_session :: "PowerHintSession \<Rightarrow> bool" where
  "sane_session s \<longleftrightarrow> session_ok s \<and>
     100000 \<le> duration (mDescriptor s) \<and> duration (mDescriptor s) \<le> 10 ^ 12 \<and>
     \<bar>integral_error (mDescriptor s)\<bar> \<le> 10 ^ 12 \<and> \<bar>previous_error (mDescriptor s)\<bar> \<le> 10 ^ 8"

definition sane_samples :: "int list \<Rightarrow> bool" where
  "sane_samples ds \<longleftrightarrow> length ds \<le> 10 ^ 6 \<and> (\<forall>d \<in> set ds. \<bar>d\<bar> \<le> 10 ^ 12)"

text \<open>The bounds on the accumulator after \<open>k\<close> iterations.\<close>

definition acc_bounded :: "int \<Rightarrow> pid_acc \<Rightarrow> bool" where
  "acc_bounded k a \<longleftrightarrow> \<bar>acc_integral a\<bar> \<le> 10 ^ 12 \<and> \<bar>acc_previous a\<bar> \<le> 10 ^ 8 \<and>
     \<bar>acc_err_sum a\<bar> \<le> k * 10 ^ 8 \<and> \<bar>acc_derivative_sum a\<bar> \<le> k * (2 * 10 ^ 8)"

section \<open>Clamping\<close>

lemmas session_op_defs = pause_def resume_def close_session_def updateTargetWorkDuration_def
  setStale_def updateStaleTimer_def StaleHandler_handleMessage_def PowerHintSession_new_def
  updateUniveralBoostMode_def

text \<open>Sessions with the same string in the trace have the same owner and addresses that agree in the low 16 bits.\<close>

lemma getIdString_eq_iff:
  "getIdString p s = getIdString q t \<longleftrightarrow>
     tgid (mDescriptor s) = tgid (mDescriptor t) \<and> uid (mDescriptor s) = uid (mDescriptor t)
     \<and> p AND 0xFFFF = q AND 0xFFFF"
  by (auto simp: getIdString_def show_int_sep word_unat_eq_iff dest: show_base_inj [rotated 2])

lemma upd_desc_simps [simp]:
  "mDescriptor (upd_desc f s) = f (mDescriptor s)"
  "mStaleHandler (upd_desc f s) = mStaleHandler s"
  "kAdpfRate (upd_desc f s) = kAdpfRate s"
  "mSessionClosed (upd_desc f s) = mSessionClosed s"
  by (simp_all add: upd_desc_def)

lemma setUclamp_session:
  "fst (setUclamp st mn kMaxUclampValue s) = upd_desc (\<lambda>d. d\<lparr>current_min := min (max 0 mn) 1024\<rparr>) s"
  by (simp add: setUclamp_def kMaxUclampValue_def Let_def)

lemma setUclamp_effects:
  "snd (setUclamp st mn kMaxUclampValue s) =
     (if kPowerHalAdpfUclamp st
      then map (\<lambda>tid. SchedSetattr tid (uclamp_attr (min (max 0 mn) 1024) 1024)) (threadIds (mDescriptor s))
      else [])"
  by (simp add: setUclamp_def kMaxUclampValue_def sched_setattr_def Let_def max_def min_def)

lemma effect_ok_uclamp: "0 \<le> mn \<Longrightarrow> mn \<le> 1024 \<Longrightarrow> effect_ok (SchedSetattr tid (uclamp_attr mn 1024))"
  by (simp add: uclamp_attr_def word_le_def uint_word_of_int)

lemma setUclamp_session_ok: "session_ok (fst (setUclamp st mn kMaxUclampValue s))"
  by (simp add: setUclamp_session session_ok_def) (simp add: kMaxUclampValue_def)

lemma setUclamp_effects_ok: "list_all effect_ok (snd (setUclamp st mn kMaxUclampValue s))"
  by (auto simp: setUclamp_effects list_all_iff intro!: effect_ok_uclamp simp del: effect_ok.simps)

lemma session_ok_cong: "current_min (mDescriptor s) = current_min (mDescriptor t) \<Longrightarrow> session_ok s = session_ok t"
  by (simp add: session_ok_def)

section \<open>The PID loop\<close>

text \<open>One iteration, when nothing overflows.\<close>

lemma pid_body_SomeD:
  assumes "pid_body st target dt p_start i_start d_start i actual a = Some a'"
  defines "err \<equiv> ns_to_100us (actual - target)"
  shows "a' = \<lparr>acc_integral = (if i \<ge> i_start then clamped_integral st dt (acc_integral a) [err]
                            else acc_integral a),
              acc_previous = err,
              acc_err_sum = acc_err_sum a + (if i \<ge> p_start then err else 0),
              acc_derivative_sum = acc_derivative_sum a
                + (if i \<ge> d_start then err - acc_previous a else 0)\<rparr>"
  using assms(1) unfolding err_def pid_body_def Let_def clamped_integral_def
  by (cases "i \<ge> d_start"; cases "i \<ge> p_start"; cases "i \<ge> i_start")
    (simp_all only: if_True if_False bind_eq_Some_conv chk64_Some_iff, auto)

lemma pid_loop_SomeD:
  assumes "pid_loop st target dt p_start i_start d_start i actuals a = Some a'"
    and "d_start - i \<le> int (length actuals)"
  defines "errs \<equiv> sample_errors target actuals"
  shows "acc_previous a' = last (acc_previous a # errs)
    \<and> acc_err_sum a' = acc_err_sum a + sum_list (drop (nat (p_start - i)) errs)
    \<and> acc_derivative_sum a' = acc_derivative_sum a + last (acc_previous a # errs)
          - (acc_previous a # errs) ! nat (d_start - i)
    \<and> acc_integral a' = clamped_integral st dt (acc_integral a) (drop (nat (i_start - i)) errs)"
  using assms(1,2) unfolding errs_def
proof (induction actuals arbitrary: i a)
  case Nil
  then show ?case by (simp add: sample_errors_def clamped_integral_def)
next
  case (Cons actual actuals)
  then obtain b where b: "pid_body st target dt p_start i_start d_start i actual a = Some b"
    and rest: "pid_loop st target dt p_start i_start d_start (i + 1) actuals b = Some a'"
    by (auto simp: bind_eq_Some_conv)
  let ?err = "ns_to_100us (actual - target)"
  have errs: "sample_errors target (actual # actuals) = ?err # sample_errors target actuals"
    by (simp add: sample_errors_def)
  note ih = Cons.IH [OF rest]
  have d: "d_start - (i + 1) \<le> int (length actuals)" using Cons.prems(2) by simp
  have sub: "nat (k - i) = 0 \<and> nat (k - (i + 1)) = 0 \<and> k \<le> i
      \<or> nat (k - i) = Suc (nat (k - (i + 1))) \<and> \<not> k \<le> i" for k
    by (cases "k \<le> i") (simp_all add: Suc_nat_eq_nat_zadd1)
  note body = pid_body_SomeD [OF b]
  show ?case
    using ih [OF d] sub [of p_start] sub [of d_start] sub [of i_start]
    unfolding errs by (elim disjE conjE; simp add: body clamped_integral_def)
qed

lemma window_start_bounds:
  assumes "0 \<le> w" "0 < len"
  shows "0 \<le> window_start w len" "window_start w len < len"
  using assms by (auto simp: window_start_def)

lemma clamped_integral_bounds:
  assumes "sPidILowLimit st \<le> sPidIHighLimit st" "xs \<noteq> []"
  shows "sPidILowLimit st \<le> clamped_integral st dt e xs \<and> clamped_integral st dt e xs \<le> sPidIHighLimit st"
  using assms(2)
proof (induction xs rule: rev_induct)
  case (snoc x xs)
  then show ?case using assms(1) by (simp add: clamped_integral_def)
qed simp

section \<open>The default tunables\<close>

lemma sPidI_default: "dbl_round (1 / 1000) = 1152921504606847 / 1152921504606846976"
  using dbl_roundI [of "- 10" "1 / 1000" 4611686018427388] by (simp add: power_int_minus)

lemma pid_i_scaled_default:
  "pid_i_scaled (dbl_round (1 / 1000)) 200 = Some 200000"
  "pid_i_scaled (dbl_round (1 / 1000)) 512 = Some 512000"
  "pid_i_scaled (dbl_round (1 / 1000)) (- 30) = Some (- 30000)"
  using dbl_roundI [of 17 "200 / (1152921504606847 / 1152921504606846976)" 6871947673600000]
    dbl_roundI [of 18 "512 / (1152921504606847 / 1152921504606846976)" 8796093022208000]
    dbl_roundI [of 14 "- 30 / (1152921504606847 / 1152921504606846976)" "- 8246337208320000"]
  by (simp_all add: pid_i_scaled_def dbl_divide_def dbl_of_int_exact sPidI_default dbl_to_int64_def
      chk64_def power_int_minus)

lemma adpf_statics_init_defaults: "adpf_statics_init adpf_defaults = Some default_statics"
  by (simp add: adpf_statics_init_def adpf_defaults_def getDoubleProperty_def pid_i_scaled_default
      default_statics_def)

section \<open>Bounds that rule out undefined behaviour\<close>

lemma ns_to_100us_abs: "\<bar>ns_to_100us x\<bar> \<le> \<bar>x\<bar> div 100000"
  by (auto simp: ns_to_100us_def signed_divide_int_def sgn_if)

lemma ns_to_100us_bound: "\<bar>x\<bar> \<le> 10 ^ 13 \<Longrightarrow> \<bar>ns_to_100us x\<bar> \<le> 10 ^ 8"
  using ns_to_100us_abs [of x] by (simp add: zdiv_mono1 [of "\<bar>x\<bar>" "10 ^ 13" 100000, THEN order_trans [rotated]])

lemma chk64_small: "\<bar>x\<bar> \<le> 10 ^ 18 \<Longrightarrow> chk64 x = Some x"
  by (simp add: chk64_def abs_le_iff)

lemma pid_body_total:
  assumes st: "sane_statics st" and a: "acc_bounded k a" and k: "0 \<le> k" "k \<le> 10 ^ 6"
    and t: "100000 \<le> target" "target \<le> 10 ^ 12" and x: "\<bar>actual\<bar> \<le> 10 ^ 12"
  shows "\<exists>a'. pid_body st target (ns_to_100us target) p_start i_start d_start i actual a = Some a'
           \<and> acc_bounded (k + 1) a'"
proof -
  let ?e = "ns_to_100us (actual - target)" and ?dt = "ns_to_100us target"
  have e: "\<bar>?e\<bar> \<le> 10 ^ 8"
    by (rule ns_to_100us_bound) (use t x in \<open>simp add: abs_le_iff\<close>)
  have dt: "\<bar>?dt\<bar> \<le> 10 ^ 8"
    by (rule ns_to_100us_bound) (use t in \<open>simp add: abs_le_iff\<close>)
  have "\<bar>?e * ?dt\<bar> \<le> 10 ^ 8 * 10 ^ 8"
    unfolding abs_mult using e dt by (intro mult_mono) auto
  then have edt: "\<bar>?e * ?dt\<bar> \<le> 10 ^ 16" by simp
  have lim: "\<bar>max (sPidILowLimit st) (min (sPidIHighLimit st) y)\<bar> \<le> 10 ^ 12" for y
    using st by (auto simp: sane_statics_def max_def min_def)
  have sums: "\<bar>acc_err_sum a\<bar> \<le> 10 ^ 14" "\<bar>acc_derivative_sum a\<bar> \<le> 2 * 10 ^ 14"
    using a k by (auto simp: acc_bounded_def)
  have c: "chk64 \<bar>actual\<bar> = Some \<bar>actual\<bar>" "chk64 (target * 20) = Some (target * 20)"
    "chk64 (actual - target) = Some (actual - target)"
    "chk64 (?e - acc_previous a) = Some (?e - acc_previous a)"
    "chk64 (acc_derivative_sum a + (?e - acc_previous a)) = Some (acc_derivative_sum a + (?e - acc_previous a))"
    "chk64 (acc_err_sum a + ?e) = Some (acc_err_sum a + ?e)"
    "chk64 (?e * ?dt) = Some (?e * ?dt)"
    "chk64 (acc_integral a + ?e * ?dt) = Some (acc_integral a + ?e * ?dt)"
    using x t e a sums edt by (auto intro!: chk64_small simp: acc_bounded_def abs_le_iff)
  have "\<exists>a'. pid_body st target ?dt p_start i_start d_start i actual a = Some a'"
    by (cases "i \<ge> d_start"; cases "i \<ge> p_start"; cases "i \<ge> i_start")
      (simp_all add: pid_body_def c Let_def)
  then obtain a' where a': "pid_body st target ?dt p_start i_start d_start i actual a = Some a'" ..
  moreover have "acc_bounded (k + 1) a'"
    using pid_body_SomeD [OF a'] a k e lim
    by (auto simp: acc_bounded_def clamped_integral_def algebra_simps)
  ultimately show ?thesis by blast
qed

lemma pid_loop_total:
  assumes st: "sane_statics st" and t: "100000 \<le> target" "target \<le> 10 ^ 12"
  shows "acc_bounded k a \<Longrightarrow> 0 \<le> k \<Longrightarrow> k + int (length ds) \<le> 10 ^ 6 \<Longrightarrow>
    \<forall>d \<in> set ds. \<bar>d\<bar> \<le> 10 ^ 12 \<Longrightarrow>
    \<exists>a'. pid_loop st target (ns_to_100us target) p_start i_start d_start i ds a = Some a'
      \<and> acc_bounded (k + int (length ds)) a'"
proof (induction ds arbitrary: k a i)
  case (Cons d ds)
  obtain b where b: "pid_body st target (ns_to_100us target) p_start i_start d_start i d a = Some b"
    "acc_bounded (k + 1) b"
    using pid_body_total [OF st Cons.prems(1,2) _ t, of d] Cons.prems by fastforce
  obtain a' where "pid_loop st target (ns_to_100us target) p_start i_start d_start (i + 1) ds b = Some a'"
    "acc_bounded (k + 1 + int (length ds)) a'"
    using Cons.IH [OF b(2)] Cons.prems by fastforce
  with b(1) show ?case by (auto simp: add.assoc)
qed simp

lemma pid_gain_bound:
  assumes "\<bar>gOver\<bar> \<le> 1000" "\<bar>gUnder\<bar> \<le> 1000" "\<bar>x\<bar> \<le> n"
  shows "\<bar>pid_gain gOver gUnder x\<bar> \<le> 4000 * of_int n"
proof -
  have "\<bar>(of_int x :: rat)\<bar> \<le> of_int n"
    using assms(3) by (metis of_int_abs of_int_le_iff)
  then have "\<bar>dbl_of_int x\<bar> \<le> 2 * of_int n"
    using dbl_of_int_abs_le [of x] by linarith
  then show ?thesis
    using dbl_mult_abs_le [of "if x > 0 then gOver else gUnder" 1000 "dbl_of_int x" "2 * of_int n"] assms
    by (simp add: pid_gain_def)
qed

lemma dbl_to_int64_le:
  assumes "\<bar>x\<bar> \<le> of_int n" "n < 2 ^ 63"
  obtains i where "dbl_to_int64 x = Some i" "\<bar>i\<bar> \<le> n"
proof
  have "(of_int n :: rat) < of_int (2 ^ 63)" using assms(2) by (simp only: of_int_less_iff)
  then have "\<bar>x\<bar> < 2 ^ 63" using assms(1) by simp
  note b = dbl_to_int64_bounded [OF this]
  show "dbl_to_int64 x = Some (trunc x)" by (rule b)
  have "of_int \<bar>trunc x\<bar> \<le> (of_int n :: rat)" using b(2) assms(1) by simp
  then show "\<bar>trunc x\<bar> \<le> n" by (simp only: of_int_le_iff)
qed

lemma pid_output_total:
  assumes st: "sane_statics st" and a: "acc_bounded (10 ^ 6) a"
    and dt: "1 \<le> dt" "dt \<le> 10 ^ 8"
    and w: "p_start < len" "d_start < len" "0 \<le> p_start" "0 \<le> d_start" "len \<le> 10 ^ 6"
  shows "\<exists>outp. pid_output st dt len p_start d_start a = Some outp"
proof -
  obtain p where p: "dbl_divide (pid_gain (sPidPOver st) (sPidPUnder st) (acc_err_sum a))
      (dbl_of_int (len - p_start)) = Some p"
    "\<bar>p\<bar> \<le> 2 * \<bar>pid_gain (sPidPOver st) (sPidPUnder st) (acc_err_sum a)\<bar>"
    by (rule dbl_divide_abs_le [of "len - p_start"]) (use w in auto)
  have "\<bar>pid_gain (sPidPOver st) (sPidPUnder st) (acc_err_sum a)\<bar> \<le> 4000 * of_int (10 ^ 14)"
    by (rule pid_gain_bound) (use st a in \<open>auto simp: sane_statics_def acc_bounded_def\<close>)
  then have "\<bar>p\<bar> \<le> of_int (10 ^ 18)" using p(2) by simp
  then obtain pOut where pOut: "dbl_to_int64 p = Some pOut" "\<bar>pOut\<bar> \<le> 10 ^ 18"
    by (rule dbl_to_int64_le) simp
  have "\<bar>dbl_of_int (acc_integral a)\<bar> \<le> of_int (2 * 10 ^ 12)"
    using dbl_of_int_abs_le [of "acc_integral a"] a by (auto simp: acc_bounded_def)
  then have "\<bar>dbl_mult (sPidI st) (dbl_of_int (acc_integral a))\<bar> \<le> of_int (10 ^ 16)"
    using dbl_mult_abs_le [of "sPidI st" 1000] st by (fastforce simp: sane_statics_def)
  then obtain iOut where iOut: "dbl_to_int64 (dbl_mult (sPidI st) (dbl_of_int (acc_integral a))) = Some iOut"
    "\<bar>iOut\<bar> \<le> 10 ^ 16"
    by (rule dbl_to_int64_le) simp
  let ?g = "pid_gain (sPidDOver st) (sPidDUnder st) (acc_derivative_sum a)"
  obtain d where d: "dbl_divide ?g (dbl_of_int dt) = Some d" "\<bar>d\<bar> \<le> 2 * \<bar>?g\<bar>"
    by (rule dbl_divide_abs_le [of dt]) (use dt in auto)
  obtain d' where d': "dbl_divide d (dbl_of_int (len - d_start)) = Some d'" "\<bar>d'\<bar> \<le> 2 * \<bar>d\<bar>"
    by (rule dbl_divide_abs_le [of "len - d_start"]) (use w in auto)
  have "\<bar>?g\<bar> \<le> 4000 * of_int (2 * 10 ^ 14)"
    by (rule pid_gain_bound) (use st a in \<open>auto simp: sane_statics_def acc_bounded_def\<close>)
  then have "\<bar>d'\<bar> \<le> of_int (4 * 10 ^ 18)" using d(2) d'(2) by simp
  then obtain dOut where dOut: "dbl_to_int64 d' = Some dOut" "\<bar>dOut\<bar> \<le> 4 * 10 ^ 18"
    by (rule dbl_to_int64_le) simp
  have "chk64 (pOut + iOut) = Some (pOut + iOut)" "chk64 (pOut + iOut + dOut) = Some (pOut + iOut + dOut)"
    using pOut(2) iOut(2) dOut(2) by (auto simp: chk64_def abs_le_iff)
  then show ?thesis
    by (simp add: pid_output_def p(1) pOut(1) iOut(1) d(1) d'(1) dOut(1))
qed

lemma to_int32_bounds: "- 2147483648 \<le> to_int32 x" "to_int32 x < 2147483648"
  using to_int32_range [of x] by simp_all

lemma applyOutput_total:
  assumes "sane_statics st" "session_ok s"
  shows "\<exists>s' effs. applyOutput st outp s = Some (s', effs)"
proof -
  let ?n = "max (sUclampMinLowLimit st) (min (sUclampMinHighLimit st) (to_int32 outp))"
  have "0 \<le> ?n" "?n \<le> 1024"
    using assms(1) by (auto simp: sane_statics_def)
  then have "chk32 (current_min (mDescriptor s) - ?n) = Some (current_min (mDescriptor s) - ?n)"
    "chk32 \<bar>current_min (mDescriptor s) - ?n\<bar> = Some \<bar>current_min (mDescriptor s) - ?n\<bar>"
    using assms(2) by (auto simp: chk32_def session_ok_def kMaxUclampValue_def)
  then show ?thesis
    by (auto simp: applyOutput_def Let_def setUclamp_def)
qed
lemma applyOutput_SomeD:
  assumes "applyOutput st outp s = Some (s', effs)"
  shows "s' = upd_desc (\<lambda>d. d\<lparr>current_min := next_uclamp st outp (current_min d)\<rparr>) s"
    and "list_all effect_ok effs"
    and "session_ok s \<Longrightarrow> session_ok s'"
proof -
  let ?n = "max (sUclampMinLowLimit st) (min (sUclampMinHighLimit st) (to_int32 outp))"
  let ?diff = "\<bar>current_min (mDescriptor s) - ?n\<bar>"
  have eq: "(s', effs) = (if outp \<noteq> 0 \<and> ?diff > uint (sUclampMinGranularity st)
      then setUclamp st ?n kMaxUclampValue s else (s, []))"
  proof (cases "outp = 0")
    case True
    with assms show ?thesis by (simp add: applyOutput_def)
  next
    case False
    then obtain x y where x: "chk32 (current_min (mDescriptor s) - ?n) = Some x" "chk32 \<bar>x\<bar> = Some y"
      and r: "(if (word_of_int y :: u32) > sUclampMinGranularity st
               then Some (setUclamp st ?n kMaxUclampValue s) else Some (s, [])) = Some (s', effs)"
      using assms by (simp only: applyOutput_def Let_def if_True simp_thms bind_eq_Some_conv) blast
    have y: "y = ?diff" "0 \<le> y" "y < 2 ^ 31" using x by (simp_all only: chk32_Some_iff abs_ge_zero)
    have "(word_of_int y :: u32) > sUclampMinGranularity st \<longleftrightarrow> y > uint (sUclampMinGranularity st)"
      using y(2,3) by (simp add: word_less_def uint_word_of_int)
    with r y(1) False show ?thesis
      by (cases "y > uint (sUclampMinGranularity st)") (simp_all only: simp_thms if_True if_False option.inject)
  qed
  have s': "s' = (if outp \<noteq> 0 \<and> ?diff > uint (sUclampMinGranularity st)
      then fst (setUclamp st ?n kMaxUclampValue s) else s)"
    using arg_cong [OF eq, of fst] by (simp only: fst_conv if_distrib [of fst])
  have effs: "effs = (if outp \<noteq> 0 \<and> ?diff > uint (sUclampMinGranularity st)
      then snd (setUclamp st ?n kMaxUclampValue s) else [])"
    using arg_cong [OF eq, of snd] by (simp only: snd_conv if_distrib [of snd])
  show "s' = upd_desc (\<lambda>d. d\<lparr>current_min := next_uclamp st outp (current_min d)\<rparr>) s"
    unfolding s' setUclamp_session by (simp add: next_uclamp_def Let_def upd_desc_def)
  show "list_all effect_ok effs"
    unfolding effs using setUclamp_effects_ok by simp
  show "session_ok s \<Longrightarrow> session_ok s'"
    unfolding s' using setUclamp_session_ok by simp
qed

lemma updateStaleTimer_keeps [simp]:
  "mDescriptor (fst (updateStaleTimer st running now s)) = mDescriptor s"
  "kAdpfRate (fst (updateStaleTimer st running now s)) = kAdpfRate s"
  "mSessionClosed (fst (updateStaleTimer st running now s)) = mSessionClosed s"
  by (simp_all add: updateStaleTimer_def Let_def)

lemma updateStaleTimer_effects_ok: "list_all effect_ok (snd (updateStaleTimer st running now s))"
  by (simp add: updateStaleTimer_def updateUniveralBoostMode_def Let_def)

lemma dt_bounds: "100000 \<le> target \<Longrightarrow> target \<le> 10 ^ 12 \<Longrightarrow> 1 \<le> ns_to_100us target \<and> ns_to_100us target \<le> 10 ^ 8"
  by (auto simp: ns_to_100us_def signed_divide_int_def sgn_if)

lemma drop_sample_errors: "sample_errors target (drop n xs) = drop n (sample_errors target xs)"
  by (simp add: sample_errors_def drop_map)

lemma length_sample_errors [simp]: "length (sample_errors target xs) = length xs"
  by (simp add: sample_errors_def)

lemma report_pid_total:
  assumes st: "sane_statics st" and s: "sane_session s" and ds: "sane_samples ds" "ds \<noteq> []"
  shows "\<exists>a outp. report_pid st ds s =
      Some (upd_desc (\<lambda>d. d\<lparr>integral_error := acc_integral a, previous_error := acc_previous a,
                              update_count := update_count d + 1\<rparr>) s, outp)
      \<and> acc_bounded (10 ^ 6) a"
proof -
  let ?t = "duration (mDescriptor s)" and ?len = "int (length ds)"
  let ?p = "window_start (sPSamplingWindow st) ?len" and ?i = "window_start (sISamplingWindow st) ?len"
    and ?d = "window_start (sDSamplingWindow st) ?len"
  let ?m = "min ?p (min ?i ?d)"
  let ?a = "\<lparr>acc_integral = integral_error (mDescriptor s), acc_previous = previous_error (mDescriptor s),
             acc_err_sum = 0, acc_derivative_sum = 0\<rparr>"
  have t: "100000 \<le> ?t" "?t \<le> 10 ^ 12" and a0: "acc_bounded 0 ?a"
    using s by (auto simp: sane_session_def acc_bounded_def)
  have b: "0 \<le> ?p" "0 \<le> ?d" "?p < ?len" "?d < ?len"
    using window_start_bounds [of _ ?len] st ds(2) by (auto simp: sane_statics_def)
  have len: "?len \<le> 10 ^ 6" using ds(1) by (simp add: sane_samples_def)
  have k: "int (length (drop (nat ?m) ds)) \<le> 10 ^ 6" using len by auto
  have "\<forall>x \<in> set (drop (nat ?m) ds). \<bar>x\<bar> \<le> 10 ^ 12"
    using ds(1) set_drop_subset by (fastforce simp: sane_samples_def)
  from pid_loop_total [OF st t a0 order_refl _ this, of ?p ?i ?d ?m] k
  obtain a where a: "pid_loop st ?t (ns_to_100us ?t) ?p ?i ?d ?m (drop (nat ?m) ds) ?a = Some a"
    "acc_bounded (int (length (drop (nat ?m) ds))) a" by auto
  then have a6: "acc_bounded (10 ^ 6) a" using k by (auto simp: acc_bounded_def)
  moreover obtain outp where "pid_output st (ns_to_100us ?t) ?len ?p ?d a = Some outp"
    using pid_output_total [OF st a6 _ _ b(3,4,1,2) len] dt_bounds [OF t] by blast
  ultimately show ?thesis
    unfolding report_pid_def Let_def using a(1) by (intro exI [of _ a] exI [of _ outp]) simp
qed

section \<open>Every operation keeps the levels in range\<close>

lemma PowerHintSession_new_ok:
  "session_ok (fst (PowerHintSession_new st g u tids dur rate now))"
  "list_all effect_ok (snd (PowerHintSession_new st g u tids dur rate now))"
  by (simp_all add: PowerHintSession_new_def Let_def split_fst_snd setUclamp_session_ok setUclamp_effects_ok)

lemma upd_desc_session_ok:
  "(\<And>d. current_min (f d) = current_min d) \<Longrightarrow> session_ok (upd_desc f s) = session_ok s"
  by (simp add: session_ok_def)

lemma session_ok_stale [simp]: "session_ok (s\<lparr>mStaleHandler := h\<rparr>) = session_ok s"
  "session_ok (s\<lparr>mSessionClosed := c\<rparr>) = session_ok s"
  by (simp_all add: session_ok_def)

lemma pause_ok:
  assumes "pause st s = (r, s', effs)" "session_ok s"
  shows "session_ok s'" "list_all effect_ok effs"
  using assms setUclamp_session_ok [of st 0 s] setUclamp_effects_ok [of st 0 s]
  by (auto simp: pause_def split_fst_snd Let_def updateUniveralBoostMode_def upd_desc_session_ok split: if_splits)

lemma resume_ok:
  assumes "resume st s = (r, s', effs)" "session_ok s"
  shows "session_ok s'" "list_all effect_ok effs"
  using assms setUclamp_session_ok [of st "sUclampMinHighLimit st"] setUclamp_effects_ok [of st "sUclampMinHighLimit st"]
  by (auto simp: resume_def split_fst_snd Let_def updateUniveralBoostMode_def split: if_splits)

lemma close_session_ok:
  assumes "close_session st s = (r, s', effs)" "session_ok s"
  shows "session_ok s'" "list_all effect_ok effs"
  using assms setUclamp_session_ok [of st 0] setUclamp_effects_ok [of st 0]
  by (auto simp: close_session_def split_fst_snd Let_def updateUniveralBoostMode_def split: if_splits)

lemma updateTargetWorkDuration_ok:
  assumes "updateTargetWorkDuration st t s = Some (r, s', effs)" "session_ok s"
  shows "session_ok s'" "list_all effect_ok effs"
  using assms
  by (auto simp: updateTargetWorkDuration_def bind_eq_Some_conv upd_desc_session_ok split: if_splits)

lemma StaleHandler_handleMessage_ok:
  assumes "StaleHandler_handleMessage st now s = (s', effs)" "session_ok s"
  shows "session_ok s'" "list_all effect_ok effs"
  using assms setUclamp_session_ok [of st 0] setUclamp_effects_ok [of st 0]
  by (auto simp: StaleHandler_handleMessage_def setStale_def split_fst_snd Let_def
      updateUniveralBoostMode_def split: if_splits)

lemma report_SomeD:
  assumes "reportActualWorkDuration st running now1 now2 ds s = Some (r, s', effs)"
  obtains (error) "s' = s" "effs = []" "r \<noteq> status_ok"
  | (reported) s1 s2 outp effs2 where "r = status_ok" "ds \<noteq> []" "is_active (mDescriptor s)"
      "s1 = (if running \<and> isStale st now1 s
             then upd_desc (\<lambda>d. d\<lparr>integral_error := max (sPidIInit st) (integral_error d)\<rparr>) s else s)"
      "report_pid st ds s1 = Some (s2, outp)"
      "applyOutput st outp (fst (updateStaleTimer st running now2 s2)) = Some (s', effs2)"
      "effs = snd (updateStaleTimer st running now2 s2) @ effs2"
  using assms
  by (auto simp: reportActualWorkDuration_def Let_def bind_eq_Some_conv split_fst_snd split: if_splits)

lemma report_pid_session:
  assumes "report_pid st ds s = Some (s', outp)"
  shows "\<exists>e p. s' = upd_desc (\<lambda>d. d\<lparr>integral_error := e, previous_error := p,
                                    update_count := update_count d + 1\<rparr>) s"
  using assms by (auto simp: report_pid_def Let_def bind_eq_Some_conv)

lemma report_ok:
  assumes "reportActualWorkDuration st running now1 now2 ds s = Some (r, s', effs)" "session_ok s"
  shows "session_ok s'" "list_all effect_ok effs"
proof -
  show "session_ok s'"
    using assms(1)
  proof (cases rule: report_SomeD)
    case (reported s1 s2 outp effs2)
    have "session_ok s1" using assms(2) reported(4) by (simp add: upd_desc_session_ok)
    then have "session_ok s2" using report_pid_session [OF reported(5)] by (auto simp: upd_desc_session_ok)
    then have "session_ok (fst (updateStaleTimer st running now2 s2))" by (simp add: session_ok_def)
    with applyOutput_SomeD(3) [OF reported(6)] show ?thesis .
  qed (use assms(2) in simp)
  show "list_all effect_ok effs"
    using assms(1)
    by (cases rule: report_SomeD) (use applyOutput_SomeD(2) updateStaleTimer_effects_ok in \<open>auto\<close>)
qed

section \<open>Properties\<close>

lemma default_statics_sane: "sane_statics default_statics"
  by (simp add: sane_statics_def default_statics_def sPidI_default)

lemma example_session_simps:
  "duration (mDescriptor example_session) = 16666666" "is_active (mDescriptor example_session)"
  "integral_error (mDescriptor example_session) = 0" "previous_error (mDescriptor example_session) = 0"
  "mSessionClosed example_session = False" "threadIds (mDescriptor example_session) = [30, 31]"
  by (simp_all add: PowerHintSession_new_def AppHintDesc_new_def Let_def split_fst_snd setUclamp_session)

lemma example_session_sane: "sane_session example_session"
  using PowerHintSession_new_ok(1) [of default_statics 10 20 "[30, 31]" 16666666 16666666 0]
  by (simp add: sane_session_def example_session_simps)

text \<open>The error that the sum of differences starts from.\<close>

lemma nth_before_window:
  assumes "0 \<le> m" "m = min p (min i d)" "d \<le> int (length errs)"
  shows "(prev # drop (nat m) errs) ! nat (d - m) = (if d \<le> p \<and> d \<le> i then prev else errs ! nat (d - 1))"
proof (cases "d = m")
  case True
  then show ?thesis using assms(2) by auto
next
  case False
  then have "m < d" using assms(2) by simp
  then have "nat (d - m) = Suc (nat (d - 1 - m))" "nat m + nat (d - 1 - m) = nat (d - 1)"
    using assms(1) by (simp_all add: Suc_nat_eq_nat_zadd1 flip: nat_add_distrib)
  moreover have "nat m \<le> length errs" using \<open>m < d\<close> assms(3) by simp
  ultimately show ?thesis using \<open>m < d\<close> assms(2) by auto
qed

lemma report_pid_SomeD:
  assumes "report_pid st ds s = Some (s', outp)" and "ds \<noteq> []"
    and "0 \<le> sPSamplingWindow st" "0 \<le> sISamplingWindow st" "0 \<le> sDSamplingWindow st"
  defines "len \<equiv> int (length ds)"
  defines "p_start \<equiv> window_start (sPSamplingWindow st) len"
    and "i_start \<equiv> window_start (sISamplingWindow st) len"
    and "d_start \<equiv> window_start (sDSamplingWindow st) len"
    and "dt \<equiv> ns_to_100us (duration (mDescriptor s))"
    and "errs \<equiv> sample_errors (duration (mDescriptor s)) ds"
  obtains a where
    "s' = upd_desc (\<lambda>d. d\<lparr>integral_error := acc_integral a, previous_error := acc_previous a,
                          update_count := update_count d + 1\<rparr>) s"
    "pid_output st dt len p_start d_start a = Some outp"
    "a = \<lparr>acc_integral = clamped_integral st dt (integral_error (mDescriptor s)) (drop (nat i_start) errs),
          acc_previous = last errs, acc_err_sum = sum_list (drop (nat p_start) errs),
          acc_derivative_sum = last errs - (if d_start \<le> p_start \<and> d_start \<le> i_start
             then previous_error (mDescriptor s) else errs ! nat (d_start - 1))\<rparr>"
    "i_start < len"
proof -
  define m where "m = min p_start (min i_start d_start)"
  have w: "0 \<le> p_start" "0 \<le> i_start" "0 \<le> d_start" "p_start < len" "i_start < len" "d_start < len"
    unfolding p_start_def i_start_def d_start_def
    using assms(2-5) by (auto intro!: window_start_bounds simp: len_def)
  then have m: "0 \<le> m" "m \<le> p_start" "m \<le> i_start" "m \<le> d_start" "m < len"
    by (auto simp: m_def)
  let ?a0 = "\<lparr>acc_integral = integral_error (mDescriptor s), acc_previous = previous_error (mDescriptor s),
              acc_err_sum = 0, acc_derivative_sum = 0\<rparr>"
  obtain a where a: "pid_loop st (duration (mDescriptor s)) dt p_start i_start d_start m (drop (nat m) ds) ?a0 = Some a"
    and o: "pid_output st dt len p_start d_start a = Some outp"
      "s' = upd_desc (\<lambda>d. d\<lparr>integral_error := acc_integral a, previous_error := acc_previous a,
                            update_count := update_count d + 1\<rparr>) s"
    using assms(1) by (auto simp: report_pid_def Let_def bind_eq_Some_conv m_def assms(6-))
  have "d_start - m \<le> int (length (drop (nat m) ds))"
    using w m by (simp add: len_def)
  note L = pid_loop_SomeD [OF a this, unfolded drop_sample_errors, folded errs_def]
  have ne: "drop (nat m) errs \<noteq> []" "int (length errs) = len"
    using m by (auto simp: errs_def len_def)
  have dd: "nat (k - m) + nat m = nat k" if "m \<le> k" for k
    using that m(1) by (simp flip: nat_add_distrib)
  show ?thesis
    by (rule that [OF o(2,1) _ w(5)])
      (use L ne m w in \<open>cases a, simp add: dd nth_before_window [OF m(1) m_def] last_drop\<close>)
qed

lemma report_pid_integral:
  assumes "report_pid st ds s = Some (s', outp)" "ds \<noteq> []" "sane_statics st"
  shows "sPidILowLimit st \<le> integral_error (mDescriptor s') \<and> integral_error (mDescriptor s') \<le> sPidIHighLimit st"
proof -
  have st: "0 \<le> sPSamplingWindow st" "0 \<le> sISamplingWindow st" "0 \<le> sDSamplingWindow st"
    "sPidILowLimit st \<le> sPidIHighLimit st"
    using assms(3) by (simp_all add: sane_statics_def)
  let ?errs = "drop (nat (window_start (sISamplingWindow st) (int (length ds))))
      (sample_errors (duration (mDescriptor s)) ds)"
  have "integral_error (mDescriptor s') = clamped_integral st (ns_to_100us (duration (mDescriptor s))) (integral_error (mDescriptor s)) ?errs"
    by (rule report_pid_SomeD [OF assms(1,2) st(1-3)]) simp
  moreover have "?errs \<noteq> []"
    using window_start_bounds [OF st(2), of "int (length ds)"] assms(2) by (simp add: nat_le_iff not_le)
  ultimately show ?thesis using clamped_integral_bounds [OF st(4)] by simp
qed

lemma report_total:
  assumes "sane_statics st" "sane_session s" "sane_samples ds" "ds \<noteq> []" "is_active (mDescriptor s)"
  shows "\<exists>s' effs. reportActualWorkDuration st running now1 now2 ds s = Some (status_ok, s', effs)
    \<and> sane_session s' \<and> is_active (mDescriptor s') \<and> duration (mDescriptor s') = duration (mDescriptor s)
    \<and> sPidILowLimit st \<le> integral_error (mDescriptor s') \<and> integral_error (mDescriptor s') \<le> sPidIHighLimit st
    \<and> list_all effect_ok effs"
proof -
  define s1 where "s1 = (if running \<and> isStale st now1 s
      then upd_desc (\<lambda>d. d\<lparr>integral_error := max (sPidIInit st) (integral_error d)\<rparr>) s else s)"
  have s1: "sane_session s1"
    using assms(1,2) by (auto simp: s1_def sane_session_def sane_statics_def upd_desc_session_ok max_def)
  have d: "duration (mDescriptor s) \<noteq> 0" "duration (mDescriptor s1) = duration (mDescriptor s)"
    "is_active (mDescriptor s1)"
    using assms(2,5) by (auto simp: sane_session_def s1_def)
  obtain a outp where r: "report_pid st ds s1 =
      Some (upd_desc (\<lambda>d. d\<lparr>integral_error := acc_integral a, previous_error := acc_previous a,
                            update_count := update_count d + 1\<rparr>) s1, outp)" "acc_bounded (10 ^ 6) a"
    using report_pid_total [OF assms(1) s1 assms(3,4)] by blast
  let ?s2 = "upd_desc (\<lambda>d. d\<lparr>integral_error := acc_integral a, previous_error := acc_previous a,
                            update_count := update_count d + 1\<rparr>) s1"
  let ?s3 = "fst (updateStaleTimer st running now2 ?s2)"
  have "session_ok ?s3" using s1 by (simp add: sane_session_def session_ok_def)
  then obtain s' effs2 where a: "applyOutput st outp ?s3 = Some (s', effs2)"
    using applyOutput_total [OF assms(1)] by blast
  have res: "reportActualWorkDuration st running now1 now2 ds s =
      Some (status_ok, s', snd (updateStaleTimer st running now2 ?s2) @ effs2)"
    using d(1) assms(4,5) by (simp add: reportActualWorkDuration_def s1_def [symmetric] r(1) split_fst_snd a)
  have "session_ok s" using assms(2) by (simp add: sane_session_def)
  note ok = report_ok [OF res this]
  have "sane_session s' \<and> is_active (mDescriptor s') \<and> duration (mDescriptor s') = duration (mDescriptor s)"
    using ok(1) s1 d r(2) by (simp add: sane_session_def applyOutput_SomeD(1) [OF a] acc_bounded_def)
  moreover have "sPidILowLimit st \<le> integral_error (mDescriptor s') \<and> integral_error (mDescriptor s') \<le> sPidIHighLimit st"
    using report_pid_integral [OF r(1) assms(4,1)] by (simp add: applyOutput_SomeD(1) [OF a])
  ultimately show ?thesis using res ok(2) by blast
qed



text \<open>
  C12. The PID controller computes what its windows say. With the errors of the samples against the
  target in units of 100 microseconds, the new integral error is the clamped integral over the
  integral window, the new previous error is the last error, the proportional term uses the sum of
  the errors in its window, and the sum of differences telescopes to the last error minus the one
  before the derivative window (the one stored by the previous report when all windows start there).
\<close>

theorem report_pid_spec:
  assumes "report_pid st ds s = Some (s', outp)" and "ds \<noteq> []"
    and "0 \<le> sPSamplingWindow st" "0 \<le> sISamplingWindow st" "0 \<le> sDSamplingWindow st"
  shows "let len = int (length ds);
             p_start = window_start (sPSamplingWindow st) len;
             i_start = window_start (sISamplingWindow st) len;
             d_start = window_start (sDSamplingWindow st) len;
             dt = ns_to_100us (duration (mDescriptor s));
             errs = sample_errors (duration (mDescriptor s)) ds;
             before = (if d_start \<le> p_start \<and> d_start \<le> i_start then previous_error (mDescriptor s)
                       else errs ! nat (d_start - 1));
             integral = clamped_integral st dt (integral_error (mDescriptor s)) (drop (nat i_start) errs)
         in integral_error (mDescriptor s') = integral \<and> previous_error (mDescriptor s') = last errs
            \<and> update_count (mDescriptor s') = update_count (mDescriptor s) + 1
            \<and> pid_output st dt len p_start d_start
                \<lparr>acc_integral = integral, acc_previous = last errs,
                 acc_err_sum = sum_list (drop (nat p_start) errs),
                 acc_derivative_sum = last errs - before\<rparr> = Some outp"
  unfolding Let_def
  by (rule report_pid_SomeD [OF assms]) simp

theorem report_pid_spec_witness:
  "\<exists>s' outp. report_pid default_statics [20000000, 12000000] example_session = Some (s', outp)
     \<and> integral_error (mDescriptor s') = - 2158 \<and> previous_error (mDescriptor s') = - 46"
proof -
  obtain s' outp where r: "report_pid default_statics [20000000, 12000000] example_session = Some (s', outp)"
    using report_pid_total [OF default_statics_sane example_session_sane, of "[20000000, 12000000]"]
    by (auto simp: sane_samples_def)
  have st: "sPSamplingWindow default_statics = 1" "sISamplingWindow default_statics = 0"
    "sDSamplingWindow default_statics = 1" "sPidILowLimit default_statics = - 30000"
    "sPidIHighLimit default_statics = 512000"
    by (simp_all add: default_statics_def)
  have "sample_errors 16666666 [20000000, 12000000] = [33, - 46]" "ns_to_100us 16666666 = 166"
    by (simp_all add: sample_errors_def ns_to_100us_def signed_divide_int_def)
  then show ?thesis
    using report_pid_spec [OF r] r
    by (simp add: Let_def example_session_simps st window_start_def clamped_integral_def)
qed

text \<open>
  A positive target below 100 microseconds passes every check of the interface and makes each
  report undefined: the time step is rounded to 0, the code divides by it and casts the result to
  an integer.
\<close>

theorem short_target_undefined:
  assumes "0 < duration (mDescriptor s)" "duration (mDescriptor s) < 100000"
    and "ds \<noteq> []" "is_active (mDescriptor s)"
  shows "reportActualWorkDuration st running now1 now2 ds s = None"
proof -
  have dt: "ns_to_100us (duration (mDescriptor s)) = 0"
    using assms(1,2) by (simp add: ns_to_100us_def signed_divide_int_def)
  have z: "dbl_of_int 0 = 0" by (simp add: dbl_of_int_def)
  have "pid_output st 0 len p_start d_start a = None" for len p_start d_start a
    by (auto simp: pid_output_def dbl_divide_def z bind_eq_None_conv)
  then have "report_pid st ds s1 = None" if "duration (mDescriptor s1) = duration (mDescriptor s)" for s1
    using that by (auto simp: report_pid_def Let_def dt bind_eq_None_conv)
  then show ?thesis
    using assms by (simp add: reportActualWorkDuration_def Let_def)
qed

theorem short_target_undefined_witness:
  "fst (the (updateTargetWorkDuration default_statics 99999 example_session)) = status_ok \<and>
   reportActualWorkDuration default_statics True 5 6 [20000]
     (fst (snd (the (updateTargetWorkDuration default_statics 99999 example_session)))) = None"
proof -
  have z: "dbl_of_int 0 = 0" by (simp add: dbl_of_int_def)
  have "updateTargetWorkDuration default_statics 99999 example_session = Some (status_ok,
      upd_desc (\<lambda>d. d\<lparr>integral_error := 200000, duration := 99999\<rparr>) example_session, [])"
    by (simp add: updateTargetWorkDuration_def example_session_simps z dbl_mult_def dbl_to_int64_def trunc_def
        chk64_def) (simp add: default_statics_def)
  then show ?thesis
    using short_target_undefined [of "upd_desc (\<lambda>d. d\<lparr>integral_error := 200000, duration := 99999\<rparr>) example_session"
        "[20000]" default_statics True 5 6]
    by (simp add: example_session_simps)
qed

text \<open>
  C13. Changing the target scales the integral error by the quotient of the targets and keeps it at
  least at its initial value, but the quotient is an integer division: with a larger target the
  factor is 0 and the accumulated error is dropped.
\<close>

theorem updateTargetWorkDuration_spec:
  assumes "0 < target" "0 \<le> duration (mDescriptor s)"
    and "duration (mDescriptor s) div target < 2 ^ 53"
    and "\<bar>integral_error (mDescriptor s) * (duration (mDescriptor s) div target)\<bar> < 2 ^ 53"
    and "\<bar>integral_error (mDescriptor s)\<bar> < 2 ^ 53"
  shows "updateTargetWorkDuration st target s =
    Some (status_ok, upd_desc (\<lambda>d. d\<lparr>
       integral_error := max (sPidIInit st) (integral_error d * (duration d div target)),
       duration := target\<rparr>) s, [])"
proof -
  let ?e = "integral_error (mDescriptor s)" and ?r = "duration (mDescriptor s) div target"
  have q: "duration (mDescriptor s) sdiv target = ?r"
    using assms(1,2) by (cases "duration (mDescriptor s) = 0") (simp_all add: signed_divide_int_def sgn_if)
  have "0 \<le> ?r" using assms(1,2) by (simp add: pos_imp_zdiv_nonneg_iff)
  then have r: "dbl_of_int ?r = of_int ?r" "dbl_of_int ?e = of_int ?e"
    using assms(3,5) by (simp_all add: dbl_of_int_exact)
  have "dbl_mult (of_int ?e) (of_int ?r) = of_int (?e * ?r)"
    using dbl_of_int_exact [OF assms(4)] by (simp add: dbl_mult_def dbl_of_int_def)
  moreover have "chk64 (?e * ?r) = Some (?e * ?r)"
    using assms(4) by (auto simp: chk64_def abs_less_iff)
  ultimately have "dbl_to_int64 (dbl_mult (of_int ?e) (of_int ?r)) = Some (?e * ?r)"
    by (simp only: dbl_to_int64_def trunc_of_int)
  then show ?thesis
    using assms(1) by (simp add: updateTargetWorkDuration_def q r upd_desc_def)
qed

theorem updateTargetWorkDuration_spec_witness:
  "updateTargetWorkDuration default_statics 20000000
     (upd_desc (\<lambda>d. d\<lparr>integral_error := 500000\<rparr>) example_session) =
   Some (status_ok, upd_desc (\<lambda>d. d\<lparr>integral_error := 200000, duration := 20000000\<rparr>) example_session, [])"
  using updateTargetWorkDuration_spec [of 20000000 "upd_desc (\<lambda>d. d\<lparr>integral_error := 500000\<rparr>) example_session"
      default_statics]
  by (simp add: example_session_simps upd_desc_def) (simp add: default_statics_def)

text \<open>
  C14. Every operation that reports an error leaves the session as it was and makes no call.
\<close>

theorem session_errors_keep_state:
  "(case pause st s of (r, s', effs) \<Rightarrow> r \<noteq> status_ok \<longrightarrow> s' = s \<and> effs = []) \<and>
   (case resume st s of (r, s', effs) \<Rightarrow> r \<noteq> status_ok \<longrightarrow> s' = s \<and> effs = []) \<and>
   (case close_session st s of (r, s', effs) \<Rightarrow> r \<noteq> status_ok \<longrightarrow> s' = s \<and> effs = []) \<and>
   (updateTargetWorkDuration st t s = Some (r, s', effs) \<and> r \<noteq> status_ok \<longrightarrow> s' = s \<and> effs = []) \<and>
   (reportActualWorkDuration st running now1 now2 ds s = Some (r, s', effs) \<and> r \<noteq> status_ok
      \<longrightarrow> s' = s \<and> effs = [])"
proof (intro conjI)
  show "reportActualWorkDuration st running now1 now2 ds s = Some (r, s', effs) \<and> r \<noteq> status_ok
      \<longrightarrow> s' = s \<and> effs = []"
    by (auto elim: report_SomeD)
qed (auto simp: pause_def resume_def close_session_def updateTargetWorkDuration_def split_fst_snd Let_def
    bind_eq_Some_conv)

theorem session_errors_keep_state_witness:
  "resume default_statics example_session = (fromExceptionCode EX_ILLEGAL_STATE, example_session, [])"
proof -
  obtain s' effs where r: "resume default_statics example_session = (fromExceptionCode EX_ILLEGAL_STATE, s', effs)"
    by (simp add: resume_def example_session_simps)
  then show ?thesis
    using session_errors_keep_state [where st = default_statics and s = example_session] by simp
qed

lemma applyOutput_effects:
  assumes "applyOutput st outp s = Some (s', effs)"
  shows "e \<in> set effs \<Longrightarrow> \<exists>tid a. e = SchedSetattr tid a"
proof -
  have "effs = [] \<or> (\<exists>n. effs = snd (setUclamp st n kMaxUclampValue s))"
    using assms by (cases "outp = 0") (simp_all add: applyOutput_def Let_def bind_eq_Some_conv, metis option.inject snd_conv)
  then show "e \<in> set effs \<Longrightarrow> \<exists>tid a. e = SchedSetattr tid a"
    by (auto simp: setUclamp_effects split: if_splits)
qed

lemma pid_output_example:
  "pid_output default_statics 166 1 0 0
     \<lparr>acc_integral = 27556, acc_previous = 166, acc_err_sum = 166, acc_derivative_sum = 166\<rparr> = Some 859"
proof -
  have r: "dbl_round (numeral n) = numeral n" if "(numeral n :: int) < 2 ^ 53" for n
    using dbl_of_int_exact [of "numeral n"] that by (simp add: dbl_of_int_def)
  have r1: "dbl_round 1 = 1"
    using dbl_of_int_exact [of 1] by (simp add: dbl_of_int_def)
  have i: "dbl_round (7942476245236568983 / 288230376151711744) = 7756324458238837 / 281474976710656"
    using dbl_roundI [of 4 "7942476245236568983 / 288230376151711744" 7756324458238837]
    by (simp add: power_int_minus)
  have t: "trunc (7756324458238837 / 281474976710656) = 27"
    by (simp add: trunc_def floor_eq_iff)
  show ?thesis
    by (simp add: pid_output_def pid_gain_def default_statics_def sPidI_default dbl_of_int_def dbl_mult_def
        dbl_divide_def r r1 i t dbl_to_int64_def chk64_def)
qed

text \<open>
  A closed session is not out of action. With the default tunables, closing a session whose
  stale timer is being monitored resets the level of its threads to 0, and a second close is
  refused; but a report that arrives later is processed, raises the level to the limit of 384
  again, and schedules no message that would ever reset it.
\<close>

lemma closed_session_still_boosts:
  "\<exists>s1 effs1 s2 effs2.
     close_session default_statics (example_session\<lparr>mStaleHandler := \<lparr>mIsMonitoringStale = True, mLastUpdatedTime = 0\<rparr>\<rparr>)
       = (status_ok, s1, effs1)
     \<and> RemoveStaleMessages \<in> set effs1 \<and> RemovePowerSession \<in> set effs1 \<and> current_min (mDescriptor s1) = 0
     \<and> fst (close_session default_statics s1) = fromExceptionCode EX_ILLEGAL_STATE
     \<and> reportActualWorkDuration default_statics True 5 6 [33333333] s1 = Some (status_ok, s2, effs2)
     \<and> current_min (mDescriptor s2) = 384 \<and> (\<forall>delay. SendStaleMessage delay \<notin> set effs2)"
proof -
  let ?s = "example_session\<lparr>mStaleHandler := \<lparr>mIsMonitoringStale = True, mLastUpdatedTime = 0\<rparr>\<rparr>"
  let ?s1 = "upd_desc (\<lambda>d. d\<lparr>current_min := 0\<rparr>) (?s\<lparr>mSessionClosed := True\<rparr>)"
  let ?s2 = "upd_desc (\<lambda>d. d\<lparr>integral_error := 27556, previous_error := 166, update_count := update_count d + 1\<rparr>) ?s1"
  have close: "\<exists>effs. close_session default_statics ?s = (status_ok, ?s1, effs)
      \<and> RemoveStaleMessages \<in> set effs \<and> RemovePowerSession \<in> set effs"
    by (simp add: close_session_def Let_def split_fst_snd setUclamp_session example_session_simps)
  have st: "sPSamplingWindow default_statics = 1" "sISamplingWindow default_statics = 0"
    "sDSamplingWindow default_statics = 1" "sPidILowLimit default_statics = - 30000"
    "sPidIHighLimit default_statics = 512000" "sUclampMinHighLimit default_statics = 384"
    "sUclampMinLowLimit default_statics = 2" "sUclampMinGranularity default_statics = 5"
    "sStaleTimeFactor default_statics = 20"
    by (simp_all add: default_statics_def)
  have n: "ns_to_100us 16666666 = 166" "ns_to_100us 16666667 = 166"
    by (simp_all add: ns_to_100us_def signed_divide_int_def)
  have pid: "report_pid default_statics [33333333] ?s1 = Some (?s2, 859)"
    by (simp add: report_pid_def Let_def example_session_simps st window_start_def pid_body_def n chk64_def
        pid_output_example)
  have stale: "\<not> isStale default_statics 5 ?s1"
    by (simp add: isStale_def getStaleTime_def st PowerHintSession_new_def Let_def split_fst_snd setUclamp_session
        signed_divide_int_def)
  have timer: "updateStaleTimer default_statics True 6 ?s2 = (?s2\<lparr>mStaleHandler := \<lparr>mIsMonitoringStale = True, mLastUpdatedTime = 6\<rparr>\<rparr>, [])"
    by (simp add: updateStaleTimer_def Let_def getStaleTime_def st PowerHintSession_new_def split_fst_snd setUclamp_session
        signed_divide_int_def)
  obtain s3 effs3 where app: "applyOutput default_statics 859
      (?s2\<lparr>mStaleHandler := \<lparr>mIsMonitoringStale = True, mLastUpdatedTime = 6\<rparr>\<rparr>) = Some (s3, effs3)"
    using applyOutput_total [OF default_statics_sane] by (force simp: session_ok_def kMaxUclampValue_def)
  have cm: "current_min (mDescriptor s3) = 384"
    by (simp add: applyOutput_SomeD(1) [OF app] next_uclamp_def st to_int32_id)
  have none: "SendStaleMessage delay \<notin> set effs3" for delay
    using applyOutput_effects [OF app] by auto
  have "reportActualWorkDuration default_statics True 5 6 [33333333] ?s1 = Some (status_ok, s3, effs3)"
    using stale by (simp add: reportActualWorkDuration_def example_session_simps pid timer app)
  moreover have "fst (close_session default_statics ?s1) = fromExceptionCode EX_ILLEGAL_STATE"
    by (simp add: close_session_def)
  ultimately show ?thesis using close cm none
    by (elim exE conjE, intro exI [of _ ?s1] exI conjI) auto
qed

end
