(* ===== verification/PowerSessionManager.thy ===== *)
theory PowerSessionManager
  imports PowerHintSession
begin

text \<open>
  The manager of hint sessions, \<open>src/aidl/power-libperfmgr/PowerSessionManager.cpp\<close>: the display
  refresh rate, the reference counts of the threads of all sessions, and the hint that disables the
  boost of the top application while a session is active. Sessions are named by numbers (their
  addresses in the code). \<open>SetTaskProfiles\<close> is library code: its result for each thread and
  profile is an argument of the operations that call it. The theory also states what the reference
  counts promise, as a locale, and shows that the map implements it.
\<close>

section \<open>State\<close>

type_synonym session_id = nat
type_synonym task_profiles = "int \<Rightarrow> string \<Rightarrow> bool"

text \<open>
  A call of \<open>SetTaskProfiles\<close> with its thread, profile and result. The thread registrations are
  the counts together with these calls, newest first.
\<close>

datatype profile_call = SetTaskProfiles int string bool

type_synonym tid_refs = "(int \<rightharpoonup> int) \<times> profile_call list"

text \<open>\<open>mHintManager\<close> is whether the pointer is set; \<open>psm_hints\<close> is what was called through it.\<close>

record PowerSessionManager =
  kDisableBoostHintName :: string
  mHintManager :: bool
  mSessions :: "session_id set"
  mTidRefCountMap :: "int \<rightharpoonup> int"
  mDisplayRefreshRate :: int
  mActive :: bool
  psm_hints :: "hint_call list"
  psm_profiles :: "profile_call list"

section \<open>Operations\<close>

definition PowerSessionManager_new :: "string \<Rightarrow> PowerSessionManager" where
  "PowerSessionManager_new name =
     \<lparr>kDisableBoostHintName = name, mHintManager = False, mSessions = {}, mTidRefCountMap = Map.empty,
      mDisplayRefreshRate = 60, mActive = False, psm_hints = [], psm_profiles = []\<rparr>"

text \<open>\<open>supported\<close> is \<open>HintManager::IsHintSupported\<close>.\<close>

definition setHintManager :: "(string \<Rightarrow> bool) \<Rightarrow> PowerSessionManager \<Rightarrow> PowerSessionManager" where
  "setHintManager supported m =
     (if supported (kDisableBoostHintName m) then m\<lparr>mHintManager := True\<rparr> else m)"

definition updateHintMode :: "string \<Rightarrow> bool \<Rightarrow> PowerSessionManager \<Rightarrow> PowerSessionManager" where
  "updateHintMode mode enabled m =
     (if enabled \<and> take 8 mode = ''REFRESH_''
      then if mode = ''REFRESH_120FPS'' then m\<lparr>mDisplayRefreshRate := 120\<rparr>
           else if mode = ''REFRESH_90FPS'' then m\<lparr>mDisplayRefreshRate := 90\<rparr>
           else if mode = ''REFRESH_60FPS'' then m\<lparr>mDisplayRefreshRate := 60\<rparr>
           else m
      else m)"

definition getDisplayRefreshRate :: "PowerSessionManager \<Rightarrow> int" where
  "getDisplayRefreshRate m = mDisplayRefreshRate m"

definition add_tid :: "task_profiles \<Rightarrow> int \<Rightarrow> tid_refs \<Rightarrow> tid_refs" where
  "add_tid setTaskProfiles t r =
     (let (refs, calls) = r in
      case refs t of
        None \<Rightarrow>
          (let ok = setTaskProfiles t ''ResetUclampGrp'';
               calls = SetTaskProfiles t ''ResetUclampGrp'' ok # calls
           in if \<not> ok then (refs, calls) else (refs(t \<mapsto> 1), calls))
      | Some n \<Rightarrow> if n \<le> 0 then r else (refs(t \<mapsto> n + 1), calls))"

definition addPowerSession ::
  "task_profiles \<Rightarrow> session_id \<Rightarrow> int list \<Rightarrow> PowerSessionManager \<Rightarrow> PowerSessionManager" where
  "addPowerSession setTaskProfiles session tids m =
     (let (refs, calls) = fold (add_tid setTaskProfiles) tids (mTidRefCountMap m, psm_profiles m)
      in m\<lparr>mTidRefCountMap := refs, psm_profiles := calls, mSessions := insert session (mSessions m)\<rparr>)"

text \<open>The count of a thread is dropped whether or not the profile can be set back.\<close>

definition remove_tid :: "task_profiles \<Rightarrow> int \<Rightarrow> tid_refs \<Rightarrow> tid_refs" where
  "remove_tid setTaskProfiles t r =
     (let (refs, calls) = r in
      case refs t of
        None \<Rightarrow> r
      | Some n \<Rightarrow>
          if n - 1 \<le> 0
          then (refs(t := None),
                SetTaskProfiles t ''NoResetUclampGrp'' (setTaskProfiles t ''NoResetUclampGrp'') # calls)
          else (refs(t \<mapsto> n - 1), calls))"

definition removePowerSession ::
  "task_profiles \<Rightarrow> session_id \<Rightarrow> int list \<Rightarrow> PowerSessionManager \<Rightarrow> PowerSessionManager" where
  "removePowerSession setTaskProfiles session tids m =
     (let (refs, calls) = fold (remove_tid setTaskProfiles) tids (mTidRefCountMap m, psm_profiles m)
      in m\<lparr>mTidRefCountMap := refs, psm_profiles := calls, mSessions := mSessions m - {session}\<rparr>)"

text \<open>\<open>live s\<close> is \<open>s->isActive() && !s->isStale()\<close>.\<close>

definition isAnySessionActive ::
  "(session_id \<Rightarrow> bool) \<Rightarrow> PowerSessionManager \<Rightarrow> bool option \<times> PowerSessionManager" where
  "isAnySessionActive live m =
     (let active = (\<exists>s \<in> mSessions m. live s) in
      if active = mActive m then (None, m) else (Some active, m\<lparr>mActive := active\<rparr>))"

definition enableSystemTopAppBoost :: "PowerSessionManager \<Rightarrow> PowerSessionManager" where
  "enableSystemTopAppBoost m =
     (if mHintManager m then m\<lparr>psm_hints := EndHint (kDisableBoostHintName m) # psm_hints m\<rparr> else m)"

definition disableSystemTopAppBoost :: "PowerSessionManager \<Rightarrow> PowerSessionManager" where
  "disableSystemTopAppBoost m =
     (if mHintManager m then m\<lparr>psm_hints := DoHint (kDisableBoostHintName m) # psm_hints m\<rparr> else m)"

definition PowerSessionManager_handleMessage ::
  "(session_id \<Rightarrow> bool) \<Rightarrow> PowerSessionManager \<Rightarrow> PowerSessionManager" where
  "PowerSessionManager_handleMessage live m =
     (case isAnySessionActive live m of
        (None, m) \<Rightarrow> m
      | (Some active, m) \<Rightarrow> if active then disableSystemTopAppBoost m else enableSystemTopAppBoost m)"

section \<open>Abstraction of the reference counts\<close>

text \<open>Whether the newest successful call put a thread into the group that resets its clamps.\<close>

fun in_reset_group :: "int \<Rightarrow> profile_call list \<Rightarrow> bool" where
  "in_reset_group t [] = False"
| "in_reset_group t (SetTaskProfiles t' profile ok # calls) =
     (if t = t' \<and> ok then profile = ''ResetUclampGrp'' else in_reset_group t calls)"

text \<open>
  Every stored count is positive, and exactly the threads with a count are in the group. The counts
  stand for a multiset of threads.
\<close>

definition refs_good :: "tid_refs \<Rightarrow> bool" where
  "refs_good r \<longleftrightarrow> finite (dom (fst r)) \<and> (\<forall>t n. fst r t = Some n \<longrightarrow> 0 < n)
     \<and> (\<forall>t. in_reset_group t (snd r) \<longleftrightarrow> fst r t \<noteq> None)"

definition refs_count :: "tid_refs \<Rightarrow> int \<Rightarrow> nat" where
  "refs_count r t = (case fst r t of None \<Rightarrow> 0 | Some n \<Rightarrow> nat n)"

definition refs_mset :: "tid_refs \<Rightarrow> int multiset" where
  "refs_mset r = Abs_multiset (refs_count r)"

definition refs_holds :: "tid_refs \<Rightarrow> int \<Rightarrow> bool" where
  "refs_holds r t \<longleftrightarrow> in_reset_group t (snd r)"

abbreviation profiles_work :: task_profiles where
  "profiles_work \<equiv> \<lambda>_ _. True"

section \<open>What the reference counts promise\<close>

text \<open>
  The abstract state is the multiset of the threads of the registered sessions. An implementation
  registers and deregisters the threads of a session, and answers how many registrations a thread
  has.
\<close>

locale thread_registry =
  fixes registered :: "'r \<Rightarrow> int multiset"
    and good :: "'r \<Rightarrow> bool"
    and register :: "int list \<Rightarrow> 'r \<Rightarrow> 'r"
    and deregister :: "int list \<Rightarrow> 'r \<Rightarrow> 'r"
    and holds :: "'r \<Rightarrow> int \<Rightarrow> bool"
  assumes good_register: "good r \<Longrightarrow> good (register ts r)"
    and good_deregister: "good r \<Longrightarrow> good (deregister ts r)"
    and registered_register: "good r \<Longrightarrow> registered (register ts r) = registered r + mset ts"
    and registered_deregister: "good r \<Longrightarrow> registered (deregister ts r) = registered r - mset ts"
    and holds_iff: "good r \<Longrightarrow> holds r t \<longleftrightarrow> t \<in># registered r"
begin

text \<open>A thread is held exactly while a session that lists it is registered.\<close>

lemma holds_register: "good r \<Longrightarrow> holds (register ts r) t \<longleftrightarrow> holds r t \<or> t \<in> set ts"
  by (auto simp: holds_iff good_register registered_register)

lemma register_deregister:
  "good r \<Longrightarrow> registered (deregister ts (register ts r)) = registered r"
  by (simp add: registered_register registered_deregister good_register)

lemma deregister_commute:
  "good r \<Longrightarrow> mset ts \<subseteq># registered r \<Longrightarrow>
   registered (deregister ts (register us r)) = registered (register us (deregister ts r))"
  by (simp add: registered_register registered_deregister good_register good_deregister
      subset_mset.add_diff_assoc2)

lemma holds_after_deregister:
  "good r \<Longrightarrow> mset ts \<subseteq># registered r \<Longrightarrow>
   holds (deregister ts (register us r)) t \<longleftrightarrow> t \<in># (registered r - mset ts) + mset us"
  by (simp add: holds_iff registered_register registered_deregister good_register good_deregister
      subset_mset.add_diff_assoc2)

end

section \<open>The reference counts implement the promise\<close>

lemma refs_good_pos: "refs_good r \<Longrightarrow> fst r t = Some n \<Longrightarrow> 0 < n"
  by (simp add: refs_good_def)

lemma count_refs_mset: "refs_good r \<Longrightarrow> count (refs_mset r) = refs_count r"
proof -
  assume "refs_good r"
  then have "finite {t. 0 < refs_count r t}"
    by (auto simp: refs_good_def refs_count_def dom_def split: option.splits elim: rev_finite_subset)
  then show ?thesis by (simp add: refs_mset_def Abs_multiset_inverse)
qed

lemma add_tid_good: "refs_good r \<Longrightarrow> refs_good (add_tid profiles_work t r)"
  by (cases r) (auto simp: refs_good_def add_tid_def Let_def split: option.splits if_splits)

lemma remove_tid_good: "refs_good r \<Longrightarrow> refs_good (remove_tid profiles_work t r)"
  by (cases r) (auto simp: refs_good_def remove_tid_def Let_def split: option.splits if_splits)

lemma refs_good_add_fold: "refs_good r \<Longrightarrow> refs_good (fold (add_tid profiles_work) ts r)"
  by (induction ts arbitrary: r) (auto simp: add_tid_good)

lemma refs_good_remove_fold: "refs_good r \<Longrightarrow> refs_good (fold (remove_tid profiles_work) ts r)"
  by (induction ts arbitrary: r) (auto simp: remove_tid_good)

lemma add_tid_mset:
  assumes "refs_good r"
  shows "refs_mset (add_tid profiles_work t r) = add_mset t (refs_mset r)"
proof (rule multiset_eqI)
  fix x
  show "count (refs_mset (add_tid profiles_work t r)) x = count (add_mset t (refs_mset r)) x"
    unfolding count_add_mset count_refs_mset [OF add_tid_good [OF assms]] count_refs_mset [OF assms]
    using refs_good_pos [OF assms, of t]
    by (cases r) (auto simp: refs_count_def add_tid_def Let_def nat_add_distrib split: option.splits)
qed

lemma remove_tid_mset:
  assumes "refs_good r"
  shows "refs_mset (remove_tid profiles_work t r) = refs_mset r - {#t#}"
proof (rule multiset_eqI)
  fix x
  show "count (refs_mset (remove_tid profiles_work t r)) x = count (refs_mset r - {#t#}) x"
    unfolding count_diff count_refs_mset [OF remove_tid_good [OF assms]] count_refs_mset [OF assms]
    using refs_good_pos [OF assms, of t]
    by (cases r) (auto simp: refs_count_def remove_tid_def Let_def split: option.splits)
qed

lemma refs_mset_add_fold:
  "refs_good r \<Longrightarrow> refs_mset (fold (add_tid profiles_work) ts r) = refs_mset r + mset ts"
  by (induction ts arbitrary: r) (auto simp: add_tid_good add_tid_mset)

lemma refs_mset_remove_fold:
  "refs_good r \<Longrightarrow> refs_mset (fold (remove_tid profiles_work) ts r) = refs_mset r - mset ts"
  by (induction ts arbitrary: r) (auto simp: remove_tid_good remove_tid_mset)

lemma refs_holds_iff: "refs_good r \<Longrightarrow> refs_holds r t \<longleftrightarrow> t \<in># refs_mset r"
  by (auto simp: refs_holds_def count_refs_mset refs_count_def refs_good_def simp flip: count_greater_zero_iff
      split: option.splits)

lemma refs_empty: "refs_good (Map.empty, [])" "refs_mset (Map.empty, []) = {#}"
proof -
  show g: "refs_good (Map.empty, [])" by (simp add: refs_good_def)
  show "refs_mset (Map.empty, []) = {#}"
    by (rule multiset_eqI) (simp add: count_refs_mset [OF g] refs_count_def)
qed

text \<open>With task profiles that can always be set, the counts are the multiset of the threads.\<close>

interpretation tids: thread_registry refs_mset refs_good "fold (add_tid profiles_work)"
  "fold (remove_tid profiles_work)" refs_holds
  by unfold_locales
    (simp_all add: refs_good_add_fold refs_good_remove_fold refs_mset_add_fold refs_mset_remove_fold
      refs_holds_iff)

end
