(* ===== verification/PowerHal.thy ===== *)
theory PowerHal
  imports InteractionHandler PowerSessionManager
begin

text \<open>
  The binder service of the power HAL, \<open>src/aidl/power-libperfmgr/Power.cpp\<close>, and its vendor
  extension \<open>PowerExt.cpp\<close>. The enumerations \<open>Mode\<close> and \<open>Boost\<close> and their \<open>toString\<close> are generated
  from the Android interface and are not part of the repository: the enumerators that the code
  names are constructors here, all others are \<open>Mode_other\<close> and \<open>Boost_other\<close>, and \<open>toString\<close> is an
  argument. \<open>p_hints\<close> is the sequence of calls that this service makes on the hint manager; the
  interaction handler and the session manager record their own.
\<close>

section \<open>State\<close>

datatype Mode =
    LOW_POWER | SUSTAINED_PERFORMANCE | VR | LAUNCH | DOUBLE_TAP_TO_WAKE | FIXED_PERFORMANCE
  | EXPENSIVE_RENDERING | INTERACTIVE | DEVICE_IDLE | DISPLAY_INACTIVE
  | AUDIO_STREAMING_LOW_LATENCY | CAMERA_STREAMING_SECURE | CAMERA_STREAMING_LOW
  | CAMERA_STREAMING_MID | CAMERA_STREAMING_HIGH | Mode_other int

datatype Boost =
    INTERACTION | DISPLAY_UPDATE_IMMINENT | ML_ACC | AUDIO_LAUNCH | CAMERA_LAUNCH | CAMERA_SHOT
  | Boost_other int

record Power =
  mInteractionHandler :: InteractionHandler
  mVRModeOn :: bool
  mSustainedPerfModeOn :: bool
  mAdpfRateNs :: int
  p_hints :: "hint_call list"

section \<open>Operations\<close>

definition doHint :: "string \<Rightarrow> Power \<Rightarrow> Power" where
  "doHint h p = p\<lparr>p_hints := DoHint h # p_hints p\<rparr>"

definition doHintFor :: "string \<Rightarrow> int \<Rightarrow> Power \<Rightarrow> Power" where
  "doHintFor h ms p = p\<lparr>p_hints := DoHintFor h ms # p_hints p\<rparr>"

definition endHint :: "string \<Rightarrow> Power \<Rightarrow> Power" where
  "endHint h p = p\<lparr>p_hints := EndHint h # p_hints p\<rparr>"

text \<open>
  The constructor: \<open>ih\<close> is the freshly constructed and initialised interaction handler, the
  strings are the values of the three properties that restore the state after a restart.
\<close>

definition Power_new :: "InteractionHandler \<Rightarrow> int \<Rightarrow> string \<Rightarrow> string \<Rightarrow> string \<Rightarrow> Power" where
  "Power_new ih rate state audio rendering =
     (let p = \<lparr>mInteractionHandler = ih, mVRModeOn = False, mSustainedPerfModeOn = False,
               mAdpfRateNs = rate, p_hints = []\<rparr>;
          p = (if state = ''SUSTAINED_PERFORMANCE''
               then (doHint ''SUSTAINED_PERFORMANCE'' p)\<lparr>mSustainedPerfModeOn := True\<rparr>
               else if state = ''VR'' then (doHint state p)\<lparr>mVRModeOn := True\<rparr>
               else if state = ''VR_SUSTAINED_PERFORMANCE''
               then (doHint ''VR_SUSTAINED_PERFORMANCE'' p)\<lparr>mSustainedPerfModeOn := True, mVRModeOn := True\<rparr>
               else p);
          p = (if audio = ''AUDIO_STREAMING_LOW_LATENCY'' then doHint audio p else p);
          p = (if rendering = ''EXPENSIVE_RENDERING'' then doHint ''EXPENSIVE_RENDERING'' p else p)
      in p)"

definition setMode_default :: "string \<Rightarrow> bool \<Rightarrow> Power \<Rightarrow> Power" where
  "setMode_default name enabled p = (if enabled then doHint name p else endHint name p)"

definition setMode ::
  "(Mode \<Rightarrow> string) \<Rightarrow> Mode \<Rightarrow> bool \<Rightarrow> Power \<times> PowerSessionManager
     \<Rightarrow> ScopedAStatus \<times> Power \<times> PowerSessionManager" where
  "setMode toString type enabled pm =
     (let (p, m) = pm;
          m = updateHintMode (toString type) enabled m;
          p = (case type of
             LOW_POWER \<Rightarrow> if enabled then doHint (toString type) p else endHint (toString type) p
           | SUSTAINED_PERFORMANCE \<Rightarrow>
               if enabled \<and> \<not> mSustainedPerfModeOn p
               then (if \<not> mVRModeOn p then doHint ''SUSTAINED_PERFORMANCE'' p
                     else doHint ''VR_SUSTAINED_PERFORMANCE'' (endHint ''VR'' p))
                    \<lparr>mSustainedPerfModeOn := True\<rparr>
               else if \<not> enabled \<and> mSustainedPerfModeOn p
               then let p = endHint ''SUSTAINED_PERFORMANCE'' (endHint ''VR_SUSTAINED_PERFORMANCE'' p)
                    in (if mVRModeOn p then doHint ''VR'' p else p)\<lparr>mSustainedPerfModeOn := False\<rparr>
               else p
           | VR \<Rightarrow>
               if enabled \<and> \<not> mVRModeOn p
               then (if \<not> mSustainedPerfModeOn p then doHint ''VR'' p
                     else doHint ''VR_SUSTAINED_PERFORMANCE'' (endHint ''SUSTAINED_PERFORMANCE'' p))
                    \<lparr>mVRModeOn := True\<rparr>
               else if \<not> enabled \<and> mVRModeOn p
               then let p = endHint ''VR'' (endHint ''VR_SUSTAINED_PERFORMANCE'' p)
                    in (if mSustainedPerfModeOn p then doHint ''SUSTAINED_PERFORMANCE'' p else p)
                       \<lparr>mVRModeOn := False\<rparr>
               else p
           | LAUNCH \<Rightarrow>
               if mVRModeOn p \<or> mSustainedPerfModeOn p then p
               else setMode_default (toString type) enabled p
           | _ \<Rightarrow> setMode_default (toString type) enabled p)
      in (status_ok, p, m))"

definition isModeSupported :: "(Mode \<Rightarrow> string) \<Rightarrow> (string \<Rightarrow> bool) \<Rightarrow> Mode \<Rightarrow> bool" where
  "isModeSupported toString supported type =
     (case type of
        LOW_POWER \<Rightarrow> True
      | DOUBLE_TAP_TO_WAKE \<Rightarrow> True
      | INTERACTIVE \<Rightarrow> True
      | _ \<Rightarrow> supported (toString type))"

text \<open>\<open>cur\<close> is the time that \<open>Acquire\<close> reads from the clock.\<close>

definition setBoost ::
  "ih_config \<Rightarrow> (Boost \<Rightarrow> string) \<Rightarrow> timespec \<Rightarrow> Boost \<Rightarrow> int \<Rightarrow> Power \<Rightarrow> ScopedAStatus \<times> Power" where
  "setBoost cfg toString cur type durationMs p =
     (status_ok,
      case type of
        INTERACTION \<Rightarrow>
          if mVRModeOn p \<or> mSustainedPerfModeOn p then p
          else p\<lparr>mInteractionHandler := Acquire cfg (word_of_int durationMs) cur (mInteractionHandler p)\<rparr>
      | _ \<Rightarrow>
          if mVRModeOn p \<or> mSustainedPerfModeOn p then p
          else if durationMs > 0 then doHintFor (toString type) durationMs p
          else if durationMs = 0 then doHint (toString type) p
          else endHint (toString type) p)"

definition isBoostSupported :: "(Boost \<Rightarrow> string) \<Rightarrow> (string \<Rightarrow> bool) \<Rightarrow> Boost \<Rightarrow> bool" where
  "isBoostSupported toString supported type = supported (toString type)"

definition boolToString :: "bool \<Rightarrow> string" where
  "boolToString b = (if b then ''true'' else ''false'')"

text \<open>The text that \<open>dump\<close> writes after the nodes of the hint manager.\<close>

definition dump_text :: "bool \<Rightarrow> Power \<Rightarrow> string" where
  "dump_text running p =
     ''HintManager Running: '' @ boolToString running @ [CHR 0x0A] @
     ''VRMode: '' @ boolToString (mVRModeOn p) @ [CHR 0x0A] @
     ''SustainedPerformanceMode: '' @ boolToString (mSustainedPerfModeOn p) @ [CHR 0x0A]"

text \<open>A null session is returned with each error.\<close>

definition createHintSession ::
  "adpf_statics \<Rightarrow> int \<Rightarrow> int \<Rightarrow> int list \<Rightarrow> int \<Rightarrow> int \<Rightarrow> Power
     \<Rightarrow> ScopedAStatus \<times> (PowerHintSession \<times> session_effect list) option" where
  "createHintSession st tgid0 uid0 tids durationNanos now p =
     (if mAdpfRateNs p \<le> 0 then (fromExceptionCode EX_UNSUPPORTED_OPERATION, None)
      else if length tids = 0 then (fromExceptionCode EX_ILLEGAL_ARGUMENT, None)
      else (status_ok,
            Some (PowerHintSession_new st tgid0 uid0 tids durationNanos (mAdpfRateNs p) now)))"

definition getHintSessionPreferredRate :: "Power \<Rightarrow> ScopedAStatus \<times> int" where
  "getHintSessionPreferredRate p =
     (if mAdpfRateNs p \<le> 0 then (fromExceptionCode EX_UNSUPPORTED_OPERATION, mAdpfRateNs p)
      else (status_ok, mAdpfRateNs p))"

section \<open>The vendor extension\<close>

text \<open>The state of \<open>PowerExt\<close> is the sequence of its calls on the hint manager.\<close>

definition PowerExt_setMode ::
  "string \<Rightarrow> bool \<Rightarrow> hint_call list \<times> PowerSessionManager
     \<Rightarrow> ScopedAStatus \<times> hint_call list \<times> PowerSessionManager" where
  "PowerExt_setMode mode enabled em =
     (let (hints, m) = em;
          hints = (if enabled then DoHint mode # hints else EndHint mode # hints);
          m = updateHintMode mode enabled m
      in (status_ok, hints, m))"

definition PowerExt_isModeSupported :: "(string \<Rightarrow> bool) \<Rightarrow> string \<Rightarrow> bool" where
  "PowerExt_isModeSupported supported mode = supported mode"

definition PowerExt_setBoost :: "string \<Rightarrow> int \<Rightarrow> hint_call list \<Rightarrow> ScopedAStatus \<times> hint_call list" where
  "PowerExt_setBoost boost durationMs hints =
     (status_ok,
      if durationMs > 0 then DoHintFor boost durationMs # hints
      else if durationMs = 0 then DoHint boost # hints
      else EndHint boost # hints)"

definition PowerExt_isBoostSupported :: "(string \<Rightarrow> bool) \<Rightarrow> string \<Rightarrow> bool" where
  "PowerExt_isBoostSupported supported boost = supported boost"

section \<open>Step relation and specifications\<close>

text \<open>
  What the code relies on of the generated \<open>toString\<close>: the name of an enumerator is its spelling,
  so only the two modes below share a name with the hints that the code spells out.
\<close>

definition mode_hints :: "string set" where
  "mode_hints = {''VR'', ''SUSTAINED_PERFORMANCE'', ''VR_SUSTAINED_PERFORMANCE''}"

definition mode_names_ok :: "(Mode \<Rightarrow> string) \<Rightarrow> bool" where
  "mode_names_ok toString \<longleftrightarrow>
     (\<forall>type. type \<noteq> VR \<and> type \<noteq> SUSTAINED_PERFORMANCE \<longrightarrow> toString type \<notin> mode_hints)
     \<and> toString LAUNCH = ''LAUNCH''"

definition boost_names_ok :: "(Boost \<Rightarrow> string) \<Rightarrow> bool" where
  "boost_names_ok toString \<longleftrightarrow> (\<forall>type. toString type \<notin> mode_hints)"

text \<open>The calls of clients, on the service and the session manager.\<close>

inductive power_step ::
  "ih_config \<Rightarrow> (Mode \<Rightarrow> string) \<Rightarrow> (Boost \<Rightarrow> string) \<Rightarrow> Power \<times> PowerSessionManager
     \<Rightarrow> Power \<times> PowerSessionManager \<Rightarrow> bool"
  for cfg :: ih_config and modeName :: "Mode \<Rightarrow> string" and boostName :: "Boost \<Rightarrow> string" where
  power_setMode: "power_step cfg modeName boostName pm (snd (setMode modeName type enabled pm))"
| power_setBoost:
    "power_step cfg modeName boostName (p, m) (snd (setBoost cfg boostName cur type ms p), m)"
| power_worker:
    "ih_step cfg (mInteractionHandler p) ih \<Longrightarrow>
     power_step cfg modeName boostName (p, m) (p\<lparr>mInteractionHandler := ih\<rparr>, m)"

abbreviation power_start :: "Power \<times> PowerSessionManager \<Rightarrow> bool" where
  "power_start pm \<equiv> (\<exists>ih rate state audio rendering name.
     pm = (Power_new ih rate state audio rendering, PowerSessionManager_new name))"

text \<open>The hints that the two flags ask for.\<close>

definition mode_hints_match :: "Power \<Rightarrow> bool" where
  "mode_hints_match p \<longleftrightarrow>
     (hint_held ''VR'' (p_hints p) \<longleftrightarrow> mVRModeOn p \<and> \<not> mSustainedPerfModeOn p) \<and>
     (hint_held ''SUSTAINED_PERFORMANCE'' (p_hints p) \<longleftrightarrow> mSustainedPerfModeOn p \<and> \<not> mVRModeOn p) \<and>
     (hint_held ''VR_SUSTAINED_PERFORMANCE'' (p_hints p) \<longleftrightarrow> mVRModeOn p \<and> mSustainedPerfModeOn p)"

text \<open>The refresh rate that a sequence of mode changes leaves, newest first.\<close>

fun last_refresh :: "(string \<times> bool) list \<Rightarrow> int" where
  "last_refresh [] = 60"
| "last_refresh ((mode, enabled) # calls) =
     (if enabled \<and> mode = ''REFRESH_120FPS'' then 120
      else if enabled \<and> mode = ''REFRESH_90FPS'' then 90
      else if enabled \<and> mode = ''REFRESH_60FPS'' then 60
      else last_refresh calls)"

text \<open>Names for the witnesses.\<close>

definition example_mode_name :: "Mode \<Rightarrow> string" where
  "example_mode_name type =
     (if type = VR then ''VR'' else if type = SUSTAINED_PERFORMANCE then ''SUSTAINED_PERFORMANCE''
      else ''LAUNCH'')"

section \<open>Modes and hints\<close>

lemmas hint_op_defs = doHint_def doHintFor_def endHint_def setMode_default_def

lemma hint_op_simps [simp]:
  "mVRModeOn (doHint h p) = mVRModeOn p" "mSustainedPerfModeOn (doHint h p) = mSustainedPerfModeOn p"
  "mVRModeOn (endHint h p) = mVRModeOn p" "mSustainedPerfModeOn (endHint h p) = mSustainedPerfModeOn p"
  "mVRModeOn (doHintFor h ms p) = mVRModeOn p" "mSustainedPerfModeOn (doHintFor h ms p) = mSustainedPerfModeOn p"
  "p_hints (doHint h p) = DoHint h # p_hints p" "p_hints (endHint h p) = EndHint h # p_hints p"
  "p_hints (doHintFor h ms p) = DoHintFor h ms # p_hints p"
  by (simp_all add: hint_op_defs)

lemma mode_hints_match_new: "mode_hints_match (Power_new ih rate state audio rendering)"
  by (simp add: mode_hints_match_def Power_new_def Let_def)

lemma setMode_default_match:
  "name \<notin> mode_hints \<Longrightarrow> mode_hints_match (setMode_default name enabled p) = mode_hints_match p"
  by (simp add: mode_hints_match_def mode_hints_def setMode_default_def eq_commute [of name])

text \<open>Every other mode is one call with its own name, or none.\<close>

lemma setMode_other:
  "type \<noteq> VR \<Longrightarrow> type \<noteq> SUSTAINED_PERFORMANCE \<Longrightarrow>
   fst (snd (setMode toString type enabled (p, m))) \<in> {p, setMode_default (toString type) enabled p}"
  by (cases type) (simp_all add: setMode_def setMode_default_def)

lemma setMode_pair: "setMode toString type enabled (p, m) =
  (status_ok, fst (snd (setMode toString type enabled (p, m))), updateHintMode (toString type) enabled m)"
  by (simp add: setMode_def)

lemma mode_hints_match_setMode:
  assumes "mode_names_ok toString" "mode_hints_match p"
  shows "mode_hints_match (fst (snd (setMode toString type enabled (p, m))))"
proof -
  consider "type = VR" | "type = SUSTAINED_PERFORMANCE" | "type \<noteq> VR" "type \<noteq> SUSTAINED_PERFORMANCE"
    by blast
  then show ?thesis
  proof cases
    case 3
    then have "toString type \<notin> mode_hints" using assms(1) by (simp add: mode_names_ok_def)
    with setMode_other [OF 3, of toString enabled p m] assms(2) show ?thesis
      by (auto simp: setMode_default_match)
  qed (use assms(2) in \<open>simp_all add: setMode_def mode_hints_match_def Let_def\<close>)
qed

lemma mode_hints_match_cong:
  "p_hints p = p_hints q \<Longrightarrow> mVRModeOn p = mVRModeOn q \<Longrightarrow> mSustainedPerfModeOn p = mSustainedPerfModeOn q
   \<Longrightarrow> mode_hints_match p = mode_hints_match q"
  by (simp add: mode_hints_match_def)

lemma hint_other_match:
  assumes "name \<notin> mode_hints"
  shows "mode_hints_match (doHint name p) = mode_hints_match p" "mode_hints_match (endHint name p) = mode_hints_match p"
    "mode_hints_match (doHintFor name ms p) = mode_hints_match p"
  using setMode_default_match [OF assms, of True p] setMode_default_match [OF assms, of False p]
  by (simp_all add: setMode_default_def) (simp add: mode_hints_match_def)

lemma mode_hints_match_setBoost:
  assumes "boost_names_ok toString" "mode_hints_match p"
  shows "mode_hints_match (snd (setBoost cfg toString cur type ms p))"
proof -
  have nm: "toString b \<notin> mode_hints" for b using assms(1) by (simp add: boost_names_ok_def)
  show ?thesis
    using assms(2) by (cases type)
      (simp_all add: setBoost_def hint_other_match nm mode_hints_match_cong [of "_\<lparr>mInteractionHandler := _\<rparr>"])
qed

lemma mode_hints_match_step:
  assumes "mode_names_ok modeName" "boost_names_ok boostName"
    and "power_step cfg modeName boostName pm pm'" "mode_hints_match (fst pm)"
  shows "mode_hints_match (fst pm')"
  using assms(3,4)
proof (cases rule: power_step.cases)
  case (power_setMode type enabled)
  then show ?thesis using mode_hints_match_setMode [OF assms(1)] assms(4) by (cases pm) simp
next
  case (power_setBoost p cur type ms m)
  then show ?thesis using mode_hints_match_setBoost [OF assms(2)] assms(4) by simp
next
  case (power_worker p ih m)
  then show ?thesis using assms(4) by (simp add: mode_hints_match_def)
qed

text \<open>The invariant of the service, relative to the names that the interface generator gives.\<close>

interpretation power: invariant_system power_start "power_step cfg modeName boostName"
  "\<lambda>pm. mode_names_ok modeName \<and> boost_names_ok boostName \<longrightarrow> mode_hints_match (fst pm)"
  for cfg modeName boostName
proof unfold_locales
  show "power_start pm \<Longrightarrow> mode_names_ok modeName \<and> boost_names_ok boostName \<longrightarrow> mode_hints_match (fst pm)" for pm
    by (auto simp: mode_hints_match_new)
  show "mode_names_ok modeName \<and> boost_names_ok boostName \<longrightarrow> mode_hints_match (fst pm) \<Longrightarrow>
      power_step cfg modeName boostName pm pm' \<Longrightarrow>
      mode_names_ok modeName \<and> boost_names_ok boostName \<longrightarrow> mode_hints_match (fst pm')" for pm pm'
    using mode_hints_match_step by blast
qed

section \<open>Properties\<close>

lemma updateHintMode_rate:
  "mDisplayRefreshRate (updateHintMode mode enabled m) =
     (if enabled \<and> mode = ''REFRESH_120FPS'' then 120
      else if enabled \<and> mode = ''REFRESH_90FPS'' then 90
      else if enabled \<and> mode = ''REFRESH_60FPS'' then 60
      else mDisplayRefreshRate m)"
  by (cases "take 8 mode = ''REFRESH_''") (auto simp: updateHintMode_def)

lemma example_mode_name_ok: "mode_names_ok example_mode_name"
  by (auto simp: mode_names_ok_def mode_hints_def example_mode_name_def)

text \<open>
  C15. Over every sequence of mode changes, boosts and moves of the interaction handler, starting
  from any restored state, the hints for virtual reality and sustained performance are exactly
  those that the two flags ask for: VR alone, sustained performance alone, the combined hint, or
  none. No hint of the three is leaked or missing.
\<close>

theorem mode_hints_exact:
  assumes "reach power_start (power_step cfg modeName boostName) (p, m)"
    and "mode_names_ok modeName" "boost_names_ok boostName"
  shows "(hint_held ''VR'' (p_hints p) \<longleftrightarrow> mVRModeOn p \<and> \<not> mSustainedPerfModeOn p) \<and>
    (hint_held ''SUSTAINED_PERFORMANCE'' (p_hints p) \<longleftrightarrow> mSustainedPerfModeOn p \<and> \<not> mVRModeOn p) \<and>
    (hint_held ''VR_SUSTAINED_PERFORMANCE'' (p_hints p) \<longleftrightarrow> mVRModeOn p \<and> mSustainedPerfModeOn p)"
  using power.reach_invar [OF assms(1)] assms(2,3) by (simp add: mode_hints_match_def)

theorem mode_hints_exact_witness:
  "hint_held ''VR_SUSTAINED_PERFORMANCE'' (p_hints (fst (snd (setMode example_mode_name VR True
      (Power_new ih_example (-1) ''SUSTAINED_PERFORMANCE'' [] [], PowerSessionManager_new ''X'')))))"
proof -
  let ?R = "reach power_start (power_step ih_default_config example_mode_name (\<lambda>_. ''B''))"
  let ?pm = "(Power_new ih_example (-1) ''SUSTAINED_PERFORMANCE'' [] [], PowerSessionManager_new ''X'')"
  have "?R ?pm"
    by (rule reach.reach_start) blast
  then have "?R (snd (setMode example_mode_name VR True ?pm))"
    by (rule reach.reach_step) (rule power_step.power_setMode)
  then have r: "?R (fst (snd (setMode example_mode_name VR True ?pm)),
      snd (snd (setMode example_mode_name VR True ?pm)))" by simp
  have "boost_names_ok (\<lambda>_. ''B'')"
    by (simp add: boost_names_ok_def mode_hints_def)
  from mode_hints_exact [OF r example_mode_name_ok this] show ?thesis
    by (simp add: setMode_def Power_new_def Let_def)
qed

text \<open>
  A request to end the LAUNCH mode is lost while virtual reality or sustained performance is on:
  after LAUNCH on, VR on, LAUNCH off, VR off the LAUNCH hint is still held, and nothing in the
  service ends it before the next LAUNCH request.
\<close>

theorem launch_end_lost:
  assumes "mode_names_ok toString" "\<not> mVRModeOn p" "\<not> mSustainedPerfModeOn p"
  shows "let run = (\<lambda>(type, enabled) pm. snd (setMode toString type enabled pm));
             (p', m') = fold run [(LAUNCH, True), (VR, True), (LAUNCH, False), (VR, False)] (p, m)
         in hint_held ''LAUNCH'' (p_hints p') \<and> \<not> mVRModeOn p' \<and> \<not> mSustainedPerfModeOn p'"
  using assms by (simp add: mode_names_ok_def setMode_def setMode_default_def Let_def)

theorem launch_end_lost_witness:
  "hint_held ''LAUNCH'' (p_hints (fst (fold (\<lambda>(type, enabled) pm. snd (setMode example_mode_name type enabled pm))
      [(LAUNCH, True), (VR, True), (LAUNCH, False), (VR, False)]
      (Power_new ih_example (-1) [] [] [], PowerSessionManager_new ''X''))))"
  using launch_end_lost [OF example_mode_name_ok, of "Power_new ih_example (-1) [] [] []" "PowerSessionManager_new ''X''"]
  by (simp add: Power_new_def Let_def split_fst_snd)

text \<open>
  The display refresh rate after any sequence of mode changes is the one of the newest enabled
  refresh mode, and 60 when there was none; in particular it is always 60, 90 or 120.
\<close>

theorem refresh_rate_last:
  "getDisplayRefreshRate (foldr (\<lambda>(mode, enabled) m. updateHintMode mode enabled m) calls
      (PowerSessionManager_new name)) = last_refresh calls
   \<and> last_refresh calls \<in> {60, 90, 120}"
proof (induction calls)
  case Nil
  then show ?case by (simp add: getDisplayRefreshRate_def PowerSessionManager_new_def)
next
  case (Cons call calls)
  then show ?case
    by (cases call) (simp add: getDisplayRefreshRate_def updateHintMode_rate)
qed

end
