(* ===== verification/PowerService.thy ===== *)
theory PowerService
  imports PowerHal
begin

text \<open>
  The power service as a whole: the state that \<open>service.cpp\<close> sets up, and every way it moves. The
  binder pool of the process has one thread, so calls of clients are steps one after the other; the
  monitor thread delivers the messages of its looper between them. A step of a session applies the
  effects of the operation to the rest of the process: the session manager, the message queue and
  the system calls. The theory proves the invariants of the composition.
\<close>

section \<open>State\<close>

text \<open>
  \<open>w_sessions\<close> holds the session objects that exist, \<open>w_stale_msgs\<close> the sessions whose stale handler
  has a message in the queue of the looper (once per message), \<open>w_manager_msgs\<close> the number of
  messages for the session manager, and \<open>w_attrs\<close> the scheduler calls, newest first.
\<close>

record power_world =
  w_power :: Power
  w_manager :: PowerSessionManager
  w_running :: bool
  w_sessions :: "session_id \<rightharpoonup> PowerHintSession"
  w_stale_msgs :: "session_id list"
  w_manager_msgs :: nat
  w_attrs :: "(int \<times> sched_attr) list"

text \<open>
  \<open>main\<close>: the service object is made first; the monitor thread and the hint manager of the session
  manager are set up when the rate property is set, before the pool takes calls.
\<close>

definition PowerHintMonitor_start :: "power_world \<Rightarrow> power_world" where
  "PowerHintMonitor_start w = (if \<not> w_running w then w\<lparr>w_running := True\<rparr> else w)"

definition service_main :: "Power \<Rightarrow> string \<Rightarrow> (string \<Rightarrow> bool) \<Rightarrow> int \<Rightarrow> power_world" where
  "service_main p name supported rate =
     (let w = \<lparr>w_power = p, w_manager = PowerSessionManager_new name, w_running = False,
               w_sessions = Map.empty, w_stale_msgs = [], w_manager_msgs = 0, w_attrs = []\<rparr>
      in if rate \<noteq> -1
         then let w = PowerHintMonitor_start w in w\<lparr>w_manager := setHintManager supported (w_manager w)\<rparr>
         else w)"

section \<open>Effects of a session on the process\<close>

fun apply_effect ::
  "task_profiles \<Rightarrow> session_id \<Rightarrow> int list \<Rightarrow> session_effect \<Rightarrow> power_world \<Rightarrow> power_world" where
  "apply_effect sp i tids (SchedSetattr tid a) w = w\<lparr>w_attrs := (tid, a) # w_attrs w\<rparr>"
| "apply_effect sp i tids SendManagerMessage w = w\<lparr>w_manager_msgs := w_manager_msgs w + 1\<rparr>"
| "apply_effect sp i tids (SendStaleMessage delay) w = w\<lparr>w_stale_msgs := i # w_stale_msgs w\<rparr>"
| "apply_effect sp i tids RemoveStaleMessages w =
     w\<lparr>w_stale_msgs := filter (\<lambda>j. j \<noteq> i) (w_stale_msgs w)\<rparr>"
| "apply_effect sp i tids AddPowerSession w =
     w\<lparr>w_manager := addPowerSession sp i tids (w_manager w)\<rparr>"
| "apply_effect sp i tids RemovePowerSession w =
     w\<lparr>w_manager := removePowerSession sp i tids (w_manager w)\<rparr>"

definition run_session ::
  "task_profiles \<Rightarrow> session_id \<Rightarrow> PowerHintSession \<Rightarrow> session_effect list \<Rightarrow> power_world \<Rightarrow> power_world"
where
  "run_session sp i s effs w =
     fold (apply_effect sp i (getTidList s)) effs (w\<lparr>w_sessions := (w_sessions w)(i \<mapsto> s)\<rparr>)"

text \<open>The calls on an existing session, other than \<open>close\<close>.\<close>

definition session_call :: "adpf_statics \<Rightarrow> bool \<Rightarrow> PowerHintSession \<Rightarrow> session_result \<Rightarrow> bool" where
  "session_call st running s res \<longleftrightarrow>
     res = pause st s \<or> res = resume st s \<or> (\<exists>t. updateTargetWorkDuration st t s = Some res)
     \<or> (\<exists>now1 now2 ds. reportActualWorkDuration st running now1 now2 ds s = Some res)"

definition session_live :: "adpf_statics \<Rightarrow> int \<Rightarrow> power_world \<Rightarrow> session_id \<Rightarrow> bool" where
  "session_live st now w i =
     (case w_sessions w i of None \<Rightarrow> False | Some s \<Rightarrow> isActive s \<and> \<not> isStale st now s)"

section \<open>The step relation\<close>

text \<open>
  \<open>allowed\<close> says which behaviours of \<open>SetTaskProfiles\<close> are possible; when \<open>polite\<close> holds, clients
  make no call on a session that they have closed. The destructor closes the session and frees it.
\<close>

inductive world_step ::
  "adpf_statics \<Rightarrow> (task_profiles \<Rightarrow> bool) \<Rightarrow> bool \<Rightarrow> power_world \<Rightarrow> power_world \<Rightarrow> bool"
  for st :: adpf_statics and allowed :: "task_profiles \<Rightarrow> bool" and polite :: bool where
  w_create:
    "allowed sp \<Longrightarrow> w_sessions w i = None \<Longrightarrow> i \<notin> set (w_stale_msgs w) \<Longrightarrow>
     createHintSession st g u tids dur now (w_power w) = (r, Some (s, effs)) \<Longrightarrow>
     world_step st allowed polite w (run_session sp i s effs w)"
| w_call:
    "allowed sp \<Longrightarrow> w_sessions w i = Some s \<Longrightarrow> (polite \<longrightarrow> \<not> mSessionClosed s) \<Longrightarrow>
     session_call st (w_running w) s (r, s', effs) \<Longrightarrow>
     world_step st allowed polite w (run_session sp i s' effs w)"
| w_close:
    "allowed sp \<Longrightarrow> w_sessions w i = Some s \<Longrightarrow> close_session st s = (r, s', effs) \<Longrightarrow>
     world_step st allowed polite w (run_session sp i s' effs w)"
| w_destroy:
    "allowed sp \<Longrightarrow> w_sessions w i = Some s \<Longrightarrow> close_session st s = (r, s', effs) \<Longrightarrow>
     world_step st allowed polite w
       ((run_session sp i s' effs w)\<lparr>w_sessions := (w_sessions w)(i := None)\<rparr>)"
| w_stale:
    "allowed sp \<Longrightarrow> i \<in> set (w_stale_msgs w) \<Longrightarrow> w_sessions w i = Some s \<Longrightarrow>
     StaleHandler_handleMessage st now s = (s', effs) \<Longrightarrow>
     world_step st allowed polite w
       (run_session sp i s' effs (w\<lparr>w_stale_msgs := remove1 i (w_stale_msgs w)\<rparr>))"
| w_manage:
    "0 < w_manager_msgs w \<Longrightarrow>
     world_step st allowed polite w
       (w\<lparr>w_manager_msgs := w_manager_msgs w - 1,
          w_manager := PowerSessionManager_handleMessage (session_live st now w) (w_manager w)\<rparr>)"
| w_service:
    "power_step cfg modeName boostName (w_power w, w_manager w) (p, m) \<Longrightarrow>
     world_step st allowed polite w (w\<lparr>w_power := p, w_manager := m\<rparr>)"

abbreviation world_start :: "power_world \<Rightarrow> bool" where
  "world_start w \<equiv> (\<exists>p name supported rate. w = service_main p name supported rate)"

abbreviation world_reachable :: "adpf_statics \<Rightarrow> (task_profiles \<Rightarrow> bool) \<Rightarrow> bool \<Rightarrow> power_world \<Rightarrow> bool" where
  "world_reachable st allowed polite \<equiv> reach world_start (world_step st allowed polite)"

section \<open>Invariants\<close>

definition open_sessions :: "power_world \<Rightarrow> session_id set" where
  "open_sessions w = {i. \<exists>s. w_sessions w i = Some s \<and> \<not> mSessionClosed s}"

text \<open>The threads of the sessions that are open, with multiplicity.\<close>

definition open_tids :: "power_world \<Rightarrow> int multiset" where
  "open_tids w = (\<Sum>i \<in> open_sessions w. mset (getTidList (the (w_sessions w i))))"

definition levels_inv :: "power_world \<Rightarrow> bool" where
  "levels_inv w \<longleftrightarrow> (\<forall>i s. w_sessions w i = Some s \<longrightarrow> session_ok s)
     \<and> (\<forall>(tid, a) \<in> set (w_attrs w). effect_ok (SchedSetattr tid a))"

definition hint_inv :: "power_world \<Rightarrow> bool" where
  "hint_inv w \<longleftrightarrow> (let m = w_manager w in
     mHintManager m \<longrightarrow> (hint_held (kDisableBoostHintName m) (psm_hints m) \<longleftrightarrow> mActive m))"

definition sessions_inv :: "power_world \<Rightarrow> bool" where
  "sessions_inv w \<longleftrightarrow> finite (open_sessions w) \<and> mSessions (w_manager w) = open_sessions w"

definition refs_inv :: "power_world \<Rightarrow> bool" where
  "refs_inv w \<longleftrightarrow> (let r = (mTidRefCountMap (w_manager w), psm_profiles (w_manager w)) in
     refs_good r \<and> refs_mset r = open_tids w)"

text \<open>One message in the queue for each open session whose timer is being monitored.\<close>

definition stale_inv :: "power_world \<Rightarrow> bool" where
  "stale_inv w \<longleftrightarrow> (\<forall>i. count_list (w_stale_msgs w) i =
     (case w_sessions w i of
        None \<Rightarrow> 0
      | Some s \<Rightarrow> if \<not> mSessionClosed s \<and> mIsMonitoringStale (mStaleHandler s) then 1 else 0))"

text \<open>
  Effects that leave the registration and the removal of messages alone, and the number of messages
  that a list of effects sends to the stale handler.
\<close>

definition calm :: "session_effect \<Rightarrow> bool" where
  "calm e \<longleftrightarrow> e \<noteq> RemoveStaleMessages \<and> e \<noteq> AddPowerSession \<and> e \<noteq> RemovePowerSession"

definition is_stale_send :: "session_effect \<Rightarrow> bool" where
  "is_stale_send e \<longleftrightarrow> (case e of SendStaleMessage _ \<Rightarrow> True | _ \<Rightarrow> False)"

definition stale_sends :: "session_effect list \<Rightarrow> nat" where
  "stale_sends effs = length (filter is_stale_send effs)"

text \<open>How an operation may change what the rest of the process sees of a session.\<close>

definition quiet_change :: "PowerHintSession \<Rightarrow> PowerHintSession \<Rightarrow> session_effect list \<Rightarrow> bool" where
  "quiet_change s s' effs \<longleftrightarrow> list_all calm effs \<and> mSessionClosed s' = mSessionClosed s
     \<and> getTidList s' = getTidList s
     \<and> stale_sends effs = (if mIsMonitoringStale (mStaleHandler s') \<and> \<not> mIsMonitoringStale (mStaleHandler s) then 1 else 0)
     \<and> (mIsMonitoringStale (mStaleHandler s) \<longrightarrow> mIsMonitoringStale (mStaleHandler s'))"

abbreviation example_new :: "PowerHintSession \<times> session_effect list" where
  "example_new \<equiv> PowerHintSession_new default_statics 10 20 [30, 31] 16666666 16666666 0"

abbreviation example_start :: power_world where
  "example_start \<equiv> service_main (Power_new ih_example 16666666 [] [] []) ''ADPF'' (\<lambda>_. True) 16666666"

abbreviation example_world :: power_world where
  "example_world \<equiv> run_session profiles_work 0 (fst example_new) (snd example_new) example_start"

section \<open>Effects\<close>

lemma apply_effect_keeps [simp]:
  "w_sessions (apply_effect sp i tids e w) = w_sessions w"
  "w_power (apply_effect sp i tids e w) = w_power w"
  "w_running (apply_effect sp i tids e w) = w_running w"
  by (cases e; simp)+

lemma fold_effects_keeps [simp]:
  "w_sessions (fold (apply_effect sp i tids) effs w) = w_sessions w"
  "w_power (fold (apply_effect sp i tids) effs w) = w_power w"
  "w_running (fold (apply_effect sp i tids) effs w) = w_running w"
  by (induction effs arbitrary: w) simp_all

lemma run_session_keeps [simp]:
  "w_sessions (run_session sp i s effs w) = (w_sessions w)(i \<mapsto> s)"
  "w_power (run_session sp i s effs w) = w_power w"
  "w_running (run_session sp i s effs w) = w_running w"
  by (simp_all add: run_session_def)

lemma fold_effects_attrs:
  "list_all effect_ok effs \<Longrightarrow> \<forall>(tid, a) \<in> set (w_attrs w). effect_ok (SchedSetattr tid a) \<Longrightarrow>
   \<forall>(tid, a) \<in> set (w_attrs (fold (apply_effect sp i tids) effs w)). effect_ok (SchedSetattr tid a)"
proof (induction effs arbitrary: w)
  case (Cons e effs)
  have "\<forall>(tid, a) \<in> set (w_attrs (apply_effect sp i tids e w)). effect_ok (SchedSetattr tid a)"
    using Cons.prems by (cases e) auto
  with Cons show ?case by simp
qed simp

lemma fold_effects_calm:
  "list_all calm effs \<Longrightarrow> w_manager (fold (apply_effect sp i tids) effs w) = w_manager w
     \<and> w_stale_msgs (fold (apply_effect sp i tids) effs w) = replicate (stale_sends effs) i @ w_stale_msgs w"
proof (induction effs arbitrary: w)
  case (Cons e effs)
  then show ?case
    by (cases e) (auto simp: calm_def stale_sends_def is_stale_send_def replicate_app_Cons_same)
qed (simp add: stale_sends_def)

lemma run_session_calm:
  "list_all calm effs \<Longrightarrow> w_manager (run_session sp i s effs w) = w_manager w
     \<and> w_stale_msgs (run_session sp i s effs w) = replicate (stale_sends effs) i @ w_stale_msgs w"
  by (simp add: run_session_def fold_effects_calm)

section \<open>Effects of the operations\<close>

lemma setUclamp_calm:
  "list_all calm (snd (setUclamp st mn kMaxUclampValue s))"
  "stale_sends (snd (setUclamp st mn kMaxUclampValue s)) = 0"
  by (auto simp: setUclamp_effects list_all_iff calm_def stale_sends_def is_stale_send_def filter_empty_conv)

lemma stale_sends_simps [simp]:
  "stale_sends [] = 0" "stale_sends (xs @ ys) = stale_sends xs + stale_sends ys"
  "stale_sends (e # xs) = (if is_stale_send e then 1 else 0) + stale_sends xs"
  by (simp_all add: stale_sends_def)

lemma is_stale_send_simps [simp]:
  "is_stale_send (SendStaleMessage d)" "\<not> is_stale_send SendManagerMessage"
  "\<not> is_stale_send (SchedSetattr tid a)" "\<not> is_stale_send AddPowerSession"
  "\<not> is_stale_send RemovePowerSession" "\<not> is_stale_send RemoveStaleMessages"
  by (simp_all add: is_stale_send_def)

lemma calm_simps [simp]:
  "calm (SendStaleMessage d)" "calm SendManagerMessage" "calm (SchedSetattr tid a)"
  by (simp_all add: calm_def)

lemma setUclamp_fst_keeps [simp]:
  "mSessionClosed (fst (setUclamp st mn kMaxUclampValue s)) = mSessionClosed s"
  "mStaleHandler (fst (setUclamp st mn kMaxUclampValue s)) = mStaleHandler s"
  "threadIds (mDescriptor (fst (setUclamp st mn kMaxUclampValue s))) = threadIds (mDescriptor s)"
  by (simp_all add: setUclamp_session)

lemma pause_quiet: "pause st s = (r, s', effs) \<Longrightarrow> quiet_change s s' effs"
  by (auto simp: pause_def quiet_change_def split_fst_snd Let_def updateUniveralBoostMode_def setUclamp_calm
      getTidList_def split: if_splits)

lemma resume_quiet: "resume st s = (r, s', effs) \<Longrightarrow> quiet_change s s' effs"
  by (auto simp: resume_def quiet_change_def split_fst_snd Let_def updateUniveralBoostMode_def setUclamp_calm
      getTidList_def split: if_splits)

lemma updateTarget_quiet: "updateTargetWorkDuration st t s = Some (r, s', effs) \<Longrightarrow> quiet_change s s' effs"
  by (auto simp: updateTargetWorkDuration_def quiet_change_def bind_eq_Some_conv getTidList_def split: if_splits)

lemma updateStaleTimer_quiet:
  "quiet_change s (fst (updateStaleTimer st running now s)) (snd (updateStaleTimer st running now s))"
  by (simp add: updateStaleTimer_def quiet_change_def Let_def updateUniveralBoostMode_def getTidList_def)

lemma applyOutput_quiet: "applyOutput st outp s = Some (s', effs) \<Longrightarrow> quiet_change s s' effs"
proof -
  assume a: "applyOutput st outp s = Some (s', effs)"
  have "calm e \<and> \<not> is_stale_send e" if "e \<in> set effs" for e
    using applyOutput_effects [OF a that] by auto
  then have "list_all calm effs \<and> stale_sends effs = 0"
    by (simp add: list_all_iff stale_sends_def filter_empty_conv)
  then show ?thesis
    by (simp add: quiet_change_def applyOutput_SomeD(1) [OF a] getTidList_def)
qed

lemma quiet_change_trans:
  "quiet_change s s1 effs1 \<Longrightarrow> quiet_change s1 s2 effs2 \<Longrightarrow> quiet_change s s2 (effs1 @ effs2)"
  unfolding quiet_change_def
  by (cases "mIsMonitoringStale (mStaleHandler s)"; cases "mIsMonitoringStale (mStaleHandler s1)") simp_all

lemma quiet_change_desc:
  "threadIds (f (mDescriptor s)) = threadIds (mDescriptor s) \<Longrightarrow> quiet_change s (upd_desc f s) []"
  by (simp add: quiet_change_def getTidList_def)

lemma quiet_change_refl [simp]: "quiet_change s s []"
  by (simp add: quiet_change_def)

lemma report_quiet:
  assumes "reportActualWorkDuration st running now1 now2 ds s = Some (r, s', effs)"
  shows "quiet_change s s' effs"
  using assms
proof (cases rule: report_SomeD)
  case error
  then show ?thesis by (simp add: quiet_change_def)
next
  case (reported s1 s2 outp effs2)
  have "quiet_change s s1 []" using reported(4) by (simp add: quiet_change_desc)
  moreover have "quiet_change s1 s2 []" using report_pid_session [OF reported(5)] by (auto simp: quiet_change_desc)
  ultimately have "quiet_change s s2 []" using quiet_change_trans by fastforce
  from quiet_change_trans [OF quiet_change_trans [OF this updateStaleTimer_quiet] applyOutput_quiet [OF reported(6)]]
  show ?thesis by (simp add: reported(7))
qed

lemma report_monitors:
  assumes "reportActualWorkDuration st True now1 now2 ds s = Some (status_ok, s', effs)"
  shows "mIsMonitoringStale (mStaleHandler s')"
  using assms
proof (cases rule: report_SomeD)
  case (reported s1 s2 outp effs2)
  have "mIsMonitoringStale (mStaleHandler (fst (updateStaleTimer st True now2 s2)))"
    by (simp add: updateStaleTimer_def Let_def)
  then show ?thesis by (simp add: applyOutput_SomeD(1) [OF reported(6)])
qed simp

lemma session_callE:
  assumes "session_call st running s (r, s', effs)"
  obtains "pause st s = (r, s', effs)" | "resume st s = (r, s', effs)"
  | t where "updateTargetWorkDuration st t s = Some (r, s', effs)"
  | now1 now2 ds where "reportActualWorkDuration st running now1 now2 ds s = Some (r, s', effs)"
  using assms unfolding session_call_def by force

lemma session_call_quiet: "session_call st running s (r, s', effs) \<Longrightarrow> quiet_change s s' effs"
  by (erule session_callE) (erule pause_quiet resume_quiet updateTarget_quiet report_quiet)+

lemma session_call_ok:
  assumes "session_call st running s (r, s', effs)" "session_ok s"
  shows "session_ok s' \<and> list_all effect_ok effs"
  using assms(1)
proof (cases rule: session_callE)
  case 1
  then show ?thesis using pause_ok assms(2) by blast
next
  case 2
  then show ?thesis using resume_ok assms(2) by blast
next
  case (3 t)
  then show ?thesis using updateTargetWorkDuration_ok assms(2) by blast
next
  case (4 now1 now2 ds)
  then show ?thesis using report_ok assms(2) by blast
qed

lemma new_session_view:
  assumes "createHintSession st g u tids dur now p = (r, Some (s, effs))"
  shows "\<not> mSessionClosed s" "\<not> mIsMonitoringStale (mStaleHandler s)" "session_ok s" "list_all effect_ok effs"
    and "\<exists>effs'. effs = AddPowerSession # effs' \<and> list_all calm effs' \<and> stale_sends effs' = 0"
  using assms PowerHintSession_new_ok [of st g u tids dur "mAdpfRateNs p" now]
  by (auto simp: createHintSession_def PowerHintSession_new_def Let_def split_fst_snd setUclamp_calm split: if_splits)

lemma close_session_view:
  assumes "close_session st s = (r, s', effs)"
  shows "mSessionClosed s \<Longrightarrow> s' = s \<and> effs = []"
    and "\<not> mSessionClosed s \<Longrightarrow> mSessionClosed s' \<and> getTidList s' = getTidList s \<and>
      (\<exists>scheds. effs = RemoveStaleMessages # scheds @ [RemovePowerSession, SendManagerMessage]
         \<and> list_all calm scheds \<and> stale_sends scheds = 0)"
  using assms
  by (auto simp: close_session_def Let_def split_fst_snd updateUniveralBoostMode_def getTidList_def setUclamp_calm
      split: if_splits)

lemma stale_handler_view:
  assumes "StaleHandler_handleMessage st now s = (s', effs)"
  shows "mSessionClosed s' = mSessionClosed s" "getTidList s' = getTidList s" "list_all calm effs"
    and "mIsMonitoringStale (mStaleHandler s') \<and> mIsMonitoringStale (mStaleHandler s) \<and> stale_sends effs = 1
      \<or> \<not> mIsMonitoringStale (mStaleHandler s') \<and> stale_sends effs = 0
      \<or> \<not> mIsMonitoringStale (mStaleHandler s)"
  using assms
  by (auto simp: StaleHandler_handleMessage_def setStale_def Let_def split_fst_snd updateUniveralBoostMode_def
      getTidList_def setUclamp_calm split: if_splits)

lemma power_step_manager:
  assumes "power_step cfg modeName boostName (p, m) (p', m')"
  shows "\<exists>rate. m' = m\<lparr>mDisplayRefreshRate := rate\<rparr>"
proof -
  have u: "updateHintMode mode enabled m = m\<lparr>mDisplayRefreshRate := mDisplayRefreshRate (updateHintMode mode enabled m)\<rparr>"
    for mode enabled by (simp add: updateHintMode_def)
  from assms have "m' = m \<or> (\<exists>mode enabled. m' = updateHintMode mode enabled m)"
    by (cases rule: power_step.cases) (auto simp: setMode_def)
  then show ?thesis
  proof
    assume "m' = m"
    then have "m' = m\<lparr>mDisplayRefreshRate := mDisplayRefreshRate m\<rparr>" by simp
    then show ?thesis by (rule exI)
  next
    assume "\<exists>mode enabled. m' = updateHintMode mode enabled m"
    then obtain mode enabled where "m' = updateHintMode mode enabled m" by blast
    with u [of mode enabled] show ?thesis by (intro exI) (erule trans)
  qed
qed

lemma handleMessage_manager:
  "mSessions (PowerSessionManager_handleMessage live m) = mSessions m"
  "mTidRefCountMap (PowerSessionManager_handleMessage live m) = mTidRefCountMap m"
  "psm_profiles (PowerSessionManager_handleMessage live m) = psm_profiles m"
  by (simp_all add: PowerSessionManager_handleMessage_def isAnySessionActive_def disableSystemTopAppBoost_def
      enableSystemTopAppBoost_def Let_def)

lemma handleMessage_hint:
  fixes live :: "session_id \<Rightarrow> bool"
  assumes "mHintManager m \<longrightarrow> (hint_held (kDisableBoostHintName m) (psm_hints m) \<longleftrightarrow> mActive m)"
  defines "m' \<equiv> PowerSessionManager_handleMessage live m"
  shows "mHintManager m' \<longrightarrow> (hint_held (kDisableBoostHintName m') (psm_hints m') \<longleftrightarrow> mActive m')"
    and "mActive m' \<longleftrightarrow> (\<exists>i \<in> mSessions m. live i)"
    and "mHintManager m' = mHintManager m"
    and "kDisableBoostHintName m' = kDisableBoostHintName m"
  using assms(1) unfolding m'_def
  by (auto simp: PowerSessionManager_handleMessage_def isAnySessionActive_def disableSystemTopAppBoost_def
      enableSystemTopAppBoost_def Let_def)

lemma addRemove_hint [simp]:
  "mHintManager (addPowerSession sp i tids m) = mHintManager m"
  "kDisableBoostHintName (addPowerSession sp i tids m) = kDisableBoostHintName m"
  "psm_hints (addPowerSession sp i tids m) = psm_hints m" "mActive (addPowerSession sp i tids m) = mActive m"
  "mHintManager (removePowerSession sp i tids m) = mHintManager m"
  "kDisableBoostHintName (removePowerSession sp i tids m) = kDisableBoostHintName m"
  "psm_hints (removePowerSession sp i tids m) = psm_hints m" "mActive (removePowerSession sp i tids m) = mActive m"
  by (simp_all add: addPowerSession_def removePowerSession_def split_fst_snd)

lemma hint_inv_effects: "hint_inv (fold (apply_effect sp i tids) effs w) = hint_inv w"
proof (induction effs arbitrary: w)
  case (Cons e effs)
  have "hint_inv (apply_effect sp i tids e w) = hint_inv w" by (cases e) (simp_all add: hint_inv_def Let_def)
  with Cons show ?case by simp
qed simp

section \<open>The steps as the registration and the queue see them\<close>

lemma run_session_new:
  assumes "list_all calm effs" "stale_sends effs = 0"
  shows "w_manager (run_session sp i s (AddPowerSession # effs) w) = addPowerSession sp i (getTidList s) (w_manager w)"
    and "w_stale_msgs (run_session sp i s (AddPowerSession # effs) w) = w_stale_msgs w"
  using assms by (simp_all add: run_session_def fold_effects_calm)

lemma run_session_close:
  fixes sp :: task_profiles and i :: session_id and s :: PowerHintSession and w :: power_world
  assumes "list_all calm effs" "stale_sends effs = 0"
  defines "w' \<equiv> run_session sp i s (RemoveStaleMessages # effs @ [RemovePowerSession, SendManagerMessage]) w"
  shows "w_manager w' = removePowerSession sp i (getTidList s) (w_manager w)"
    and "w_stale_msgs w' = filter (\<lambda>j. j \<noteq> i) (w_stale_msgs w)"
  using assms by (simp_all add: run_session_def fold_effects_calm)

lemma world_step_views:
  assumes "world_step st allowed polite w w'"
  obtains (add) sp i s where "allowed sp" "w_sessions w i = None" "i \<notin> set (w_stale_msgs w)"
      "\<not> mSessionClosed s" "\<not> mIsMonitoringStale (mStaleHandler s)"
      "w_sessions w' = (w_sessions w)(i \<mapsto> s)"
      "w_manager w' = addPowerSession sp i (getTidList s) (w_manager w)" "w_stale_msgs w' = w_stale_msgs w"
  | (change) i s s' effs where "w_sessions w i = Some s" "polite \<longrightarrow> \<not> mSessionClosed s" "quiet_change s s' effs"
      "w_sessions w' = (w_sessions w)(i \<mapsto> s')" "w_manager w' = w_manager w"
      "w_stale_msgs w' = replicate (stale_sends effs) i @ w_stale_msgs w"
  | (stale) i s s' effs now where "i \<in> set (w_stale_msgs w)" "w_sessions w i = Some s"
      "StaleHandler_handleMessage st now s = (s', effs)"
      "w_sessions w' = (w_sessions w)(i \<mapsto> s')" "w_manager w' = w_manager w"
      "w_stale_msgs w' = replicate (stale_sends effs) i @ remove1 i (w_stale_msgs w)"
  | (remove) sp i s so where "allowed sp" "w_sessions w i = Some s" "\<not> mSessionClosed s"
      "\<forall>s'. so = Some s' \<longrightarrow> mSessionClosed s'" "w_sessions w' = (w_sessions w)(i := so)"
      "w_manager w' = removePowerSession sp i (getTidList s) (w_manager w)"
      "w_stale_msgs w' = filter (\<lambda>j. j \<noteq> i) (w_stale_msgs w)"
  | (free) i s so where "w_sessions w i = Some s" "mSessionClosed s" "so = None \<or> so = Some s"
      "w_sessions w' = (w_sessions w)(i := so)" "w_manager w' = w_manager w" "w_stale_msgs w' = w_stale_msgs w"
  | (same) "w_sessions w' = w_sessions w" "w_stale_msgs w' = w_stale_msgs w"
      "mSessions (w_manager w') = mSessions (w_manager w)"
      "mTidRefCountMap (w_manager w') = mTidRefCountMap (w_manager w)"
      "psm_profiles (w_manager w') = psm_profiles (w_manager w)"
  using assms
proof (cases rule: world_step.cases)
  case (w_create sp i g u tids dur now r s effs)
  obtain effs' where "effs = AddPowerSession # effs'" "list_all calm effs'" "stale_sends effs' = 0"
    using new_session_view(5) [OF w_create(5)] by blast
  then show ?thesis
    using w_create new_session_view(1,2) [OF w_create(5)] by (intro add [of sp i s]) (simp_all add: run_session_new)
next
  case (w_call sp i s r s' effs)
  have q: "quiet_change s s' effs" by (rule session_call_quiet [OF w_call(5)])
  then have "list_all calm effs" by (simp add: quiet_change_def)
  then show ?thesis using w_call q by (intro change [of i s s' effs]) (simp_all add: run_session_calm)
next
  case (w_close sp i s r s' effs)
  show ?thesis
  proof (cases "mSessionClosed s")
    case True
    then show ?thesis using w_close close_session_view(1) [OF w_close(4)]
      by (intro free [of i s "Some s"]) (simp_all add: run_session_def)
  next
    case False
    then obtain scheds where "effs = RemoveStaleMessages # scheds @ [RemovePowerSession, SendManagerMessage]"
      "list_all calm scheds" "stale_sends scheds = 0" "mSessionClosed s'" "getTidList s' = getTidList s"
      using close_session_view(2) [OF w_close(4)] by blast
    then show ?thesis
      using w_close False by (intro remove [of sp i s "Some s'"]) (simp_all add: run_session_close)
  qed
next
  case (w_destroy sp i s r s' effs)
  show ?thesis
  proof (cases "mSessionClosed s")
    case True
    then show ?thesis using w_destroy close_session_view(1) [OF w_destroy(4)]
      by (intro free [of i s None]) (simp_all add: run_session_def)
  next
    case False
    then obtain scheds where "effs = RemoveStaleMessages # scheds @ [RemovePowerSession, SendManagerMessage]"
      "list_all calm scheds" "stale_sends scheds = 0" "mSessionClosed s'" "getTidList s' = getTidList s"
      using close_session_view(2) [OF w_destroy(4)] by blast
    then show ?thesis
      using w_destroy False by (intro remove [of sp i s None]) (simp_all add: run_session_close)
  qed
next
  case (w_stale sp i s now s' effs)
  then show ?thesis using stale_handler_view(3) [OF w_stale(5)]
    by (intro stale [of i s now s' effs]) (simp_all add: run_session_calm)
next
  case (w_manage now)
  then show ?thesis by (intro same) (simp_all add: handleMessage_manager)
next
  case (w_service cfg modeName boostName p m)
  then show ?thesis using power_step_manager [OF w_service(2)] by (intro same) auto
qed

section \<open>The invariants hold\<close>

lemma open_sessions_upd:
  assumes "w_sessions w' = (w_sessions w)(i := so)"
  shows "open_sessions w' =
    (case so of None \<Rightarrow> open_sessions w - {i}
     | Some s \<Rightarrow> if mSessionClosed s then open_sessions w - {i} else insert i (open_sessions w))"
  using assms by (auto simp: open_sessions_def split: option.splits)

lemma open_tids_cong:
  assumes "open_sessions w' = open_sessions w"
    and "\<And>i. i \<in> open_sessions w \<Longrightarrow> getTidList (the (w_sessions w' i)) = getTidList (the (w_sessions w i))"
  shows "open_tids w' = open_tids w"
  unfolding open_tids_def assms(1) by (rule sum.cong) (simp_all add: assms(2))

lemma open_tids_insert:
  assumes "w_sessions w' = (w_sessions w)(i \<mapsto> s)" "\<not> mSessionClosed s" "i \<notin> open_sessions w"
    and "finite (open_sessions w)"
  shows "open_tids w' = open_tids w + mset (getTidList s)"
proof -
  have "open_sessions w' = insert i (open_sessions w)" using open_sessions_upd [OF assms(1)] assms(2) by simp
  then have "open_tids w' = mset (getTidList s) + (\<Sum>j \<in> open_sessions w. mset (getTidList (the (w_sessions w' j))))"
    using assms(1,3,4) by (simp add: open_tids_def)
  also have "(\<Sum>j \<in> open_sessions w. mset (getTidList (the (w_sessions w' j)))) = open_tids w"
    unfolding open_tids_def by (rule sum.cong) (use assms(1,3) in auto)
  finally show ?thesis by simp
qed

lemma open_tids_delete:
  assumes "w_sessions w' = (w_sessions w)(i := so)" "\<forall>s'. so = Some s' \<longrightarrow> mSessionClosed s'"
    and "w_sessions w i = Some s" "\<not> mSessionClosed s" "finite (open_sessions w)"
  shows "open_tids w = open_tids w' + mset (getTidList s)"
proof -
  have o: "open_sessions w' = open_sessions w - {i}" "i \<in> open_sessions w"
    using open_sessions_upd [OF assms(1)] assms(2-4) by (auto simp: open_sessions_def split: option.splits)
  have "open_tids w = mset (getTidList s) + (\<Sum>j \<in> open_sessions w - {i}. mset (getTidList (the (w_sessions w j))))"
    using sum.remove [OF assms(5) o(2), of "\<lambda>j. mset (getTidList (the (w_sessions w j)))"] assms(3) by (simp add: open_tids_def)
  also have "(\<Sum>j \<in> open_sessions w - {i}. mset (getTidList (the (w_sessions w j)))) = open_tids w'"
    unfolding open_tids_def o(1) by (rule sum.cong) (use assms(1) in auto)
  finally show ?thesis by simp
qed

lemma mSessions_simps [simp]:
  "mSessions (addPowerSession sp i tids m) = insert i (mSessions m)"
  "mSessions (removePowerSession sp i tids m) = mSessions m - {i}"
  by (simp_all add: addPowerSession_def removePowerSession_def split_fst_snd)

lemma sessions_inv_step: "sessions_inv w \<Longrightarrow> world_step st allowed polite w w' \<Longrightarrow> sessions_inv w'"
proof -
  assume inv: "sessions_inv w" and stp: "world_step st allowed polite w w'"
  from stp show ?thesis
  proof (cases rule: world_step_views)
    case (add sp i s)
    then show ?thesis using inv open_sessions_upd [OF add(6)] by (simp add: sessions_inv_def)
  next
    case (change i s s' effs)
    then have "open_sessions w' = open_sessions w"
      using open_sessions_upd [OF change(4)] by (auto simp: quiet_change_def open_sessions_def)
    then show ?thesis using inv change(5) by (simp add: sessions_inv_def)
  next
    case (stale i s s' effs now)
    then have "open_sessions w' = open_sessions w"
      using open_sessions_upd [OF stale(4)] stale_handler_view(1) [OF stale(3)] by (auto simp: open_sessions_def)
    then show ?thesis using inv stale(5) by (simp add: sessions_inv_def)
  next
    case (remove sp i s so)
    then show ?thesis using inv open_sessions_upd [OF remove(5)] by (simp add: sessions_inv_def split: option.splits)
  next
    case (free i s so)
    then have "open_sessions w' = open_sessions w"
      using open_sessions_upd [OF free(4)] by (auto simp: open_sessions_def)
    then show ?thesis using inv free(5) by (simp add: sessions_inv_def)
  next
    case same
    then show ?thesis using inv by (simp add: sessions_inv_def open_sessions_def)
  qed
qed

lemma addPowerSession_refs:
  "(mTidRefCountMap (addPowerSession sp i tids m), psm_profiles (addPowerSession sp i tids m)) =
   fold (add_tid sp) tids (mTidRefCountMap m, psm_profiles m)"
  by (simp add: addPowerSession_def split_fst_snd)

lemma removePowerSession_refs:
  "(mTidRefCountMap (removePowerSession sp i tids m), psm_profiles (removePowerSession sp i tids m)) =
   fold (remove_tid sp) tids (mTidRefCountMap m, psm_profiles m)"
  by (simp add: removePowerSession_def split_fst_snd)

lemma refs_inv_step:
  assumes "refs_inv w" "sessions_inv w" "world_step st (\<lambda>sp. sp = profiles_work) polite w w'"
  shows "refs_inv w'"
proof -
  have fin: "finite (open_sessions w)" using assms(2) by (simp add: sessions_inv_def)
  have g: "refs_good (mTidRefCountMap (w_manager w), psm_profiles (w_manager w))"
    and r: "refs_mset (mTidRefCountMap (w_manager w), psm_profiles (w_manager w)) = open_tids w"
    using assms(1) by (simp_all add: refs_inv_def Let_def)
  from assms(3) show ?thesis
  proof (cases rule: world_step_views)
    case (add sp i s)
    have "i \<notin> open_sessions w" using add(2) by (simp add: open_sessions_def)
    from open_tids_insert [OF add(6,4) this fin] show ?thesis
      using add(1,7) g r by (simp add: refs_inv_def addPowerSession_refs tids.good_register tids.registered_register)
  next
    case (change i s s' effs)
    then have "open_tids w' = open_tids w"
      using open_sessions_upd [OF change(4)]
      by (intro open_tids_cong) (auto simp: quiet_change_def open_sessions_def)
    then show ?thesis using change(5) g r by (simp add: refs_inv_def)
  next
    case (stale i s s' effs now)
    then have "open_tids w' = open_tids w"
      using open_sessions_upd [OF stale(4)] stale_handler_view(1,2) [OF stale(3)]
      by (intro open_tids_cong) (auto simp: open_sessions_def)
    then show ?thesis using stale(5) g r by (simp add: refs_inv_def)
  next
    case (remove sp i s so)
    from open_tids_delete [OF remove(5,4,2,3) fin] show ?thesis
      using remove(1,6) g r
      by (simp add: refs_inv_def removePowerSession_refs tids.good_deregister tids.registered_deregister)
  next
    case (free i s so)
    then have "open_tids w' = open_tids w"
      using open_sessions_upd [OF free(4)]
      by (intro open_tids_cong) (auto simp: open_sessions_def)
    then show ?thesis using free(5) g r by (simp add: refs_inv_def)
  next
    case same
    then have "open_tids w' = open_tids w" by (intro open_tids_cong) (simp_all add: open_sessions_def)
    then show ?thesis using same g r by (simp add: refs_inv_def)
  qed
qed

lemma count_list_replicate_append: "count_list (replicate n i @ xs) j = (if j = i then n else 0) + count_list xs j"
  by (induction n) auto

lemma count_list_remove1: "i \<in> set xs \<Longrightarrow> count_list (remove1 i xs) j = count_list xs j - (if j = i then 1 else 0)"
  by (induction xs) auto

lemma count_list_filter_neq: "count_list (filter (\<lambda>j. j \<noteq> i) xs) j = (if j = i then 0 else count_list xs j)"
  by (induction xs) auto

lemma stale_inv_step:
  assumes inv: "stale_inv w" and stp: "world_step st allowed True w w'"
  shows "stale_inv w'"
  using stp
proof (cases rule: world_step_views)
  case (add sp i s)
  then show ?thesis using inv by (auto simp: stale_inv_def)
next
  case (change i s s' effs)
  then show ?thesis using inv
    by (simp add: stale_inv_def count_list_replicate_append quiet_change_def)
next
  case (stale i s s' effs now)
  have "mIsMonitoringStale (mStaleHandler s) \<and> \<not> mSessionClosed s"
    using inv stale(1,2) unfolding stale_inv_def
    by (metis (mono_tags, lifting) count_list_0_iff option.simps(5))
  then show ?thesis using inv stale stale_handler_view [OF stale(3)]
    by (auto simp: stale_inv_def count_list_replicate_append count_list_remove1)
next
  case (remove sp i s so)
  then show ?thesis using inv
    by (auto simp: stale_inv_def count_list_filter_neq split: option.splits)
next
  case (free i s so)
  then show ?thesis using inv by (auto simp: stale_inv_def)
next
  case same
  then show ?thesis using inv by (simp add: stale_inv_def)
qed

lemma levels_inv_run:
  "levels_inv w \<Longrightarrow> session_ok s \<Longrightarrow> list_all effect_ok effs \<Longrightarrow> levels_inv (run_session sp i s effs w)"
  using fold_effects_attrs [of effs "w\<lparr>w_sessions := (w_sessions w)(i \<mapsto> s)\<rparr>" sp i "getTidList s"]
  by (simp add: levels_inv_def run_session_def)

lemma levels_inv_step:
  assumes inv: "levels_inv w" and stp: "world_step st allowed polite w w'"
  shows "levels_inv w'"
proof -
  have ok: "session_ok s" if "w_sessions w i = Some s" for i s using inv that by (auto simp: levels_inv_def)
  from stp show ?thesis
  proof (cases rule: world_step.cases)
    case (w_create sp i g u tids dur now r s effs)
    then show ?thesis using levels_inv_run [OF inv new_session_view(3,4) [OF w_create(5)]] by simp
  next
    case (w_call sp i s r s' effs)
    then show ?thesis using levels_inv_run [OF inv] session_call_ok [OF w_call(5) ok [OF w_call(3)]] by simp
  next
    case (w_close sp i s r s' effs)
    then show ?thesis using levels_inv_run [OF inv close_session_ok [OF w_close(4) ok [OF w_close(3)]]] by simp
  next
    case (w_destroy sp i s r s' effs)
    have "levels_inv (run_session sp i s' effs w)"
      by (rule levels_inv_run [OF inv close_session_ok [OF w_destroy(4) ok [OF w_destroy(3)]]])
    then show ?thesis using w_destroy(1) inv by (simp add: levels_inv_def)
  next
    case (w_stale sp i s now s' effs)
    have "levels_inv (w\<lparr>w_stale_msgs := remove1 i (w_stale_msgs w)\<rparr>)" using inv by (simp add: levels_inv_def)
    from levels_inv_run [OF this StaleHandler_handleMessage_ok [OF w_stale(5) ok [OF w_stale(4)]]]
    show ?thesis using w_stale(1) by simp
  next
    case (w_manage now)
    then show ?thesis using inv by (simp add: levels_inv_def)
  next
    case (w_service cfg modeName boostName p m)
    then show ?thesis using inv by (simp add: levels_inv_def)
  qed
qed

lemma hint_inv_run: "hint_inv (run_session sp i s effs w) = hint_inv w"
  by (simp add: run_session_def hint_inv_effects) (simp add: hint_inv_def)

lemma hint_inv_step:
  assumes inv: "hint_inv w" and stp: "world_step st allowed polite w w'"
  shows "hint_inv w'"
  using stp
proof (cases rule: world_step.cases)
  case (w_destroy sp i s r s' effs)
  have "hint_inv (run_session sp i s' effs w)" using inv by (simp add: hint_inv_run)
  then show ?thesis using w_destroy(1) by (simp add: hint_inv_def)
next
  case (w_stale sp i s now s' effs)
  then show ?thesis using inv by (simp add: hint_inv_run) (simp add: hint_inv_def)
next
  case (w_manage now)
  then show ?thesis
    using handleMessage_hint(1) [of "w_manager w" "session_live st now w"] inv by (simp add: hint_inv_def Let_def)
next
  case (w_service cfg modeName boostName p m)
  then show ?thesis using inv power_step_manager [OF w_service(2)] by (auto simp: hint_inv_def Let_def)
qed (use inv in \<open>simp_all add: hint_inv_run\<close>)

lemma service_main_inv:
  "levels_inv (service_main p name supported rate)" "hint_inv (service_main p name supported rate)"
  "sessions_inv (service_main p name supported rate)" "refs_inv (service_main p name supported rate)"
  "stale_inv (service_main p name supported rate)"
  using refs_empty
  by (simp_all add: service_main_def PowerHintMonitor_start_def levels_inv_def hint_inv_def sessions_inv_def refs_inv_def stale_inv_def
      open_sessions_def open_tids_def PowerSessionManager_new_def setHintManager_def Let_def)

interpretation world: invariant_system world_start "world_step st allowed polite"
  "\<lambda>w. levels_inv w \<and> hint_inv w \<and> sessions_inv w" for st allowed polite
  by unfold_locales (auto simp: service_main_inv intro: levels_inv_step hint_inv_step sessions_inv_step)

interpretation world_refs: invariant_system world_start "world_step st (\<lambda>sp. sp = profiles_work) polite"
  "\<lambda>w. refs_inv w \<and> sessions_inv w" for st polite
  by unfold_locales (auto simp: service_main_inv intro: refs_inv_step sessions_inv_step)

interpretation world_polite: invariant_system world_start "world_step st allowed True" stale_inv for st allowed
  by unfold_locales (auto simp: service_main_inv intro: stale_inv_step)

section \<open>Properties\<close>

text \<open>A service with one session, for the witnesses.\<close>

lemma example_world_reachable: "world_reachable default_statics (\<lambda>sp. sp = profiles_work) polite example_world"
proof -
  have "world_reachable default_statics (\<lambda>sp. sp = profiles_work) polite example_start"
    by (rule reach.reach_start) blast
  then show ?thesis
  proof (rule reach.reach_step)
    show "world_step default_statics (\<lambda>sp. sp = profiles_work) polite example_start example_world"
      by (rule world_step.w_create [where tids = "[30, 31]" and g = 10 and u = 20 and dur = 16666666 and now = 0
            and r = status_ok])
        (simp_all add: service_main_def PowerHintMonitor_start_def createHintSession_def Power_new_def Let_def)
  qed
qed

lemma example_start_sessions [simp]: "w_sessions example_start = Map.empty"
  by (simp add: service_main_def PowerHintMonitor_start_def Let_def)

lemma example_world_sessions: "w_sessions example_world = [0 \<mapsto> example_session]"
  by (simp add: service_main_def PowerHintMonitor_start_def Let_def)

lemma example_world_manager:
  "w_manager example_world = addPowerSession profiles_work 0 [30, 31] (w_manager example_start)"
  "w_stale_msgs example_world = []"
proof -
  obtain effs where "snd example_new = AddPowerSession # effs" "list_all calm effs" "stale_sends effs = 0"
    by (simp add: PowerHintSession_new_def Let_def split_fst_snd setUclamp_calm)
  then show "w_manager example_world = addPowerSession profiles_work 0 [30, 31] (w_manager example_start)"
    "w_stale_msgs example_world = []"
    by (simp_all add: run_session_new getTidList_def example_session_simps)
      (simp add: service_main_def PowerHintMonitor_start_def Let_def)
qed


text \<open>
  C6. Over every run of the service, every scheduler attribute that reaches the kernel has a minimum
  that is at most its maximum and a maximum of 1024, and the recorded level of every session is
  between 0 and 1024.
\<close>

theorem levels_in_range:
  assumes "world_reachable st allowed polite w"
  shows "(\<forall>(tid, a) \<in> set (w_attrs w). sched_util_min a \<le> sched_util_max a \<and> sched_util_max a = 1024)
    \<and> (\<forall>i s. w_sessions w i = Some s \<longrightarrow> 0 \<le> current_min (mDescriptor s) \<and> current_min (mDescriptor s) \<le> 1024)"
  using world.reach_invar [OF assms] by (auto simp: levels_inv_def session_ok_def kMaxUclampValue_def)

theorem levels_in_range_witness:
  "0 \<le> current_min (mDescriptor example_session) \<and> current_min (mDescriptor example_session) \<le> 1024"
  using levels_in_range [OF example_world_reachable, THEN conjunct2, rule_format, of 0 example_session] by simp

text \<open>
  C7. While the task profiles can be set, the reference counts are right over every run: a thread has
  the number of the occurrences it has in the lists of the open sessions, it is counted only while
  that number is positive, and exactly the counted threads are in the group whose clamps are reset.
\<close>

theorem tid_counts_exact:
  assumes "world_reachable st (\<lambda>sp. sp = profiles_work) polite w"
  shows "mTidRefCountMap (w_manager w) t =
      (if count (open_tids w) t = 0 then None else Some (int (count (open_tids w) t)))
    \<and> (in_reset_group t (psm_profiles (w_manager w)) \<longleftrightarrow> t \<in># open_tids w)"
proof -
  let ?r = "(mTidRefCountMap (w_manager w), psm_profiles (w_manager w))"
  have g: "refs_good ?r" and r: "refs_mset ?r = open_tids w"
    using world_refs.reach_invar [OF assms] by (simp_all add: refs_inv_def Let_def)
  have "count (open_tids w) t = refs_count ?r t"
    using count_refs_mset [OF g] r by simp
  moreover have "0 < n" if "mTidRefCountMap (w_manager w) t = Some n" for n
    using refs_good_pos [OF g] that by simp
  ultimately have "mTidRefCountMap (w_manager w) t =
      (if count (open_tids w) t = 0 then None else Some (int (count (open_tids w) t)))"
    by (cases "mTidRefCountMap (w_manager w) t") (auto simp: refs_count_def)
  moreover have "in_reset_group t (psm_profiles (w_manager w)) \<longleftrightarrow> t \<in># open_tids w"
    using tids.holds_iff [OF g, of t] r by (simp add: refs_holds_def)
  ultimately show ?thesis by blast
qed

theorem tid_counts_exact_witness:
  "count (open_tids example_world) 30 = 1 \<and> mTidRefCountMap (w_manager example_world) 30 = Some 1"
proof -
  have "open_sessions example_world = {0}"
    by (auto simp: open_sessions_def example_world_sessions example_session_simps split: if_splits)
  then have "open_tids example_world = mset [30, 31]"
    by (simp add: open_tids_def example_world_sessions getTidList_def example_session_simps)
  then show ?thesis using tid_counts_exact [OF example_world_reachable, of 30] by simp
qed



text \<open>
  C9. When the session manager handles a message, it leaves the hint that disables the boost of the
  top application held exactly when some open session is active and not stale, over every run of a
  service whose hint manager supports that hint.
\<close>

theorem boost_hint_exact:
  assumes "world_reachable st allowed polite w" "mHintManager (w_manager w)"
    and "m' = PowerSessionManager_handleMessage (session_live st now w) (w_manager w)"
  shows "hint_held (kDisableBoostHintName m') (psm_hints m') \<longleftrightarrow>
    (\<exists>i s. w_sessions w i = Some s \<and> \<not> mSessionClosed s \<and> isActive s \<and> \<not> isStale st now s)"
proof -
  have h: "mHintManager (w_manager w) \<longrightarrow>
      (hint_held (kDisableBoostHintName (w_manager w)) (psm_hints (w_manager w)) \<longleftrightarrow> mActive (w_manager w))"
    and s: "mSessions (w_manager w) = open_sessions w"
    using world.reach_invar [OF assms(1)] by (simp_all add: hint_inv_def sessions_inv_def Let_def)
  note H = handleMessage_hint [OF h, of "session_live st now w", folded assms(3)]
  have "hint_held (kDisableBoostHintName m') (psm_hints m') \<longleftrightarrow> (\<exists>i \<in> open_sessions w. session_live st now w i)"
    using H assms(2) s by simp
  also have "\<dots> \<longleftrightarrow> (\<exists>i s. w_sessions w i = Some s \<and> \<not> mSessionClosed s \<and> isActive s \<and> \<not> isStale st now s)"
    unfolding open_sessions_def session_live_def by (force split: option.splits)
  finally show ?thesis .
qed

theorem boost_hint_exact_witness:
  "hint_held ''ADPF'' (psm_hints
     (PowerSessionManager_handleMessage (session_live default_statics 1 example_world) (w_manager example_world)))"
proof -
  have hm: "mHintManager (w_manager example_world)" "kDisableBoostHintName (w_manager example_world) = ''ADPF''"
    by (simp_all add: example_world_manager)
      (simp_all add: service_main_def PowerHintMonitor_start_def setHintManager_def PowerSessionManager_new_def Let_def)
  have live: "\<not> mSessionClosed example_session" "isActive example_session" "\<not> isStale default_statics 1 example_session"
    by (simp_all add: example_session_simps isActive_def)
      (simp add: isStale_def getStaleTime_def PowerHintSession_new_def Let_def split_fst_snd setUclamp_session
        signed_divide_int_def, simp add: default_statics_def)
  have "w_sessions example_world 0 = Some example_session" by (simp add: example_world_sessions)
  with live have ex: "\<exists>i s. w_sessions example_world i = Some s \<and> \<not> mSessionClosed s \<and> isActive s
      \<and> \<not> isStale default_statics 1 s" by blast
  have "kDisableBoostHintName
      (PowerSessionManager_handleMessage (session_live default_statics 1 example_world) (w_manager example_world)) = ''ADPF''"
    using hm(2) by (simp add: PowerSessionManager_handleMessage_def isAnySessionActive_def
        disableSystemTopAppBoost_def enableSystemTopAppBoost_def Let_def)
  with boost_hint_exact [OF example_world_reachable hm(1) refl, of 1] ex show ?thesis by metis
qed

text \<open>
  C10. Without that discipline a handler can run on a freed session. There is a run of the service, with
  the default tunables, in which a client closes a session, reports on it and lets it go, and after
  which the queue holds a message for the stale handler of the session that no longer exists.
\<close>

theorem stale_message_outlives_session:
  "\<exists>w i. world_reachable default_statics (\<lambda>sp. sp = profiles_work) False w
     \<and> i \<in> set (w_stale_msgs w) \<and> w_sessions w i = None"
proof -
  let ?R = "world_reachable default_statics (\<lambda>sp. sp = profiles_work) False"
  obtain s1 effs1 where c: "close_session default_statics example_session = (status_ok, s1, effs1)"
    by (simp add: close_session_def example_session_simps Let_def split_fst_snd)
  then have s1: "s1 = upd_desc (\<lambda>d. d\<lparr>current_min := 0\<rparr>) (example_session\<lparr>mSessionClosed := True\<rparr>)"
    by (simp add: close_session_def example_session_simps Let_def split_fst_snd setUclamp_session)
  have sane: "sane_session s1"
    using example_session_sane by (simp add: s1 sane_session_def session_ok_def kMaxUclampValue_def)
  obtain s2 effs2 where r: "reportActualWorkDuration default_statics True 5 6 [20000000] s1 = Some (status_ok, s2, effs2)"
    using report_total [OF default_statics_sane sane, of "[20000000]" True 5 6]
    by (auto simp: sane_samples_def s1 example_session_simps)
  define w1 where "w1 = run_session profiles_work 0 s1 effs1 example_world"
  define w2 where "w2 = run_session profiles_work 0 s2 effs2 w1"
  have R1: "?R w1" unfolding w1_def
    by (rule reach.reach_step [OF example_world_reachable])
      (rule world_step.w_close [OF _ _ c]; simp add: example_world_sessions)
  have run: "w_running w1" by (simp add: w1_def service_main_def PowerHintMonitor_start_def Let_def)
  have "session_call default_statics (w_running w1) s1 (status_ok, s2, effs2)"
    using r run by (auto simp: session_call_def)
  then have R2: "?R w2" unfolding w2_def
    by (intro reach.reach_step [OF R1] world_step.w_call) (simp_all add: w1_def)
  have q: "quiet_change s1 s2 effs2" by (rule report_quiet [OF r])
  have "\<not> mIsMonitoringStale (mStaleHandler s1)"
    by (simp add: s1 PowerHintSession_new_def Let_def split_fst_snd)
  moreover have "mIsMonitoringStale (mStaleHandler s2)"
    using r by (rule report_monitors)
  ultimately have "w_stale_msgs w2 = 0 # w_stale_msgs w1"
    using q run_session_calm [of effs2 profiles_work 0 s2 w1] by (simp add: quiet_change_def w2_def)
  moreover have closed: "close_session default_statics s2 = (fromExceptionCode EX_ILLEGAL_STATE, s2, [])"
    using q by (simp add: close_session_def quiet_change_def s1)
  then have "?R ((run_session profiles_work 0 s2 [] w2)\<lparr>w_sessions := (w_sessions w2)(0 := None)\<rparr>)"
    by (intro reach.reach_step [OF R2] world_step.w_destroy [OF _ _ closed]) (simp_all add: w2_def)
  ultimately show ?thesis
    by (intro exI [of _ "(run_session profiles_work 0 s2 [] w2)\<lparr>w_sessions := (w_sessions w2)(0 := None)\<rparr>"] exI [of _ 0])
      (simp add: run_session_def)
qed

end
