(* ===== verification/HostTools.thy ===== *)
theory HostTools
  imports Prelude
begin

text \<open>
  What the image tools under \<open>src/dtbhtool\<close> share: the parts of the C library they use (number
  parsing and printing, string comparison on memory), the files and failures of the host, the
  routine \<open>load_file\<close> that two of the tools have a copy of, and stores into a buffer of the heap.
  Memory is a list of bytes; an access outside of its object is undefined and gives \<open>None\<close>.
\<close>

section \<open>Strings and memory\<close>

definition bytes_of :: "string \<Rightarrow> u8 list" where
  "bytes_of s = map of_char s"

text \<open>Storing bytes into a buffer, as \<open>memcpy(buf + off, bs, length bs)\<close>.\<close>

definition store_at :: "nat \<Rightarrow> u8 list \<Rightarrow> u8 list \<Rightarrow> u8 list option" where
  "store_at off bs buf =
     (if off + length bs \<le> length buf then Some (take off buf @ bs @ drop (off + length bs) buf)
      else None)"

text \<open>
  \<open>strcmp(mem, lit) == 0\<close> for a literal without zero bytes: the bytes are read up to the first
  difference or the terminator. Reading past the memory is undefined.
\<close>

fun strcmp_eq :: "u8 list \<Rightarrow> u8 list \<Rightarrow> bool option" where
  "strcmp_eq [] lit = None"
| "strcmp_eq (b # mem) [] = Some (b = 0)"
| "strcmp_eq (b # mem) (c # lit) = (if b \<noteq> c then Some False else strcmp_eq mem lit)"

text \<open>\<open>ntohl\<close> of the four bytes at a pointer.\<close>

fun read_be32 :: "u8 list \<Rightarrow> u32 option" where
  "read_be32 (a # b # c # d # _) =
     Some (push_bit 24 (ucast a) OR push_bit 16 (ucast b) OR push_bit 8 (ucast c) OR ucast d)"
| "read_be32 _ = None"

section \<open>Numbers\<close>

definition is_space :: "char \<Rightarrow> bool" where
  "is_space c \<longleftrightarrow> c \<in> {CHR '' '', CHR 0x09, CHR 0x0A, CHR 0x0B, CHR 0x0C, CHR 0x0D}"

definition digit_value :: "char \<Rightarrow> nat option" where
  "digit_value c = (let n = of_char c :: nat in
     if 48 \<le> n \<and> n \<le> 57 then Some (n - 48)
     else if 97 \<le> n \<and> n \<le> 122 then Some (n - 87)
     else if 65 \<le> n \<and> n \<le> 90 then Some (n - 55)
     else None)"

abbreviation is_digit :: "nat \<Rightarrow> char \<Rightarrow> bool" where
  "is_digit b c \<equiv> \<exists>d < b. digit_value c = Some d"

fun digits_value :: "nat \<Rightarrow> string \<Rightarrow> nat \<Rightarrow> nat" where
  "digits_value base [] acc = acc"
| "digits_value base (c # s) acc =
     (case digit_value c of
        Some d \<Rightarrow> if d < base then digits_value base s (acc * base + d) else acc
      | None \<Rightarrow> acc)"

definition split_sign :: "string \<Rightarrow> bool \<times> string" where
  "split_sign s =
     (case s of
        c # s' \<Rightarrow> if c = CHR ''-'' then (True, s') else if c = CHR ''+'' then (False, s') else (False, s)
      | [] \<Rightarrow> (False, []))"

text \<open>The prefix \<open>0x\<close> counts only in front of a hexadecimal digit; otherwise the number is the 0.\<close>

definition strip_0x :: "string \<Rightarrow> string" where
  "strip_0x s =
     (case s of
        z # x # d # r \<Rightarrow>
          if z = CHR ''0'' \<and> (x = CHR ''x'' \<or> x = CHR ''X'')
             \<and> (case digit_value d of Some v \<Rightarrow> v < 16 | None \<Rightarrow> False)
          then d # r else s
      | _ \<Rightarrow> s)"

text \<open>The magnitude and the sign that \<open>strtoul\<close>, \<open>strtol\<close> and \<open>atoi\<close> read.\<close>

definition scan_number :: "nat \<Rightarrow> string \<Rightarrow> bool \<times> nat" where
  "scan_number base s =
     (let (neg, s) = split_sign (dropWhile is_space s);
          s = (if base = 16 then strip_0x s else s)
      in (neg, digits_value base s 0))"

definition strtoul :: "nat \<Rightarrow> string \<Rightarrow> u64" where
  "strtoul base s =
     (let (neg, n) = scan_number base s in
      if n \<ge> 2 ^ 64 then - 1 else if neg then - of_nat n else of_nat n)"

definition strtol :: "nat \<Rightarrow> string \<Rightarrow> int" where
  "strtol base s =
     (let (neg, n) = scan_number base s; v = (if neg then - int n else int n) in
      if v > 2 ^ 63 - 1 then 2 ^ 63 - 1 else if v < - (2 ^ 63) then - (2 ^ 63) else v)"

text \<open>\<open>atoi\<close> is undefined when the value does not fit.\<close>

definition atoi :: "string \<Rightarrow> int option" where
  "atoi s = (let (neg, n) = scan_number 10 s in chk32 (if neg then - int n else int n))"

text \<open>The conversions \<open>%u\<close>, \<open>%x\<close>, \<open>%d\<close> and \<open>%08x\<close>.\<close>

definition show_u :: "u32 \<Rightarrow> string" where
  "show_u w = show_base 10 (unat w)"

definition show_x :: "u32 \<Rightarrow> string" where
  "show_x w = show_base 16 (unat w)"

definition show_d :: "u32 \<Rightarrow> string" where
  "show_d w = (if sint w < 0 then CHR ''-'' # show_base 10 (nat (- sint w)) else show_base 10 (nat (sint w)))"

definition show_08x :: "u32 \<Rightarrow> string" where
  "show_08x w = (let s = show_x w in replicate (8 - length s) (CHR ''0'') @ s)"

section \<open>The host\<close>

text \<open>
  The files and the directories that can be opened (with their entries in the order they are read),
  which names are directories for \<open>stat\<close>, which allocations succeed, which reads return all that was
  asked for, and whether the output can be created and the writes to it succeed (numbered from 0).
\<close>

record host =
  files :: "string \<rightharpoonup> u8 list"
  dirs :: "string \<rightharpoonup> string list"
  is_dir :: "string \<Rightarrow> bool"
  malloc_ok :: "nat \<Rightarrow> bool"
  read_ok :: "string \<Rightarrow> bool"
  create_ok :: "string \<Rightarrow> bool"
  write_ok :: "nat \<Rightarrow> bool"

text \<open>How a program ends: undefined behaviour, an exit status, or it goes on.\<close>

datatype 'a run = Undefined | Exits int | Goes 'a

text \<open>
  The offset that \<open>lseek\<close> returns is stored in an \<open>int\<close>, so a length of 4 GiB or more keeps only
  its low 32 bits. The size is returned as an unsigned number.
\<close>

definition load_file :: "host \<Rightarrow> string \<Rightarrow> (u8 list \<times> u32) option" where
  "load_file h fn =
     (case files h fn of
        None \<Rightarrow> None
      | Some bs \<Rightarrow>
          (let sz = to_int32 (int (length bs)) in
           if sz < 0 then None
           else if \<not> malloc_ok h (nat sz) then None
           else if \<not> read_ok h fn then None
           else Some (take (nat sz) bs, word_of_int sz)))"

text \<open>A host on which nothing fails.\<close>

definition good_host :: "(string \<rightharpoonup> u8 list) \<Rightarrow> (string \<rightharpoonup> string list) \<Rightarrow> host" where
  "good_host fs ds = \<lparr>files = fs, dirs = ds, is_dir = \<lambda>d. d \<in> dom ds, malloc_ok = \<lambda>_. True,
                       read_ok = \<lambda>_. True, create_ok = \<lambda>_. True,
                   write_ok = \<lambda>_. True\<rparr>"

text \<open>
  Writing a block: the kernel writes at most \<open>0x7ffff000\<close> bytes in one call, and the call may
  fail. \<open>k\<close> is the number of the call.
\<close>

definition write_all :: "host \<Rightarrow> nat \<Rightarrow> u8 list \<Rightarrow> bool" where
  "write_all h k bs \<longleftrightarrow> write_ok h k \<and> length bs \<le> 0x7ffff000"

section \<open>Lemmas on memory\<close>

lemma length_bytes_of [simp]: "length (bytes_of s) = length s"
  by (simp add: bytes_of_def)

text \<open>Storing behind what has been written so far in a zeroed buffer, possibly after a gap.\<close>

lemma store_at_zeros:
  assumes "length pre \<le> off" "off - length pre + length bs \<le> m"
  shows "store_at off bs (pre @ replicate m 0) =
    Some (pre @ replicate (off - length pre) 0 @ bs @ replicate (m - (off - length pre) - length bs) 0)"
proof -
  let ?g = "off - length pre"
  have "?g \<le> m" using assms by linarith
  then have g: "min ?g m = ?g" by simp
  have "take off (pre @ replicate m 0) = pre @ replicate ?g 0"
    using assms(1) g by (simp add: take_replicate)
  moreover have "drop (off + length bs) (pre @ replicate m 0) = replicate (m - ?g - length bs) 0"
    using assms by (simp add: drop_replicate)
  ultimately show ?thesis
    using assms by (simp add: store_at_def)
qed

lemma store_at_length: "store_at off bs buf = Some buf' \<Longrightarrow> length buf' = length buf"
  by (auto simp: store_at_def split: if_splits)

lemma strcmp_eq_iff:
  "0 \<notin> set lit \<Longrightarrow> strcmp_eq mem lit = Some True \<longleftrightarrow> (\<exists>rest. mem = lit @ 0 # rest)"
  by (induction mem lit rule: strcmp_eq.induct) auto

section \<open>Lemmas on numbers\<close>

lemma digit_value_char: "d < 16 \<Longrightarrow> digit_value (digit_char d) = Some d"
  by (simp add: digit_value_def digit_char_def Let_def of_char_of)

lemma digits_value_append:
  "list_all (is_digit b) s \<Longrightarrow> digits_value b (s @ t) acc = digits_value b t (digits_value b s acc)"
  by (induction s arbitrary: acc) auto

lemma show_base_digits: "b \<le> 16 \<Longrightarrow> 2 \<le> b \<Longrightarrow> list_all (is_digit b) (show_base b n)"
proof (induction b n rule: show_base.induct)
  case (1 b n)
  show ?case
  proof (cases "n < b")
    case True
    then show ?thesis using 1(2,3) by (simp add: show_base.simps digit_value_char)
  next
    case False
    have "list_all (is_digit b) (show_base b (n div b))" using 1(1) False 1(2,3) by simp
    moreover have "n mod b < b" using 1(3) by simp
    then have "is_digit b (digit_char (n mod b))"
      using 1(2) by (intro exI [of _ "n mod b"]) (simp add: digit_value_char)
    ultimately show ?thesis
      using False 1(2,3) by (simp add: show_base.simps [of b n])
  qed
qed

lemma digits_value_show_base: "b \<le> 16 \<Longrightarrow> 2 \<le> b \<Longrightarrow> digits_value b (show_base b n) 0 = n"
proof (induction b n rule: show_base.induct)
  case (1 b n)
  show ?case
  proof (cases "n < b")
    case True
    then show ?thesis using 1(2,3) by (simp add: show_base.simps digit_value_char)
  next
    case False
    have ih: "digits_value b (show_base b (n div b)) 0 = n div b" using 1(1) False 1(2,3) by simp
    have lt: "n mod b < b" using 1(3) by simp
    then have dv: "digit_value (digit_char (n mod b)) = Some (n mod b)"
      using 1(2) by (simp add: digit_value_char)
    show ?thesis
      using False 1(2,3) lt digits_value_append [OF show_base_digits [OF 1(2,3)], of "n div b" "[digit_char (n mod b)]" 0]
      by (simp add: show_base.simps [of b n] dv ih)
  qed
qed

lemma digits_value_zeros: "0 < b \<Longrightarrow> digits_value b (replicate k (CHR ''0'') @ s) 0 = digits_value b s 0"
  by (induction k) (simp_all add: digit_value_def)

text \<open>A string of hexadecimal digits has no spaces, no sign and no prefix to skip.\<close>

lemma scan_digits:
  assumes "list_all (is_digit 16) s"
  shows "scan_number 16 s = (False, digits_value 16 s 0)"
proof -
  have nx: "\<not> is_digit 16 (CHR ''x'')" "\<not> is_digit 16 (CHR ''X'')" "\<not> is_digit 16 (CHR ''-'')"
    "\<not> is_digit 16 (CHR ''+'')"
    by (simp_all add: digit_value_def)
  have sp: "\<not> is_space c" if "is_digit 16 c" for c
    using that by (auto simp: is_space_def digit_value_def)
  have "dropWhile is_space s = s"
    using assms sp by (cases s) simp_all
  moreover have "split_sign s = (False, s)"
  proof (cases s)
    case (Cons c r)
    then have "c \<noteq> CHR ''-''" "c \<noteq> CHR ''+''" using assms nx(3,4) by auto
    then show ?thesis by (simp add: split_sign_def Cons)
  qed (simp add: split_sign_def)
  moreover have "strip_0x s = s"
  proof (cases "\<exists>z x d r. s = z # x # d # r")
    case True
    then obtain z x d r where s: "s = z # x # d # r" by blast
    then have "x \<noteq> CHR ''x''" "x \<noteq> CHR ''X''" using assms nx(1,2) by auto
    then show ?thesis by (simp add: strip_0x_def s)
  qed (simp add: strip_0x_def split: list.splits)
  ultimately show ?thesis by (simp add: scan_number_def)
qed

lemma strtoul_show_08x: "strtoul 16 (show_08x w) = ucast w"
proof -
  let ?z = "replicate (8 - length (show_x w)) (CHR ''0'')"
  have "list_all (is_digit 16) (?z @ show_x w)"
    using show_base_digits [of 16 "unat w"] by (auto simp: show_x_def list_all_iff digit_value_def)
  then have "scan_number 16 (show_08x w) = (False, unat w)"
    using scan_digits [of "show_08x w"] digits_value_zeros [of 16 "8 - length (show_x w)" "show_x w"]
      digits_value_show_base [of 16 "unat w"]
    by (simp add: show_08x_def Let_def show_x_def)
  moreover have "unat w < 2 ^ 64" using unsigned_less [of w, where 'a = nat] by simp
  ultimately show ?thesis by (simp add: strtoul_def)
qed

section \<open>The contract of the tools\<close>

text \<open>
  What the image tools promise of the files: success writes one file, failure writes none and removes
  at most one. \<open>main\<close> gives the exit status and the files afterwards.
\<close>

locale image_tool =
  fixes main :: "host \<Rightarrow> string list \<Rightarrow> (int \<times> (string \<rightharpoonup> u8 list)) option"
  assumes success: "main h argv = Some (0, fs) \<Longrightarrow> \<exists>img bs. fs = (files h)(img \<mapsto> bs)"
    and failure: "main h argv = Some (st, fs) \<Longrightarrow> st \<noteq> 0 \<Longrightarrow> fs = files h \<or> (\<exists>img. fs = (files h)(img := None))"
begin

lemma others_kept: "main h argv = Some (st, fs) \<Longrightarrow> \<exists>img. \<forall>f. f \<noteq> img \<longrightarrow> fs f = files h f"
  using success [of h argv fs] failure [of h argv st fs] by (cases "st = 0") auto

lemma failure_adds_nothing: "main h argv = Some (st, fs) \<Longrightarrow> st \<noteq> 0 \<Longrightarrow> fs \<subseteq>\<^sub>m files h"
  using failure [of h argv st fs] by (auto simp: map_le_def split: if_splits)

end

end
