(* ===== verification/DtbImage.thy ===== *)
theory DtbImage
  imports HostTools "HOL-Library.Multiset"
begin

text \<open>
  The device tree image: \<open>load_dtbh_block\<close> of \<open>src/dtbhtool/dtbimg.c\<close>, which packs the device tree
  blobs of a directory behind a table of entries, the program \<open>mkdtbimg.c\<close> around it, and the
  program \<open>unpackdtbhimg.c\<close> that takes such an image apart. The functions of libfdt are arguments.
  \<open>qsort\<close> is modelled as a stable sort, which the C library of the host has.
\<close>

section \<open>Data\<close>

record dt_entry =
  chip :: u32
  platform :: u32
  subtype :: u32
  hw_rev :: u32
  hw_rev_end :: u32
  dt_offset :: u32
  dt_size :: u32
  space :: u32
  dt_blob_of :: nat

text \<open>A blob; the linked list of the code is a list, and an entry refers to a position in it.\<close>

record dt_blob =
  blob_size :: u32
  blob_offset :: u32
  payload :: "u8 list"

text \<open>
  What the code uses of libfdt. A property is the memory from its address on, or \<open>None\<close> for a null
  pointer, and a length that is a negative error code when the property is missing.
\<close>

record libfdt =
  fdt_check_header :: "u8 list \<Rightarrow> int"
  fdt_path_offset :: "u8 list \<Rightarrow> string \<Rightarrow> int"
  fdt_getprop :: "u8 list \<Rightarrow> int \<Rightarrow> string \<Rightarrow> u8 list option \<times> int"

definition DTBH_MAGIC :: "u8 list" where "DTBH_MAGIC = bytes_of ''DTBH''"
definition DTBH_VERSION :: u32 where "DTBH_VERSION = 2"
definition DTBH_PLATFORM :: "u8 list" where "DTBH_PLATFORM = bytes_of ''android''"
definition DTBH_SUBTYPE :: "u8 list" where "DTBH_SUBTYPE = bytes_of ''samsung''"
definition DTBH_PLATFORM_CODE :: u32 where "DTBH_PLATFORM_CODE = 0x000050a6"
definition DTBH_SUBTYPE_CODE :: u32 where "DTBH_SUBTYPE_CODE = 0x217584da"
definition DT_HEADER_PHYS_SIZE :: u32 where "DT_HEADER_PHYS_SIZE = 12"
definition DT_ENTRY_PHYS_SIZE :: u32 where "DT_ENTRY_PHYS_SIZE = 32"

section \<open>Sorting the entries\<close>

text \<open>The differences are unsigned and become an \<open>int\<close>.\<close>

definition dt_entry_cmp :: "dt_entry \<Rightarrow> dt_entry \<Rightarrow> int" where
  "dt_entry_cmp a b =
     (if chip a \<noteq> chip b then sint (chip a - chip b) else sint (hw_rev a - hw_rev b))"

fun cmp_insert :: "('a \<Rightarrow> 'a \<Rightarrow> int) \<Rightarrow> 'a \<Rightarrow> 'a list \<Rightarrow> 'a list" where
  "cmp_insert cmp x [] = [x]"
| "cmp_insert cmp x (y # ys) = (if cmp x y \<le> 0 then x # y # ys else y # cmp_insert cmp x ys)"

fun qsort :: "('a \<Rightarrow> 'a \<Rightarrow> int) \<Rightarrow> 'a list \<Rightarrow> 'a list" where
  "qsort cmp [] = []"
| "qsort cmp (x # xs) = cmp_insert cmp x (qsort cmp xs)"

section \<open>Reading a blob\<close>

text \<open>\<open>len % sizeof(uint32_t) != 0\<close>, where \<open>len\<close> is converted to an unsigned 64-bit number.\<close>

definition bad_cells :: "int \<Rightarrow> bool" where
  "bad_cells len \<longleftrightarrow> (word_of_int len :: u64) mod 4 \<noteq> 0"

text \<open>
  The checks on one blob. \<open>None\<close> is undefined behaviour, \<open>Some None\<close> a blob that is skipped, and
  otherwise the pointers to the chip and to the first and last hardware revision are returned.
\<close>

definition scan_dtb :: "libfdt \<Rightarrow> u8 list \<Rightarrow> (u8 list option \<times> u8 list option \<times> u8 list option) option option" where
  "scan_dtb fdt dtb =
     (if fdt_check_header fdt dtb \<noteq> 0 then Some None
      else let off = fdt_path_offset fdt dtb ''/'';
               (prop_chip, len) = fdt_getprop fdt dtb off ''model_info-chip''
      in if bad_cells len then Some None
      else let (prop_platform, len) = fdt_getprop fdt dtb off ''model_info-platform'' in
        do { mem \<leftarrow> prop_platform;
             same \<leftarrow> strcmp_eq mem DTBH_PLATFORM;
             if \<not> same then Some None
             else let (prop_subtype, len) = fdt_getprop fdt dtb off ''model_info-subtype'' in
               do { mem \<leftarrow> prop_subtype;
                    same \<leftarrow> strcmp_eq mem DTBH_SUBTYPE;
                    if \<not> same then Some None
                    else let (prop_hw_rev, len) = fdt_getprop fdt dtb off ''model_info-hw_rev'' in
                      if bad_cells len then Some None
                      else let (prop_hw_rev_end, len) = fdt_getprop fdt dtb off ''model_info-hw_rev_end'' in
                        if bad_cells len then Some None
                        else Some (Some (prop_chip, prop_hw_rev, prop_hw_rev_end)) } })"

text \<open>Reading the first cell of the three properties; a null pointer is undefined.\<close>

definition read_info :: "u8 list option \<times> u8 list option \<times> u8 list option \<Rightarrow> (u32 \<times> u32 \<times> u32) option" where
  "read_info props =
     (let (prop_chip, prop_hw_rev, prop_hw_rev_end) = props in
      do { m1 \<leftarrow> prop_chip; c \<leftarrow> read_be32 m1;
           m2 \<leftarrow> prop_hw_rev; r \<leftarrow> read_be32 m2;
           m3 \<leftarrow> prop_hw_rev_end; e \<leftarrow> read_be32 m3;
           Some (c, r, e) })"

section \<open>Collecting the blobs of a directory\<close>

record dtbh_acc =
  acc_blobs :: "dt_blob list"
  acc_entries :: "dt_entry list"
  acc_blob_sz :: u32
  acc_hdr_sz :: u32

definition ends_dtb :: "string \<Rightarrow> bool" where
  "ends_dtb name \<longleftrightarrow> \<not> (length name < 4 \<or> drop (length name - 4) name \<noteq> ''.dtb'')"

text \<open>\<open>snprintf\<close> into a buffer of \<open>PATH_MAX\<close> bytes.\<close>

definition dtb_fname :: "string \<Rightarrow> string \<Rightarrow> string" where
  "dtb_fname dtb_path name = take 4095 (dtb_path @ ''/'' @ name)"

definition new_entry :: "u32 \<Rightarrow> u32 \<Rightarrow> u32 \<Rightarrow> nat \<Rightarrow> dt_entry" where
  "new_entry c r e b =
     \<lparr>chip = c, platform = DTBH_PLATFORM_CODE, subtype = DTBH_SUBTYPE_CODE, hw_rev = r,
      hw_rev_end = e, dt_offset = 0, dt_size = 0, space = 0x20, dt_blob_of = b\<rparr>"

text \<open>The body for a blob that is kept. The header size grows by the whole table so far each time.\<close>

definition add_blob :: "u32 \<Rightarrow> u8 list \<Rightarrow> u32 \<Rightarrow> u32 \<times> u32 \<times> u32 \<Rightarrow> dtbh_acc \<Rightarrow> dtbh_acc" where
  "add_blob pagesize dtb dtb_sz info a =
     (let (c, r, e) = info;
          n = length (acc_entries a);
          entry_count = of_nat (n + 1) :: u32
      in a\<lparr>acc_blobs := acc_blobs a @ [\<lparr>blob_size = dtb_sz, blob_offset = 0, payload = dtb\<rparr>],
           acc_blob_sz := acc_blob_sz a + page_up pagesize dtb_sz,
           acc_entries := acc_entries a @ [new_entry c r e (length (acc_blobs a))],
           acc_hdr_sz := acc_hdr_sz a + entry_count * DT_ENTRY_PHYS_SIZE\<rparr>)"

fun dtb_loop :: "libfdt \<Rightarrow> host \<Rightarrow> string \<Rightarrow> u32 \<Rightarrow> string list \<Rightarrow> dtbh_acc \<Rightarrow> dtbh_acc run" where
  "dtb_loop fdt h dtb_path pagesize [] a = Goes a"
| "dtb_loop fdt h dtb_path pagesize (name # names) a =
     (if \<not> ends_dtb name then dtb_loop fdt h dtb_path pagesize names a
      else case load_file h (dtb_fname dtb_path name) of
             None \<Rightarrow> Exits 1
           | Some (dtb, dtb_sz) \<Rightarrow>
               (case scan_dtb fdt dtb of
                  None \<Rightarrow> Undefined
                | Some None \<Rightarrow> dtb_loop fdt h dtb_path pagesize names a
                | Some (Some props) \<Rightarrow>
                    if \<not> malloc_ok h 24 then Exits 1
                    else if \<not> malloc_ok h (40 * (length (acc_entries a) + 1)) then Exits 1
                    else case read_info props of
                           None \<Rightarrow> Undefined
                         | Some info \<Rightarrow>
                             dtb_loop fdt h dtb_path pagesize names (add_blob pagesize dtb dtb_sz info a)))"

section \<open>Building the image\<close>

fun place_blobs :: "u32 \<Rightarrow> u32 \<Rightarrow> dt_blob list \<Rightarrow> dt_blob list" where
  "place_blobs pagesize off [] = []"
| "place_blobs pagesize off (b # bs) =
     b\<lparr>blob_offset := off\<rparr> # place_blobs pagesize (off + page_up pagesize (blob_size b)) bs"

definition fill_entry :: "u32 \<Rightarrow> dt_blob list \<Rightarrow> dt_entry \<Rightarrow> dt_entry" where
  "fill_entry pagesize blobs e =
     e\<lparr>dt_offset := blob_offset (blobs ! dt_blob_of e),
       dt_size := page_up pagesize (blob_size (blobs ! dt_blob_of e))\<rparr>"

definition entry_bytes :: "dt_entry \<Rightarrow> u8 list" where
  "entry_bytes e = le32 (chip e) @ le32 (platform e) @ le32 (subtype e) @ le32 (hw_rev e)
     @ le32 (hw_rev_end e) @ le32 (dt_offset e) @ le32 (dt_size e) @ le32 (space e)"

fun store_entries :: "u32 \<Rightarrow> dt_entry list \<Rightarrow> u8 list \<Rightarrow> (u32 \<times> u8 list) option" where
  "store_entries off [] buf = Some (off, buf)"
| "store_entries off (e # es) buf = do {
     buf \<leftarrow> store_at (unat off) (entry_bytes e) buf;
     store_entries (off + DT_ENTRY_PHYS_SIZE) es buf }"

fun store_blobs :: "u32 \<Rightarrow> u32 \<Rightarrow> dt_blob list \<Rightarrow> u8 list \<Rightarrow> u8 list option" where
  "store_blobs pagesize off [] buf = Some buf"
| "store_blobs pagesize off (b # bs) buf = do {
     buf \<leftarrow> store_at (unat off) (payload b) buf;
     store_blobs pagesize (off + page_up pagesize (blob_size b)) bs buf }"

definition build_dtbh :: "u32 \<Rightarrow> u32 \<Rightarrow> dt_entry list \<Rightarrow> dt_blob list \<Rightarrow> u8 list \<Rightarrow> u8 list option" where
  "build_dtbh pagesize entry_count entries blobs buf = do {
     buf \<leftarrow> store_at 0 DTBH_MAGIC buf;
     buf \<leftarrow> store_at 4 (le32 DTBH_VERSION) buf;
     buf \<leftarrow> store_at 8 (le32 entry_count) buf;
     (off, buf) \<leftarrow> store_entries DT_HEADER_PHYS_SIZE entries buf;
     let off = off + (pagesize - (off AND (pagesize - 1)));
     store_blobs pagesize off blobs buf }"

text \<open>The part of \<open>load_dtbh_block\<close> after the directory has been read.\<close>

definition finish_dtbh :: "host \<Rightarrow> u32 \<Rightarrow> dtbh_acc \<Rightarrow> (u8 list \<times> u32) option run" where
  "finish_dtbh h pagesize a =
     (if length (acc_entries a) = 0 then Goes None
      else let hdr_sz = page_up pagesize (acc_hdr_sz a + 4);
               entries = qsort dt_entry_cmp (acc_entries a);
               blobs = place_blobs pagesize hdr_sz (acc_blobs a);
               entries = map (fill_entry pagesize blobs) entries;
               total = hdr_sz + acc_blob_sz a
      in if \<not> malloc_ok h (unat total) then Exits 1
         else case build_dtbh pagesize (of_nat (length entries)) entries blobs (replicate (unat total) 0) of
                None \<Rightarrow> Undefined
              | Some buf \<Rightarrow> Goes (Some (buf, total)))"

definition load_dtbh_block :: "libfdt \<Rightarrow> host \<Rightarrow> string \<Rightarrow> u32 \<Rightarrow> (u8 list \<times> u32) option run" where
  "load_dtbh_block fdt h dtb_path pagesize =
     (case dirs h dtb_path of
        None \<Rightarrow> Exits 1
      | Some names \<Rightarrow>
          (case dtb_loop fdt h dtb_path pagesize names
                  \<lparr>acc_blobs = [], acc_entries = [], acc_blob_sz = 0, acc_hdr_sz = DT_HEADER_PHYS_SIZE\<rparr> of
             Undefined \<Rightarrow> Undefined
           | Exits n \<Rightarrow> Exits n
           | Goes a \<Rightarrow> finish_dtbh h pagesize a))"

section \<open>The program mkdtbimg\<close>

record mkdtbimg_opts =
  dtimg :: "string option"
  dt_dir :: "string option"
  mk_pagesize :: u32

text \<open>
  The option loop takes two arguments at a time; the value of the last one may be the null pointer
  that ends the vector. An unknown argument must be a directory (\<open>stat_dir\<close> is \<open>stat\<close>), and the one
  after it is skipped.
\<close>

fun mkdtbimg_args :: "(string \<Rightarrow> bool) \<Rightarrow> string list \<Rightarrow> mkdtbimg_opts \<Rightarrow> mkdtbimg_opts run" where
  "mkdtbimg_args stat_dir [] o' = Goes o'"
| "mkdtbimg_args stat_dir [arg] o' =
     (if arg = ''--output'' \<or> arg = ''-o'' then Goes (o'\<lparr>dtimg := None\<rparr>)
      else if arg = ''--dt_dir'' then Goes (o'\<lparr>dt_dir := None\<rparr>)
      else if arg = ''-p'' then Goes o'
      else if arg = ''-s'' then Undefined
      else if \<not> stat_dir arg then Exits 1
      else Goes (o'\<lparr>dt_dir := Some arg\<rparr>))"
| "mkdtbimg_args stat_dir (arg # val # rest) o' =
     (if arg = ''--output'' \<or> arg = ''-o'' then mkdtbimg_args stat_dir rest (o'\<lparr>dtimg := Some val\<rparr>)
      else if arg = ''--dt_dir'' then mkdtbimg_args stat_dir rest (o'\<lparr>dt_dir := Some val\<rparr>)
      else if arg = ''-p'' then mkdtbimg_args stat_dir rest o'
      else if arg = ''-s'' then
        (let ps = word_of_int (strtol 10 val) in
         mkdtbimg_args stat_dir rest (o'\<lparr>mk_pagesize := if ps = 0 then 2048 else ps\<rparr>))
      else if \<not> stat_dir arg then Exits 1
      else mkdtbimg_args stat_dir rest (o'\<lparr>dt_dir := Some arg\<rparr>))"

text \<open>The exit status and the files afterwards; \<open>None\<close> is undefined behaviour.\<close>

definition mkdtbimg_main ::
  "libfdt \<Rightarrow> host \<Rightarrow> string list \<Rightarrow> (int \<times> (string \<rightharpoonup> u8 list)) option" where
  "mkdtbimg_main fdt h argv =
     (case mkdtbimg_args (is_dir h) argv \<lparr>dtimg = None, dt_dir = None, mk_pagesize = 0\<rparr> of
        Undefined \<Rightarrow> None
      | Exits n \<Rightarrow> Some (n, files h)
      | Goes o' \<Rightarrow>
          (case (dtimg o', dt_dir o') of
             (Some img, Some dir) \<Rightarrow>
               (case load_dtbh_block fdt h dir (mk_pagesize o') of
                  Undefined \<Rightarrow> None
                | Exits n \<Rightarrow> Some (n, files h)
                | Goes None \<Rightarrow> Some (1, files h)
                | Goes (Some (dt_data, dt_sz)) \<Rightarrow>
                    if \<not> create_ok h img then Some (1, files h)
                    else if \<not> write_all h 0 dt_data then Some (1, (files h)(img := None))
                    else Some (0, (files h)(img \<mapsto> dt_data)))
           | _ \<Rightarrow> Some (1, files h)))"

section \<open>The program unpackdtbhimg\<close>

record unpack_opts =
  dtbhimg :: "string option"
  output_dir :: "string option"
  page_size :: int

fun unpack_args :: "string list \<Rightarrow> unpack_opts \<Rightarrow> unpack_opts option" where
  "unpack_args [] o' = Some o'"
| "unpack_args [arg] o' =
     (if arg = ''--input'' \<or> arg = ''-i'' then Some (o'\<lparr>dtbhimg := None\<rparr>)
      else if arg = ''--output'' \<or> arg = ''-o'' then Some (o'\<lparr>output_dir := None\<rparr>)
      else if arg = ''--pagesize'' \<or> arg = ''-p'' then None
      else Some o')"
| "unpack_args (arg # val # rest) o' =
     (if arg = ''--input'' \<or> arg = ''-i'' then unpack_args rest (o'\<lparr>dtbhimg := Some val\<rparr>)
      else if arg = ''--output'' \<or> arg = ''-o'' then unpack_args rest (o'\<lparr>output_dir := Some val\<rparr>)
      else if arg = ''--pagesize'' \<or> arg = ''-p'' then
        (case atoi val of None \<Rightarrow> None | Some n \<Rightarrow> unpack_args rest (o'\<lparr>page_size := n\<rparr>))
      else unpack_args rest o')"

text \<open>The entry at a position of the table; reading behind the header that was loaded is undefined.\<close>

definition read_entry :: "u8 list \<Rightarrow> nat \<Rightarrow> dt_entry option" where
  "read_entry header i =
     (let p = (\<lambda>k. read_le32 (drop (12 + 32 * i + 4 * k) header)) in
      do { c \<leftarrow> p 0; pl \<leftarrow> p 1; st \<leftarrow> p 2; r \<leftarrow> p 3; e \<leftarrow> p 4; off \<leftarrow> p 5; sz \<leftarrow> p 6; sp \<leftarrow> p 7;
           Some \<lparr>chip = c, platform = pl, subtype = st, hw_rev = r, hw_rev_end = e,
                 dt_offset = off, dt_size = sz, space = sp, dt_blob_of = 0\<rparr> })"

text \<open>\<open>snprintf\<close> into a buffer of \<open>DT_NAME_LEN + strlen(output_dir)\<close> bytes.\<close>

definition dest_file :: "string \<Rightarrow> dt_entry \<Rightarrow> string" where
  "dest_file dir e =
     take (length dir + 63)
       (dir @ ''/chip'' @ show_u (chip e) @ ''-0x'' @ show_x (platform e) @ ''-0x'' @ show_x (subtype e)
        @ ''_rev'' @ show_u (hw_rev e) @ ''-'' @ show_u (hw_rev_end e) @ ''.dtb'')"

text \<open>\<open>dump_dtb\<close>: the destination is left alone when it cannot be opened.\<close>

definition dump_dtb :: "host \<Rightarrow> u8 list \<Rightarrow> string \<Rightarrow> (string \<rightharpoonup> u8 list) \<Rightarrow> (string \<rightharpoonup> u8 list)" where
  "dump_dtb h buffer dest fs = (if create_ok h dest then fs(dest \<mapsto> buffer) else fs)"

text \<open>
  The loop over the entries. The image is the open input, which no output replaces. When the input
  ends before the blob does, the rest of the buffer is uninitialised memory that is written to the
  output: that is \<open>None\<close>, as is a buffer that could not be allocated.
\<close>

fun unpack_loop ::
  "host \<Rightarrow> string \<Rightarrow> u8 list \<Rightarrow> u8 list \<Rightarrow> nat \<Rightarrow> nat \<Rightarrow> (string \<rightharpoonup> u8 list) \<Rightarrow> (string \<rightharpoonup> u8 list) option" where
  "unpack_loop h dir img header i 0 fs = Some fs"
| "unpack_loop h dir img header i (Suc n) fs =
     (case read_entry header i of
        None \<Rightarrow> None
      | Some e \<Rightarrow>
          (let off = unat (dt_offset e); sz = unat (dt_size e) in
           if sz \<noteq> 0 \<and> (\<not> malloc_ok h sz \<or> length img < off + sz) then None
           else unpack_loop h dir img header (i + 1) n
                  (dump_dtb h (take sz (drop off img)) (dest_file dir e) fs)))"

text \<open>The program after its options; the status and the files, or \<open>None\<close> for undefined behaviour.\<close>

definition unpack_image ::
  "host \<Rightarrow> string \<Rightarrow> string \<Rightarrow> int \<Rightarrow> (int \<times> (string \<rightharpoonup> u8 list)) option" where
  "unpack_image h inp dir ps =
     (case files h inp of
        None \<Rightarrow> Some (1, files h)
      | Some img \<Rightarrow>
          (let n = unat (word_of_int ps :: u64) in
           if \<not> malloc_ok h n then Some (1, files h)
           else if n = 0 \<or> length img < n \<or> \<not> read_ok h inp then Some (1, files h)
           else let header = take n img in
             do { version \<leftarrow> read_le32 (drop 4 header);
                  entry_count \<leftarrow> read_le32 (drop 8 header);
                  fs \<leftarrow> unpack_loop h dir img header 0 (unat entry_count) (files h);
                  Some (0, fs) }))"

definition unpackdtbhimg_main :: "host \<Rightarrow> string list \<Rightarrow> (int \<times> (string \<rightharpoonup> u8 list)) option" where
  "unpackdtbhimg_main h argv =
     (case unpack_args argv \<lparr>dtbhimg = None, output_dir = None, page_size = 2048\<rparr> of
        None \<Rightarrow> None
      | Some o' \<Rightarrow>
          (case (dtbhimg o', output_dir o') of
             (Some inp, Some dir) \<Rightarrow> unpack_image h inp dir (page_size o')
           | _ \<Rightarrow> Some (1, files h)))"

section \<open>The image in closed form\<close>

text \<open>
  A reference definition of the image, over natural numbers and without a buffer: the blobs that are
  kept in the order of the directory, the table with the offsets from the reserved header size on,
  and the blobs padded to pages from the first page boundary behind the table on.
\<close>

type_synonym kept = "u8 list \<times> u32 \<times> u32 \<times> u32"

fun kept_dtbs :: "libfdt \<Rightarrow> host \<Rightarrow> string \<Rightarrow> string list \<Rightarrow> kept list option" where
  "kept_dtbs fdt h path [] = Some []"
| "kept_dtbs fdt h path (name # names) =
     (if \<not> ends_dtb name then kept_dtbs fdt h path names
      else do { (dtb, sz) \<leftarrow> load_file h (dtb_fname path name);
                r \<leftarrow> scan_dtb fdt dtb;
                case r of
                  None \<Rightarrow> kept_dtbs fdt h path names
                | Some props \<Rightarrow> do { info \<leftarrow> read_info props;
                                    ks \<leftarrow> kept_dtbs fdt h path names;
                                    Some ((dtb, info) # ks) } })"

definition pad_blob :: "nat \<Rightarrow> u8 list \<Rightarrow> u8 list" where
  "pad_blob p bs = bs @ replicate (page_up_nat p (length bs) - length bs) 0"

definition reserved_hdr :: "nat \<Rightarrow> nat \<Rightarrow> nat" where
  "reserved_hdr p n = page_up_nat p (16 + 16 * n * (n + 1))"

definition data_start :: "nat \<Rightarrow> nat \<Rightarrow> nat" where
  "data_start p n = 12 + 32 * n + (p - (12 + 32 * n) mod p)"

fun spec_entries :: "nat \<Rightarrow> nat \<Rightarrow> nat \<Rightarrow> kept list \<Rightarrow> dt_entry list" where
  "spec_entries p off i [] = []"
| "spec_entries p off i ((d, c, r, e) # ks) =
     (new_entry c r e i)\<lparr>dt_offset := of_nat off, dt_size := of_nat (page_up_nat p (length d))\<rparr>
       # spec_entries p (off + page_up_nat p (length d)) (i + 1) ks"

definition dtbh_table :: "nat \<Rightarrow> kept list \<Rightarrow> dt_entry list" where
  "dtbh_table p ks = qsort dt_entry_cmp (spec_entries p (reserved_hdr p (length ks)) 0 ks)"

definition blob_area :: "nat \<Rightarrow> kept list \<Rightarrow> u8 list" where
  "blob_area p ks = concat (map (pad_blob p \<circ> fst) ks)"

definition dtbh_image :: "nat \<Rightarrow> kept list \<Rightarrow> u8 list" where
  "dtbh_image p ks =
     (let n = length ks; s = data_start p n; r = reserved_hdr p n in
      DTBH_MAGIC @ le32 DTBH_VERSION @ le32 (of_nat n) @ concat (map entry_bytes (dtbh_table p ks))
      @ replicate (s - (12 + 32 * n)) 0 @ blob_area p ks @ replicate (r - s) 0)"

section \<open>Lemmas\<close>

subsection \<open>Sorting\<close>

lemma mset_cmp_insert: "mset (cmp_insert cmp x xs) = add_mset x (mset xs)"
  by (induction xs) auto

lemma mset_qsort [simp]: "mset (qsort cmp xs) = mset xs"
  by (induction xs) (auto simp: mset_cmp_insert)

lemma length_qsort [simp]: "length (qsort cmp xs) = length xs"
  by (metis mset_qsort size_mset)

lemma set_qsort [simp]: "set (qsort cmp xs) = set xs"
  by (metis mset_qsort set_mset_mset)

lemma cmp_insert_map:
  "(\<And>a b. cmp (f a) (f b) = cmp a b) \<Longrightarrow> cmp_insert cmp (f x) (map f xs) = map f (cmp_insert cmp x xs)"
  by (induction xs) auto

lemma qsort_map:
  "(\<And>a b. cmp (f a) (f b) = cmp a b) \<Longrightarrow> qsort cmp (map f xs) = map f (qsort cmp xs)"
  by (induction xs) (auto simp: cmp_insert_map)

text \<open>On chips and revisions below \<open>2^31\<close> the comparison is the lexicographic order.\<close>

definition small_key :: "dt_entry \<Rightarrow> bool" where
  "small_key e \<longleftrightarrow> uint (chip e) < 2 ^ 31 \<and> uint (hw_rev e) < 2 ^ 31"

definition key_le :: "dt_entry \<Rightarrow> dt_entry \<Rightarrow> bool" where
  "key_le a b \<longleftrightarrow> chip a < chip b \<or> chip a = chip b \<and> hw_rev a \<le> hw_rev b"

lemma sint_diff_small:
  fixes a b :: u32
  assumes "uint a < 2 ^ 31" "uint b < 2 ^ 31"
  shows "sint (a - b) \<le> 0 \<longleftrightarrow> a \<le> b"
proof -
  have "uint (a - b) = (if uint b \<le> uint a then uint a - uint b else uint a - uint b + 4294967296)"
    by (simp add: uint_sub_if')
  then have "sint (a - b) = uint a - uint b"
    using assms uint_u32_bounds(1) [of a] uint_u32_bounds(1) [of b]
    by (cases "a - b" rule: sint_u32_cases; simp only: split: if_splits; simp; linarith)
  then show ?thesis by (simp add: word_le_def)
qed

lemma cmp_key_le: "small_key a \<Longrightarrow> small_key b \<Longrightarrow> dt_entry_cmp a b \<le> 0 \<longleftrightarrow> key_le a b"
  by (auto simp: dt_entry_cmp_def small_key_def key_le_def sint_diff_small)

lemma key_le_linear: "key_le a b \<or> key_le b a"
  by (auto simp: key_le_def)

lemma key_le_trans: "key_le a b \<Longrightarrow> key_le b c \<Longrightarrow> key_le a c"
  by (auto simp: key_le_def)

lemma set_cmp_insert [simp]: "set (cmp_insert cmp x xs) = insert x (set xs)"
  by (metis mset_cmp_insert set_mset_add_mset_insert set_mset_mset)

lemma sorted_cmp_insert:
  "small_key x \<Longrightarrow> \<forall>y \<in> set xs. small_key y \<Longrightarrow> sorted_wrt key_le xs \<Longrightarrow>
   sorted_wrt key_le (cmp_insert dt_entry_cmp x xs)"
proof (induction xs)
  case (Cons y ys)
  show ?case
  proof (cases "key_le x y")
    case True
    then have "\<forall>z \<in> set ys. key_le x z"
      using Cons.prems(3) by (auto intro: key_le_trans)
    then show ?thesis using True Cons.prems by (simp add: cmp_key_le)
  next
    case False
    then have "key_le y x" using key_le_linear by blast
    then show ?thesis using False Cons by (simp add: cmp_key_le)
  qed
qed simp

lemma sorted_qsort:
  "\<forall>y \<in> set xs. small_key y \<Longrightarrow> sorted_wrt key_le (qsort dt_entry_cmp xs)"
  by (induction xs) (auto intro!: sorted_cmp_insert)

subsection \<open>Reading the directory\<close>

lemma load_file_size:
  assumes "load_file h fn = Some (bs, sz)"
  shows "sz = of_nat (length bs)" "length bs < 2 ^ 32"
proof -
  obtain all where all: "files h fn = Some all" and nn: "\<not> to_int32 (int (length all)) < 0"
    and bs: "bs = take (nat (to_int32 (int (length all)))) all"
    and sz: "sz = word_of_int (to_int32 (int (length all)))"
    using assms by (auto simp: load_file_def Let_def split: option.splits if_splits)
  let ?s = "to_int32 (int (length all))"
  have "?s = uint (of_nat (length all) :: u32)" "?s < 2 ^ 31"
    using nn uint_u32_bounds(2) [of "of_nat (length all)"]
    by (cases "of_nat (length all) :: u32" rule: sint_u32_cases; simp add: to_int32_def)+
  then have le: "?s \<le> int (length all)" "?s < 2 ^ 31"
    by (simp_all add: uint_nat unat_of_nat)
  then show "sz = of_nat (length bs)"
    using nn by (simp add: bs sz)
  show "length bs < 2 ^ 32" using le(2) by (simp add: bs)
qed

definition kept_blob :: "kept \<Rightarrow> dt_blob" where
  "kept_blob k = \<lparr>blob_size = of_nat (length (fst k)), blob_offset = 0, payload = fst k\<rparr>"

definition add_kept :: "u32 \<Rightarrow> kept \<Rightarrow> dtbh_acc \<Rightarrow> dtbh_acc" where
  "add_kept ps k = add_blob ps (fst k) (of_nat (length (fst k))) (snd k)"

lemma dtb_loop_kept:
  assumes "\<And>n. malloc_ok h n"
  shows "kept_dtbs fdt h path names = Some ks \<Longrightarrow>
    dtb_loop fdt h path ps names a = Goes (fold (add_kept ps) ks a)"
proof (induction names arbitrary: ks a)
  case (Cons name names)
  show ?case
  proof (cases "ends_dtb name")
    case True
    then obtain dtb sz r where l: "load_file h (dtb_fname path name) = Some (dtb, sz)"
      and s: "scan_dtb fdt dtb = Some r"
      using Cons.prems by (auto split: Option.bind_splits)
    then show ?thesis
      using True Cons assms load_file_size(1) [OF l]
      by (cases r) (auto simp: add_kept_def split: Option.bind_splits)
  qed (use Cons in simp)
qed simp

text \<open>What the loop has gathered.\<close>

fun raw_entries :: "nat \<Rightarrow> kept list \<Rightarrow> dt_entry list" where
  "raw_entries i [] = []"
| "raw_entries i ((d, c, r, e) # ks) = new_entry c r e i # raw_entries (i + 1) ks"

lemma fold_add_kept:
  "length (acc_blobs a) = length (acc_entries a) \<Longrightarrow>
   fold (add_kept ps) ks a =
     a\<lparr>acc_blobs := acc_blobs a @ map kept_blob ks,
       acc_entries := acc_entries a @ raw_entries (length (acc_entries a)) ks,
       acc_blob_sz := acc_blob_sz a + (\<Sum>k \<leftarrow> ks. page_up ps (of_nat (length (fst k)))),
       acc_hdr_sz := acc_hdr_sz a
         + of_nat (16 * length ks * (2 * length (acc_entries a) + length ks + 1))\<rparr>"
proof (induction ks arbitrary: a)
  case (Cons k ks)
  obtain d c r e where k: "k = (d, c, r, e)" by (metis prod_cases4)
  let ?n = "length (acc_entries a)" and ?m = "length ks"
  have h: "of_nat ((?n + 1) * 32 + 16 * ?m * (2 * (?n + 1) + ?m + 1))
      = (of_nat (16 * (?m + 1) * (2 * ?n + (?m + 1) + 1)) :: u32)"
    by (rule arg_cong [of _ _ of_nat]) (simp add: algebra_simps)
  have a: "add_kept ps k a = a\<lparr>acc_blobs := acc_blobs a @ [kept_blob k],
      acc_entries := acc_entries a @ [new_entry c r e ?n],
      acc_blob_sz := acc_blob_sz a + page_up ps (of_nat (length d)),
      acc_hdr_sz := acc_hdr_sz a + of_nat ((?n + 1) * 32)\<rparr>"
    using Cons.prems by (simp add: add_kept_def add_blob_def k kept_blob_def DT_ENTRY_PHYS_SIZE_def)
  have ih: "fold (add_kept ps) ks (add_kept ps k a) = a\<lparr>acc_blobs := acc_blobs a @ map kept_blob (k # ks),
       acc_entries := acc_entries a @ raw_entries ?n (k # ks),
       acc_blob_sz := acc_blob_sz a + (\<Sum>k \<leftarrow> k # ks. page_up ps (of_nat (length (fst k)))),
       acc_hdr_sz := acc_hdr_sz a + of_nat ((?n + 1) * 32) + of_nat (16 * ?m * (2 * (?n + 1) + ?m + 1))\<rparr>"
    using Cons.IH [of "add_kept ps k a"] Cons.prems
    by (simp del: of_nat_add of_nat_mult of_nat_Suc add: a [unfolded k] k add.assoc)
  have "acc_hdr_sz a + of_nat ((?n + 1) * 32) + of_nat (16 * ?m * (2 * (?n + 1) + ?m + 1))
      = acc_hdr_sz a + of_nat (16 * length (k # ks) * (2 * ?n + length (k # ks) + 1))"
    using h by (simp only: add.assoc of_nat_add [symmetric] list.size One_nat_def)
  with ih show ?case by (simp only: fold_Cons comp_apply)
qed simp

subsection \<open>Sizes\<close>

lemma page_up_of_nat:
  assumes "k < 32" "n + 2 ^ k \<le> 2 ^ 32"
  shows "page_up (2 ^ k) (of_nat n) = of_nat (page_up_nat (2 ^ k) n)"
proof -
  have "n < 2 ^ 32" using assms(2) by (metis le_add1 nat_add_left_cancel_less less_le_trans zero_less_power zero_less_numeral add_0_right)
  then have u: "unat (of_nat n :: u32) = n" by (simp add: unat_of_nat)
  have "unat (page_up (2 ^ k) (of_nat n)) = page_up_nat (2 ^ k) n"
    using page_up_unat [OF assms(1), of "of_nat n"] assms(2) unfolding u by simp
  then have "of_nat (unat (page_up (2 ^ k) (of_nat n))) = (of_nat (page_up_nat (2 ^ k) n) :: u32)" by simp
  then show ?thesis by (simp only: of_nat_unat ucast_id)
qed

lemma length_pad_blob [simp]: "0 < p \<Longrightarrow> length (pad_blob p bs) = page_up_nat p (length bs)"
  using page_up_nat_ge [of p "length bs"] by (simp add: pad_blob_def)

lemma length_entry_bytes [simp]: "length (entry_bytes e) = 32"
  by (simp add: entry_bytes_def)

lemma length_concat_entry_bytes [simp]: "length (concat (map entry_bytes es)) = 32 * length es"
  by (induction es) simp_all

lemma length_spec_entries [simp]: "length (spec_entries p off i ks) = length ks"
  by (induction p off i ks rule: spec_entries.induct) simp_all

lemma length_raw_entries [simp]: "length (raw_entries i ks) = length ks"
  by (induction i ks rule: raw_entries.induct) simp_all

lemma length_dtbh_table [simp]: "length (dtbh_table p ks) = length ks"
  by (simp add: dtbh_table_def)

lemma blob_area_simps [simp]:
  "blob_area p [] = []" "blob_area p (k # ks) = pad_blob p (fst k) @ blob_area p ks"
  by (simp_all add: blob_area_def)

lemma blob_area_append [simp]: "blob_area p (ks @ ls) = blob_area p ks @ blob_area p ls"
  by (simp add: blob_area_def)

text \<open>The image fits into 32-bit offsets.\<close>

definition dtbh_fits :: "nat \<Rightarrow> kept list \<Rightarrow> bool" where
  "dtbh_fits p ks \<longleftrightarrow> reserved_hdr p (length ks) + length (blob_area p ks) < 2 ^ 32"

lemma dvd_gap: "(p::nat) dvd a \<Longrightarrow> p dvd b \<Longrightarrow> a < b \<Longrightarrow> a + p \<le> b"
  by (metis dvd_diff_nat dvd_imp_le le_add_diff_inverse less_imp_le nat_add_left_cancel_le zero_less_diff)

lemma reserved_hdr_ge: "0 < p \<Longrightarrow> 16 + 16 * n * (n + 1) \<le> reserved_hdr p n"
  unfolding reserved_hdr_def by (rule page_up_nat_ge)

lemma data_start_dvd: "0 < p \<Longrightarrow> p dvd data_start p n"
proof -
  assume p: "0 < p"
  have "12 + 32 * n = (12 + 32 * n) div p * p + (12 + 32 * n) mod p" by simp
  moreover have "(12 + 32 * n) mod p < p" using p by simp
  ultimately have "data_start p n = (12 + 32 * n) div p * p + p"
    unfolding data_start_def by linarith
  then show ?thesis by simp
qed

lemma data_start_bounds:
  assumes "0 < p"
  shows "12 + 32 * n < data_start p n" "data_start p n \<le> 12 + 32 * n + p"
proof -
  from assms have "(12 + 32 * n) mod p < p" by simp
  then show "12 + 32 * n < data_start p n" "data_start p n \<le> 12 + 32 * n + p"
    unfolding data_start_def by linarith+
qed

lemma data_start_le: "0 < p \<Longrightarrow> 0 < n \<Longrightarrow> data_start p n \<le> reserved_hdr p n"
proof -
  assume p: "0 < p" and n: "0 < n"
  have "n * 2 \<le> n * (n + 1)" using n by (intro mult_le_mono) simp_all
  then have "12 + 32 * n < reserved_hdr p n"
    using reserved_hdr_ge [OF p, of n] unfolding mult.assoc by linarith
  moreover have "12 + 32 * n = (12 + 32 * n) div p * p + (12 + 32 * n) mod p" by simp
  ultimately have "(12 + 32 * n) div p * p < reserved_hdr p n" by linarith
  then have "(12 + 32 * n) div p * p + p \<le> reserved_hdr p n"
    by (intro dvd_gap) (simp_all add: reserved_hdr_def)
  moreover have "data_start p n = (12 + 32 * n) div p * p + p"
    unfolding data_start_def using mod_less_divisor [OF p, of "12 + 32 * n"]
      div_mult_mod_eq [of "12 + 32 * n" p] by linarith
  ultimately show ?thesis by simp
qed

lemma fits_page: "dtbh_fits (2 ^ k) ks \<Longrightarrow> k < 32"
proof (rule ccontr)
  assume f: "dtbh_fits (2 ^ k) ks" and "\<not> k < 32"
  then have "(2::nat) ^ 32 \<le> 2 ^ k" by (intro power_increasing) simp_all
  moreover have "2 ^ k \<le> reserved_hdr (2 ^ k) (length ks)"
    using reserved_hdr_ge [of "2 ^ k" "length ks"]
    by (intro dvd_imp_le) (simp_all add: reserved_hdr_def)
  ultimately show False using f by (simp add: dtbh_fits_def)
qed

lemma fits_hdr: "dtbh_fits (2 ^ k) ks \<Longrightarrow> reserved_hdr (2 ^ k) (length ks) + 2 ^ k \<le> 2 ^ 32"
proof -
  assume f: "dtbh_fits (2 ^ k) ks"
  have "(2::nat) ^ k dvd 2 ^ 32" using fits_page [OF f] by (intro le_imp_power_dvd) simp
  then show ?thesis
    using f by (intro dvd_gap) (simp_all add: dtbh_fits_def reserved_hdr_def)
qed

lemma fits_blob: "dtbh_fits (2 ^ k) ks \<Longrightarrow> b \<in> set ks \<Longrightarrow> length (fst b) + 2 ^ k \<le> 2 ^ 32"
proof -
  assume f: "dtbh_fits (2 ^ k) ks" and b: "b \<in> set ks"
  obtain us vs where "ks = us @ b # vs" using b by (auto simp: in_set_conv_decomp)
  then have "length (fst b) \<le> length (blob_area (2 ^ k) ks)"
    using page_up_nat_ge [of "2 ^ k" "length (fst b)"] by simp
  moreover have "2 ^ k \<le> reserved_hdr (2 ^ k) (length ks)"
    using reserved_hdr_ge [of "2 ^ k" "length ks"]
    by (intro dvd_imp_le) (simp_all add: reserved_hdr_def)
  ultimately show ?thesis using f by (simp add: dtbh_fits_def)
qed

subsection \<open>The table\<close>

text \<open>The padded sizes that the code computes on 32 bits are the exact ones.\<close>

definition exact_pads :: "u32 \<Rightarrow> nat \<Rightarrow> kept list \<Rightarrow> bool" where
  "exact_pads ps p ks \<longleftrightarrow>
     (\<forall>k \<in> set ks. page_up ps (of_nat (length (fst k))) = of_nat (page_up_nat p (length (fst k))))"

lemma fits_exact_pads: "dtbh_fits (2 ^ k) ks \<Longrightarrow> exact_pads (2 ^ k) (2 ^ k) ks"
  unfolding exact_pads_def by (intro ballI page_up_of_nat fits_blob fits_page)

lemma sum_pads:
  "exact_pads ps p ks \<Longrightarrow> 0 < p \<Longrightarrow>
   (\<Sum>k \<leftarrow> ks. page_up ps (of_nat (length (fst k)))) = of_nat (length (blob_area p ks))"
  by (induction ks) (simp_all add: exact_pads_def)

lemma place_fill:
  "exact_pads ps p ks \<Longrightarrow>
   map (fill_entry ps (pre @ place_blobs ps (of_nat off) (map kept_blob ks))) (raw_entries (length pre) ks)
     = spec_entries p off (length pre) ks"
proof (induction ks arbitrary: pre off)
  case (Cons k ks)
  obtain d c r e where k: "k = (d, c, r, e)" by (metis prod_cases4)
  have pu: "page_up ps (of_nat (length d)) = of_nat (page_up_nat p (length d))"
    and ex: "exact_pads ps p ks"
    using Cons.prems by (simp_all add: exact_pads_def k)
  let ?b = "(kept_blob k)\<lparr>blob_offset := of_nat off\<rparr>"
  have rest: "place_blobs ps (of_nat off) (map kept_blob (k # ks))
    = ?b # place_blobs ps (of_nat (off + page_up_nat p (length d))) (map kept_blob ks)"
    using pu by (simp add: kept_blob_def k)
  have hd: "fill_entry ps (pre @ ?b # bs) (new_entry c r e (length pre))
    = (new_entry c r e (length pre))\<lparr>dt_offset := of_nat off, dt_size := of_nat (page_up_nat p (length d))\<rparr>" for bs
    using pu by (simp add: fill_entry_def new_entry_def kept_blob_def k)
  show ?case
    using Cons.IH [OF ex, of "pre @ [?b]" "off + page_up_nat p (length d)"]
    unfolding rest by (simp add: k hd [unfolded k])
qed simp

lemma cmp_fill [simp]: "dt_entry_cmp (fill_entry ps bs a) (fill_entry ps bs b) = dt_entry_cmp a b"
  by (simp add: dt_entry_cmp_def fill_entry_def)

subsection \<open>Building the image\<close>

lemma unat_of_nat_u32: "n < 2 ^ 32 \<Longrightarrow> unat (of_nat n :: u32) = n"
  by (simp add: unat_of_nat)

lemma store_entries_zeros:
  "off = of_nat (length pre) \<Longrightarrow> 32 * length es \<le> m \<Longrightarrow> length pre + m < 2 ^ 32 \<Longrightarrow>
   store_entries off es (pre @ replicate m 0) =
     Some (of_nat (length pre + 32 * length es),
           pre @ concat (map entry_bytes es) @ replicate (m - 32 * length es) 0)"
proof (induction es arbitrary: off pre m)
  case (Cons e es)
  have u: "unat (of_nat (length pre) :: u32) = length pre"
    using Cons.prems(3) by (intro unat_of_nat_u32) simp
  have st: "store_at (length pre) (entry_bytes e) (pre @ replicate m 0)
      = Some ((pre @ entry_bytes e) @ replicate (m - 32) 0)"
    using store_at_zeros [of pre "length pre" "entry_bytes e" m] Cons.prems(2) by simp
  show ?case
    using Cons.prems Cons.IH [of "off + 32" "pre @ entry_bytes e" "m - 32"]
    by (simp add: st u DT_ENTRY_PHYS_SIZE_def algebra_simps)
qed simp

lemma store_blobs_zeros:
  assumes "0 < p"
  shows "exact_pads ps p ks \<Longrightarrow> off = of_nat (length pre) \<Longrightarrow> length (blob_area p ks) \<le> m \<Longrightarrow>
   length pre + m < 2 ^ 32 \<Longrightarrow>
   store_blobs ps off (place_blobs ps x (map kept_blob ks)) (pre @ replicate m 0) =
     Some (pre @ blob_area p ks @ replicate (m - length (blob_area p ks)) 0)"
proof (induction ks arbitrary: off pre m x)
  case (Cons k ks)
  let ?d = "fst k" let ?w = "page_up_nat p (length ?d)"
  have u: "unat off = length pre" using Cons.prems by (simp add: unat_of_nat_u32)
  have w: "length ?d \<le> ?w" "?w + length (blob_area p ks) \<le> m"
    using assms Cons.prems(3) by (simp_all add: page_up_nat_ge)
  have z: "replicate (m - length ?d) (0::u8) = replicate (?w - length ?d) 0 @ replicate (m - ?w) 0"
    using w by (simp flip: replicate_add)
  have st: "store_at (unat off) ?d (pre @ replicate m 0)
      = Some ((pre @ pad_blob p ?d) @ replicate (m - ?w) 0)"
    using store_at_zeros [of pre "length pre" ?d m] w by (simp add: u pad_blob_def z)
  have pu: "page_up ps (of_nat (length ?d)) = of_nat ?w" and ex: "exact_pads ps p ks"
    using Cons.prems(1) by (simp_all add: exact_pads_def)
  have "store_blobs ps (off + of_nat ?w) (place_blobs ps (x + of_nat ?w) (map kept_blob ks))
      ((pre @ pad_blob p ?d) @ replicate (m - ?w) 0)
    = Some ((pre @ pad_blob p ?d) @ blob_area p ks @ replicate (m - ?w - length (blob_area p ks)) 0)"
    using assms Cons.prems w by (intro Cons.IH [OF ex]) simp_all
  moreover have "store_blobs ps off (place_blobs ps x (map kept_blob (k # ks))) (pre @ replicate m 0)
    = store_blobs ps (off + of_nat ?w) (place_blobs ps (x + of_nat ?w) (map kept_blob ks))
      ((pre @ pad_blob p ?d) @ replicate (m - ?w) 0)"
    using st pu by (simp add: kept_blob_def)
  ultimately show ?case using assms w by (simp add: diff_diff_left add.commute)
qed simp

lemma next_page:
  assumes "k < 32" "data_start (2 ^ k) n < 2 ^ 32"
  shows "of_nat (12 + 32 * n) + (2 ^ k - (of_nat (12 + 32 * n) AND (2 ^ k - 1)))
    = (of_nat (data_start (2 ^ k) n) :: u32)"
proof -
  let ?o = "12 + 32 * n"
  have "?o < 2 ^ 32" using data_start_bounds(1) [of "2 ^ k" n] assms(2) by simp
  then have u: "unat (of_nat ?o :: u32) = ?o" by (rule unat_of_nat_u32)
  have "of_nat ?o AND (2 ^ k - 1) = (of_nat (?o mod 2 ^ k) :: u32)"
    by (simp only: mask_eq_exp_minus_1 [symmetric] take_bit_eq_mask [symmetric] take_bit_of_nat take_bit_eq_mod [of k ?o])
  moreover have "?o mod 2 ^ k \<le> 2 ^ k" by (simp add: less_imp_le)
  ultimately show ?thesis
    unfolding data_start_def by (simp only: of_nat_add of_nat_diff of_nat_power of_nat_numeral)
qed

lemma length_DTBH_MAGIC [simp]: "length DTBH_MAGIC = 4"
  by (simp add: DTBH_MAGIC_def)

lemma header_stores:
  assumes "12 \<le> m"
  shows "store_at 0 DTBH_MAGIC (replicate m 0) = Some (DTBH_MAGIC @ replicate (m - 4) 0)"
    "store_at 4 (le32 v) (DTBH_MAGIC @ replicate (m - 4) 0) = Some (DTBH_MAGIC @ le32 v @ replicate (m - 8) 0)"
    "store_at 8 (le32 c) (DTBH_MAGIC @ le32 v @ replicate (m - 8) 0)
      = Some (DTBH_MAGIC @ le32 v @ le32 c @ replicate (m - 12) 0)"
  using assms store_at_zeros [of "[]" 0 DTBH_MAGIC m] store_at_zeros [of DTBH_MAGIC 4 "le32 v" "m - 4"]
    store_at_zeros [of "DTBH_MAGIC @ le32 v" 8 "le32 c" "m - 8"]
  by (simp_all add: diff_diff_left)

lemma build_dtbh_image:
  assumes f: "dtbh_fits (2 ^ k) ks" and ne: "ks \<noteq> []"
  shows "build_dtbh (2 ^ k) (of_nat (length ks)) (dtbh_table (2 ^ k) ks)
      (place_blobs (2 ^ k) x (map kept_blob ks))
      (replicate (reserved_hdr (2 ^ k) (length ks) + length (blob_area (2 ^ k) ks)) 0)
    = Some (dtbh_image (2 ^ k) ks)"
proof -
  let ?n = "length ks" let ?p = "2 ^ k :: nat" let ?B = "length (blob_area ?p ks)"
  let ?H = "reserved_hdr ?p ?n" and ?S = "data_start ?p ?n" and ?o = "12 + 32 * ?n"
  let ?hd = "DTBH_MAGIC @ le32 DTBH_VERSION @ le32 (of_nat ?n)"
  let ?tb = "concat (map entry_bytes (dtbh_table ?p ks))"
  have lhd: "length ?hd = 12" by simp
  have S: "?o < ?S" "?S \<le> ?H" using ne data_start_bounds(1) data_start_le by simp_all
  have lt: "?H + ?B < 2 ^ 32" using f by (simp add: dtbh_fits_def)
  define off where "off = (of_nat ?o :: u32)"
  have es: "store_entries DT_HEADER_PHYS_SIZE (dtbh_table ?p ks) (?hd @ replicate (?H + ?B - 12) 0)
    = Some (off, ?hd @ ?tb @ replicate (?H + ?B - ?o) 0)"
    using S lt lhd by (subst store_entries_zeros) (simp_all add: off_def DT_HEADER_PHYS_SIZE_def diff_diff_left)
  have z: "replicate (?H + ?B - ?o) (0::u8) = replicate (?S - ?o) 0 @ replicate (?H + ?B - ?S) 0"
    using S by (simp flip: replicate_add)
  have bs: "store_blobs (2 ^ k) (of_nat ?S) (place_blobs (2 ^ k) x (map kept_blob ks))
      ((?hd @ ?tb @ replicate (?S - ?o) 0) @ replicate (?H + ?B - ?S) 0)
    = Some ((?hd @ ?tb @ replicate (?S - ?o) 0) @ blob_area ?p ks @ replicate (?H + ?B - ?S - ?B) 0)"
    using S lt lhd by (intro store_blobs_zeros fits_exact_pads [OF f]) simp_all
  have np: "off + (2 ^ k - (off AND (2 ^ k - 1))) = of_nat ?S"
    unfolding off_def using S lt by (intro next_page fits_page [OF f]) simp
  show ?thesis
    using header_stores [of "?H + ?B"] S es bs np
    unfolding build_dtbh_def dtbh_image_def by (simp add: z Let_def)
qed

lemma load_dtbh_block_image:
  assumes dir: "dirs h path = Some names" and ks: "kept_dtbs fdt h path names = Some ks" "ks \<noteq> []"
    and mem: "\<And>n. malloc_ok h n" and f: "dtbh_fits (2 ^ k) ks"
  shows "load_dtbh_block fdt h path (2 ^ k) =
    Goes (Some (dtbh_image (2 ^ k) ks, of_nat (length (dtbh_image (2 ^ k) ks))))"
proof -
  let ?p = "2 ^ k :: nat" let ?n = "length ks" let ?H = "reserved_hdr ?p ?n" and ?B = "length (blob_area ?p ks)"
  have lt: "?H + ?B < 2 ^ 32" using f by (simp add: dtbh_fits_def)
  have S: "12 + 32 * ?n < data_start ?p ?n" "data_start ?p ?n \<le> ?H"
    using ks(2) data_start_bounds(1) data_start_le by simp_all
  have len: "length (dtbh_image ?p ks) = ?H + ?B"
    using S by (simp add: dtbh_image_def Let_def)
  have "16 + 16 * ?n * (?n + 1) + ?p \<le> 2 ^ 32"
    using fits_hdr [OF f] reserved_hdr_ge [of ?p ?n] by simp
  then have H: "page_up (2 ^ k) (of_nat (16 + 16 * ?n * (?n + 1))) = of_nat ?H"
    unfolding reserved_hdr_def by (intro page_up_of_nat fits_page [OF f])
  have hz: "DT_HEADER_PHYS_SIZE + of_nat (16 * ?n * (?n + 1)) + 4 = (of_nat (16 + 16 * ?n * (?n + 1)) :: u32)"
    by (simp add: DT_HEADER_PHYS_SIZE_def)
  let ?bs = "place_blobs (2 ^ k) (of_nat ?H) (map kept_blob ks)"
  have tab: "map (fill_entry (2 ^ k) ?bs) (qsort dt_entry_cmp (raw_entries 0 ks)) = dtbh_table ?p ks"
    using place_fill [OF fits_exact_pads [OF f], of "[]" ?H]
    by (simp add: dtbh_table_def qsort_map [of dt_entry_cmp "fill_entry (2 ^ k) ?bs", symmetric])
  have total: "of_nat ?H + of_nat ?B = (of_nat (?H + ?B) :: u32)" by simp
  have acc: "dtb_loop fdt h path (2 ^ k) names
      \<lparr>acc_blobs = [], acc_entries = [], acc_blob_sz = 0, acc_hdr_sz = DT_HEADER_PHYS_SIZE\<rparr>
    = Goes \<lparr>acc_blobs = map kept_blob ks, acc_entries = raw_entries 0 ks, acc_blob_sz = of_nat ?B,
        acc_hdr_sz = DT_HEADER_PHYS_SIZE + of_nat (16 * ?n * (?n + 1))\<rparr>"
    using dtb_loop_kept [OF mem ks(1)] sum_pads [OF fits_exact_pads [OF f]] by (simp add: fold_add_kept)
  have bd: "build_dtbh (2 ^ k) (of_nat ?n) (dtbh_table ?p ks) ?bs (replicate (?H + ?B) 0)
      = Some (dtbh_image ?p ks)"
    by (rule build_dtbh_image [OF f ks(2)])
  have un: "unat (of_nat (?H + ?B) :: u32) = ?H + ?B" by (rule unat_of_nat_u32 [OF lt])
  have "finish_dtbh h (2 ^ k) \<lparr>acc_blobs = map kept_blob ks, acc_entries = raw_entries 0 ks,
      acc_blob_sz = of_nat ?B, acc_hdr_sz = DT_HEADER_PHYS_SIZE + of_nat (16 * ?n * (?n + 1))\<rparr>
    = Goes (Some (dtbh_image ?p ks, of_nat (?H + ?B)))"
    using ks(2) mem unfolding finish_dtbh_def Let_def dtbh_acc.simps hz H total un tab
    by (simp add: bd del: of_nat_add)
  then show ?thesis
    by (simp only: load_dtbh_block_def dir option.case acc run.case len)
qed

subsection \<open>Positions in the image\<close>

lemma spec_entries_in:
  "e \<in> set (spec_entries p off i ks) \<Longrightarrow> 0 < p \<Longrightarrow>
   \<exists>j < length ks. dt_blob_of e = i + j \<and> chip e = fst (snd (ks ! j)) \<and> hw_rev e = fst (snd (snd (ks ! j)))
     \<and> dt_offset e = of_nat (off + length (blob_area p (take j ks)))
     \<and> dt_size e = of_nat (length (pad_blob p (fst (ks ! j))))"
proof (induction p off i ks rule: spec_entries.induct)
  case (2 p off i d c r x ks)
  show ?case
  proof (cases "e \<in> set (spec_entries p (off + page_up_nat p (length d)) (i + 1) ks)")
    case True
    then obtain j where "j < length ks" "dt_blob_of e = i + 1 + j" "chip e = fst (snd (ks ! j))"
      "hw_rev e = fst (snd (snd (ks ! j)))"
      "dt_offset e = of_nat (off + page_up_nat p (length d) + length (blob_area p (take j ks)))"
      "dt_size e = of_nat (length (pad_blob p (fst (ks ! j))))"
      using 2 by blast
    then show ?thesis
      using 2(3) by (intro exI [of _ "Suc j"]) (simp add: add.assoc)
  next
    case False
    then show ?thesis using 2(2,3) by (intro exI [of _ 0]) (simp add: new_entry_def)
  qed
qed simp

lemma take_drop_blob_area:
  "j < length ks \<Longrightarrow> 0 < p \<Longrightarrow>
   take (length (pad_blob p (fst (ks ! j)))) (drop (length (blob_area p (take j ks))) (blob_area p ks @ rest))
     = pad_blob p (fst (ks ! j))"
proof -
  assume j: "j < length ks" "0 < p"
  have "blob_area p ks = blob_area p (take j ks) @ pad_blob p (fst (ks ! j)) @ blob_area p (drop (Suc j) ks)"
    using arg_cong [OF id_take_nth_drop [OF j(1)], of "blob_area p"] by simp
  then show ?thesis using j(2) by simp
qed

lemma image_blob:
  assumes "j < length ks" "0 < p"
  shows "take (length (pad_blob p (fst (ks ! j))))
      (drop (data_start p (length ks) + length (blob_area p (take j ks))) (dtbh_image p ks))
    = pad_blob p (fst (ks ! j))"
proof -
  let ?n = "length ks"
  let ?pre = "DTBH_MAGIC @ le32 DTBH_VERSION @ le32 (of_nat ?n) @ concat (map entry_bytes (dtbh_table p ks))
    @ replicate (data_start p ?n - (12 + 32 * ?n)) 0"
  have "length ?pre = data_start p ?n"
    using data_start_bounds(1) [OF assms(2), of ?n] by simp
  moreover have "dtbh_image p ks
      = ?pre @ blob_area p ks @ replicate (reserved_hdr p ?n - data_start p ?n) 0"
    by (simp add: dtbh_image_def Let_def)
  ultimately obtain pre rest where "length pre = data_start p ?n" "dtbh_image p ks = pre @ blob_area p ks @ rest"
    by blast
  then show ?thesis
    using take_drop_blob_area [OF assms, of rest] by simp
qed

lemma length_blob_area_take:
  "j < length ks \<Longrightarrow> length (blob_area p (take j ks)) + length (pad_blob p (fst (ks ! j))) \<le> length (blob_area p ks)"
  using arg_cong [OF id_take_nth_drop, of j ks "\<lambda>l. length (blob_area p l)"] by simp

lemma table_entry:
  assumes "e \<in> set (dtbh_table (2 ^ k) ks)" "dtbh_fits (2 ^ k) ks"
  defines "p \<equiv> 2 ^ k :: nat"
  shows "dt_blob_of e < length ks"
    "unat (dt_offset e) = reserved_hdr p (length ks) + length (blob_area p (take (dt_blob_of e) ks))"
    "unat (dt_size e) = length (pad_blob p (fst (ks ! dt_blob_of e)))"
proof -
  have p: "0 < p" by (simp add: p_def)
  obtain j where j: "j < length ks" "dt_blob_of e = j"
    "dt_offset e = of_nat (reserved_hdr p (length ks) + length (blob_area p (take j ks)))"
    "dt_size e = of_nat (length (pad_blob p (fst (ks ! j))))"
    using assms(1) spec_entries_in [OF _ p, of e "reserved_hdr p (length ks)" 0 ks]
    by (auto simp: dtbh_table_def p_def [symmetric])
  then show "dt_blob_of e < length ks" by simp
  have "reserved_hdr p (length ks) + length (blob_area p (take j ks)) + length (pad_blob p (fst (ks ! j))) < 2 ^ 32"
    using length_blob_area_take [OF j(1), of p] assms(2) by (simp add: dtbh_fits_def p_def)
  then show "unat (dt_offset e) = reserved_hdr p (length ks) + length (blob_area p (take (dt_blob_of e) ks))"
    "unat (dt_size e) = length (pad_blob p (fst (ks ! dt_blob_of e)))"
    unfolding j by (intro unat_of_nat_u32, linarith)+
qed

subsection \<open>Unpacking\<close>

lemma read_entry_table:
  assumes "length hdr = 12" "i < length es"
  shows "read_entry (hdr @ concat (map entry_bytes es) @ rest) i = Some ((es ! i)\<lparr>dt_blob_of := 0\<rparr>)"
proof -
  have es: "es = take i es @ es ! i # drop (Suc i) es" using assms(2) by (rule id_take_nth_drop)
  define more where "more = concat (map entry_bytes (drop (Suc i) es)) @ rest"
  have c: "concat (map entry_bytes es)
      = concat (map entry_bytes (take i es)) @ entry_bytes (es ! i) @ concat (map entry_bytes (drop (Suc i) es))"
    using arg_cong [OF es, of "\<lambda>l. concat (map entry_bytes l)"] by simp
  have "drop (12 + 32 * i) (hdr @ concat (map entry_bytes es) @ rest) = entry_bytes (es ! i) @ more"
    using assms unfolding c more_def by simp
  then have d: "drop (12 + 32 * i + m) (hdr @ concat (map entry_bytes es) @ rest) = drop m (entry_bytes (es ! i) @ more)" for m
    by (metis add.commute drop_drop)
  show ?thesis
    unfolding read_entry_def Let_def d entry_bytes_def by simp
qed

lemma dest_file_blob_of [simp]: "dest_file dir (e\<lparr>dt_blob_of := b\<rparr>) = dest_file dir e"
  by (simp add: dest_file_def)

definition host_ok :: "host \<Rightarrow> bool" where
  "host_ok h \<longleftrightarrow> malloc_ok h = (\<lambda>_. True) \<and> read_ok h = (\<lambda>_. True) \<and> create_ok h = (\<lambda>_. True)
     \<and> write_ok h = (\<lambda>_. True)"

text \<open>The files that unpacking the entries of a table leaves.\<close>

definition unpacked :: "string \<Rightarrow> nat \<Rightarrow> kept list \<Rightarrow> (string \<rightharpoonup> u8 list) \<Rightarrow> (string \<rightharpoonup> u8 list)" where
  "unpacked dir p ks =
     fold (\<lambda>e fs. fs(dest_file dir e \<mapsto> pad_blob p (fst (ks ! dt_blob_of e)))) (dtbh_table p ks)"

lemma unpack_loop_table:
  assumes h: "host_ok h"
    and rd: "\<And>i. i < length es \<Longrightarrow> read_entry header i = Some ((es ! i)\<lparr>dt_blob_of := 0\<rparr>)"
    and fit: "\<And>e. e \<in> set es \<Longrightarrow> unat (dt_offset e) + unat (dt_size e) \<le> length img"
    and dat: "\<And>e. e \<in> set es \<Longrightarrow> take (unat (dt_size e)) (drop (unat (dt_offset e)) img) = g e"
  shows "i + n = length es \<Longrightarrow>
    unpack_loop h dir img header i n fs = Some (fold (\<lambda>e fs. fs(dest_file dir e \<mapsto> g e)) (drop i es) fs)"
proof (induction n arbitrary: i fs)
  case (Suc n)
  have i: "i < length es" using Suc.prems by simp
  then have e: "es ! i \<in> set es" by simp
  show ?case
    using Suc fit [OF e] dat [OF e] h
    by (simp add: rd [OF i] Let_def dump_dtb_def host_ok_def Cons_nth_drop_Suc [OF i, symmetric])
qed simp

lemma one_page:
  assumes "16 + 16 * n * (n + 1) \<le> p" "0 < n"
  shows "reserved_hdr p n = p" "data_start p n = p"
proof -
  have p: "0 < p" using assms by simp
  have "p dvd reserved_hdr p n" "reserved_hdr p n < p + p"
    using page_up_nat_less [OF p, of "16 + 16 * n * (n + 1)"] assms(1) by (simp_all add: reserved_hdr_def)
  moreover have "0 < reserved_hdr p n" using reserved_hdr_ge [OF p, of n] by simp
  ultimately show r: "reserved_hdr p n = p"
    by (metis dvd_gap dvd_triv_left dvd_imp_le le_antisym linorder_not_le mult.right_neutral)
  show "data_start p n = p"
    using data_start_le [OF p assms(2)] dvd_imp_le [OF data_start_dvd [OF p, of n]] data_start_bounds(1) [OF p, of n]
    by (simp add: r)
qed

lemma unpack_image_dtbh:
  assumes h: "host_ok h" and img: "files h inp = Some (dtbh_image (2 ^ k) ks)"
    and f: "dtbh_fits (2 ^ k) ks" and ne: "ks \<noteq> []"
    and page: "16 + 16 * length ks * (length ks + 1) \<le> 2 ^ k"
  shows "unpack_image h inp dir (2 ^ k) = Some (0, unpacked dir (2 ^ k) ks (files h))"
proof -
  let ?n = "length ks" let ?p = "2 ^ k :: nat" let ?es = "dtbh_table ?p ks" let ?B = "blob_area ?p ks"
  have n: "0 < ?n" using ne by simp
  note pg = one_page [OF page n]
  let ?hd = "DTBH_MAGIC @ le32 DTBH_VERSION @ le32 (of_nat ?n)"
  have lt: "?p + length ?B < 2 ^ 32" using f by (simp add: dtbh_fits_def pg)
  have o: "12 + 32 * ?n < ?p" using data_start_bounds(1) [of ?p ?n] pg(2) by simp
  have im: "dtbh_image ?p ks = ?hd @ concat (map entry_bytes ?es) @ replicate (?p - (12 + 32 * ?n)) 0 @ ?B"
    by (simp add: dtbh_image_def Let_def pg)
  then have len: "length (dtbh_image ?p ks) = ?p + length ?B" using o by simp
  have hdr: "take ?p (dtbh_image ?p ks) = ?hd @ concat (map entry_bytes ?es) @ replicate (?p - (12 + 32 * ?n)) 0"
    unfolding im using o by simp
  have k: "k < 32" by (rule fits_page [OF f])
  have "(2::nat) ^ k < 2 ^ 64" using k by (intro power_strict_increasing) simp_all
  then have u: "unat (word_of_int (2 ^ k) :: u64) = ?p"
    using unat_of_nat [of "2 ^ k", where 'a = 64] by simp
  have loop: "unpack_loop h dir (dtbh_image ?p ks) (take ?p (dtbh_image ?p ks)) 0 ?n (files h)
    = Some (unpacked dir ?p ks (files h))"
  proof -
    have "unpack_loop h dir (dtbh_image ?p ks) (take ?p (dtbh_image ?p ks)) 0 ?n (files h)
      = Some (fold (\<lambda>e fs. fs(dest_file dir e \<mapsto> pad_blob ?p (fst (ks ! dt_blob_of e)))) (drop 0 ?es) (files h))"
    proof (rule unpack_loop_table [OF h])
      show "read_entry (take ?p (dtbh_image ?p ks)) i = Some ((?es ! i)\<lparr>dt_blob_of := 0\<rparr>)"
        if "i < length ?es" for i
        unfolding hdr using read_entry_table [of ?hd i ?es] that by simp
      fix e assume e: "e \<in> set ?es"
      note te = table_entry [OF e f, unfolded pg]
      show "unat (dt_offset e) + unat (dt_size e) \<le> length (dtbh_image ?p ks)"
        using length_blob_area_take [OF te(1), of ?p] by (simp only: te len)
      show "take (unat (dt_size e)) (drop (unat (dt_offset e)) (dtbh_image ?p ks)) = pad_blob ?p (fst (ks ! dt_blob_of e))"
        using image_blob [OF te(1), of ?p] by (simp only: te pg zero_less_power zero_less_numeral simp_thms)
    qed simp
    then show ?thesis by (simp add: unpacked_def)
  qed
  have n32: "unat (of_nat ?n :: u32) = ?n" using o lt by (intro unat_of_nat_u32) linarith
  have rd: "read_le32 (drop 4 (take ?p (dtbh_image ?p ks))) = Some DTBH_VERSION"
    "read_le32 (drop 8 (take ?p (dtbh_image ?p ks))) = Some (of_nat ?n)"
    unfolding hdr by simp_all
  show ?thesis
    using h len n32 loop unfolding unpack_image_def img option.case u Let_def
    by (simp add: host_ok_def rd)
qed

lemma page_2048_reserved:
  assumes "11 \<le> n"
  shows "data_start 2048 n < reserved_hdr 2048 n"
proof -
  have S: "data_start 2048 n \<le> 12 + 32 * n + 2048" using data_start_bounds(2) [of 2048 n] by simp
  have H: "16 + 16 * n * (n + 1) \<le> reserved_hdr 2048 n" using reserved_hdr_ge [of 2048 n] by simp
  consider "n = 11" | "n = 12" | "13 \<le> n" using assms by linarith
  then show ?thesis
  proof cases
    case 3
    have "n * 14 \<le> n * (n + 1)" using 3 by (intro mult_le_mono2) simp
    then show ?thesis using S H 3 unfolding mult.assoc by linarith
  qed (simp_all add: data_start_def reserved_hdr_def page_up_nat_def)
qed

lemma mkdtbimg_writes:
  assumes h: "host_ok h" and k: "k < 31" and sz: "strtol 10 s = 2 ^ k"
    and ks: "dirs h dir = Some names" "kept_dtbs fdt h dir names = Some ks" "ks \<noteq> []"
    and f: "dtbh_fits (2 ^ k) ks" and w: "length (dtbh_image (2 ^ k) ks) \<le> 0x7ffff000"
  shows "mkdtbimg_main fdt h [''-o'', img, ''-s'', s, ''--dt_dir'', dir]
    = Some (0, (files h)(img \<mapsto> dtbh_image (2 ^ k) ks))"
proof -
  have "unat (2 ^ k :: u32) = 2 ^ k" using k by (intro unat_exp_u32) simp
  then have nz: "(2 ^ k :: u32) \<noteq> 0" by (metis power_not_zero unat_0 zero_neq_numeral)
  have ld: "load_dtbh_block fdt h dir (2 ^ k)
      = Goes (Some (dtbh_image (2 ^ k) ks, of_nat (length (dtbh_image (2 ^ k) ks))))"
    using h by (intro load_dtbh_block_image [OF ks _ f]) (simp add: host_ok_def)
  have "mkdtbimg_args (is_dir h) [''-o'', img, ''-s'', s, ''--dt_dir'', dir]
      \<lparr>dtimg = None, dt_dir = None, mk_pagesize = 0\<rparr>
    = Goes \<lparr>dtimg = Some img, dt_dir = Some dir, mk_pagesize = 2 ^ k\<rparr>"
    using nz by (simp add: sz Let_def)
  then show ?thesis
    using h w unfolding mkdtbimg_main_def by (simp add: ld write_all_def host_ok_def)
qed

lemma load_dtbh_block_exit: "load_dtbh_block fdt h p ps = Exits n \<Longrightarrow> n = 1"
proof -
  have loop: "dtb_loop fdt h p ps ns a = Exits m \<Longrightarrow> m = 1" for ns a m
    by (induction ns arbitrary: a) (auto split: option.splits if_splits)
  show "load_dtbh_block fdt h p ps = Exits n \<Longrightarrow> n = 1"
    using loop by (auto simp: load_dtbh_block_def finish_dtbh_def Let_def split: option.splits run.splits if_splits)
qed

lemma mkdtbimg_outcome:
  assumes "mkdtbimg_main fdt h argv = Some (st, fs)"
  shows "st = 0 \<and> (\<exists>img dir ps bs n. load_dtbh_block fdt h dir ps = Goes (Some (bs, n))
              \<and> fs = (files h)(img \<mapsto> bs)) \<or>
    st = 1 \<and> (fs = files h \<or> (\<exists>img. fs = (files h)(img := None)))"
proof -
  have "mkdtbimg_args d av o' = Exits n \<Longrightarrow> n = 1" for d av o' n
    by (induction d av o' rule: mkdtbimg_args.induct) (auto simp: Let_def split: if_splits)
  with load_dtbh_block_exit show ?thesis
    using assms unfolding mkdtbimg_main_def
    by (simp split: run.splits option.splits prod.splits if_splits; blast)
qed

interpretation mkdtb: image_tool "mkdtbimg_main fdt" for fdt
  by unfold_locales (auto dest!: mkdtbimg_outcome; blast)+

section \<open>Theorems\<close>

text \<open>
  C16. The image that \<open>load_dtbh_block\<close> builds with its 32-bit offsets and stores into a buffer is the
  reference image, for every directory and every page size that is a power of two, as long as the
  image fits into 32-bit offsets: no store leaves the buffer, and the size that is returned is the
  length of the image.
\<close>

theorem load_dtbh_block_layout:
  assumes "dirs h path = Some names" "kept_dtbs fdt h path names = Some ks" "ks \<noteq> []"
    and "\<And>n. malloc_ok h n" and "dtbh_fits (2 ^ k) ks"
  shows "load_dtbh_block fdt h path (2 ^ k) =
    Goes (Some (dtbh_image (2 ^ k) ks, of_nat (length (dtbh_image (2 ^ k) ks))))"
  using assms by (rule load_dtbh_block_image)

text \<open>
  C17. Round trip of the two tools: for at most as many blobs as keep the header within one page, the
  program \<open>mkdtbimg\<close> ends with status 0 and writes the image, and \<open>unpackdtbhimg\<close> on it ends with
  status 0 and writes, for every entry of the table in its order, the blob with its padding under
  the name made of the chip and the revisions.
\<close>

theorem dtb_roundtrip:
  assumes "host_ok h" "k < 31" "strtol 10 s = 2 ^ k" "atoi s = Some (2 ^ k)"
    and "dirs h dir = Some names" "kept_dtbs fdt h dir names = Some ks" "ks \<noteq> []"
    and "dtbh_fits (2 ^ k) ks" "length (dtbh_image (2 ^ k) ks) \<le> 0x7ffff000"
    and "16 + 16 * length ks * (length ks + 1) \<le> 2 ^ k"
  shows "\<exists>fs. mkdtbimg_main fdt h [''-o'', img, ''-s'', s, ''--dt_dir'', dir] = Some (0, fs)
    \<and> unpackdtbhimg_main (h\<lparr>files := fs\<rparr>) [''-i'', img, ''-o'', out, ''-p'', s]
        = Some (0, unpacked out (2 ^ k) ks fs)"
proof -
  let ?fs = "(files h)(img \<mapsto> dtbh_image (2 ^ k) ks)"
  have "unpack_image (h\<lparr>files := ?fs\<rparr>) img out (2 ^ k) = Some (0, unpacked out (2 ^ k) ks ?fs)"
    using assms unpack_image_dtbh [of "h\<lparr>files := ?fs\<rparr>" img k ks out] by (simp add: host_ok_def)
  then have "unpackdtbhimg_main (h\<lparr>files := ?fs\<rparr>) [''-i'', img, ''-o'', out, ''-p'', s]
      = Some (0, unpacked out (2 ^ k) ks ?fs)"
    by (simp add: unpackdtbhimg_main_def assms(4))
  with mkdtbimg_writes [OF assms(1-3,5-9), of img] show ?thesis by blast
qed

text \<open>
  C18. The header size grows by the whole table for every blob, so with the default page size and 11
  blobs or more the offsets in the table are too large: the blob of every entry stands in the image
  before the place its entry points at, by the same positive distance for all entries.
\<close>

theorem offsets_beyond_blobs:
  assumes "dirs h path = Some names" "kept_dtbs fdt h path names = Some ks" "11 \<le> length ks"
    and "\<And>n. malloc_ok h n" and "dtbh_fits 2048 ks"
  shows "\<exists>img gap. load_dtbh_block fdt h path 2048 = Goes (Some (img, of_nat (length img))) \<and> 0 < gap
    \<and> (\<forall>i < length ks. \<exists>e. \<exists>j < length ks. read_entry img i = Some e \<and> gap \<le> unat (dt_offset e)
        \<and> chip e = fst (snd (ks ! j)) \<and> hw_rev e = fst (snd (snd (ks ! j)))
        \<and> take (unat (dt_size e)) (drop (unat (dt_offset e) - gap) img) = pad_blob 2048 (fst (ks ! j)))"
proof -
  let ?n = "length ks" let ?img = "dtbh_image 2048 ks" let ?es = "dtbh_table 2048 ks"
  let ?gap = "reserved_hdr 2048 ?n - data_start 2048 ?n"
  have lt: "data_start 2048 ?n < reserved_hdr 2048 ?n" by (rule page_2048_reserved [OF assms(3)])
  have "ks \<noteq> []" using assms(3) by auto
  then have ld: "load_dtbh_block fdt h path 2048 = Goes (Some (?img, of_nat (length ?img)))"
    using load_dtbh_block_image [of h path names fdt ks 11] assms by simp
  have "\<exists>e. \<exists>j < ?n. read_entry ?img i = Some e \<and> ?gap \<le> unat (dt_offset e)
        \<and> chip e = fst (snd (ks ! j)) \<and> hw_rev e = fst (snd (snd (ks ! j)))
        \<and> take (unat (dt_size e)) (drop (unat (dt_offset e) - ?gap) ?img) = pad_blob 2048 (fst (ks ! j))"
    if i: "i < ?n" for i
  proof -
    let ?e = "?es ! i" let ?j = "dt_blob_of ?e"
    have e: "?e \<in> set ?es" using i by simp
    note te = table_entry [of ?e 11 ks, simplified, OF e assms(5)]
    have key: "chip ?e = fst (snd (ks ! ?j))" "hw_rev ?e = fst (snd (snd (ks ! ?j)))"
      using e spec_entries_in [of ?e 2048 "reserved_hdr 2048 ?n" 0 ks] by (auto simp: dtbh_table_def)
    have rd: "read_entry ?img i = Some (?e\<lparr>dt_blob_of := 0\<rparr>)"
      using read_entry_table [of "DTBH_MAGIC @ le32 DTBH_VERSION @ le32 (of_nat ?n)" i ?es] i
      by (simp add: dtbh_image_def Let_def)
    have "unat (dt_offset ?e) - ?gap = data_start 2048 ?n + length (blob_area 2048 (take ?j ks))"
      using lt by (simp add: te(2))
    then have "take (unat (dt_size ?e)) (drop (unat (dt_offset ?e) - ?gap) ?img) = pad_blob 2048 (fst (ks ! ?j))"
      using image_blob [OF te(1), of 2048] te(3) by simp
    then show ?thesis
      using te(1,2) key by (intro exI [of _ "?e\<lparr>dt_blob_of := 0\<rparr>"] exI [of _ ?j]) (simp add: rd)
  qed
  then show ?thesis
    using ld lt by (intro exI [of _ ?img] exI [of _ ?gap]) simp
qed

text \<open>
  C19. Sorting the entries keeps all of them, and puts them in the order of their chips and, for one
  chip, of their revisions, when these numbers are below \<open>2^31\<close>.
\<close>

theorem entries_sorted:
  assumes "\<forall>e \<in> set es. small_key e"
  shows "sorted_wrt key_le (qsort dt_entry_cmp es) \<and> mset (qsort dt_entry_cmp es) = mset es"
  using sorted_qsort [OF assms] by simp

text \<open>
  Above that the comparison is no order: three chips can each come before the next one around a
  cycle, for which \<open>qsort\<close> promises nothing.
\<close>

theorem entry_cmp_cycle:
  "\<exists>a b c. dt_entry_cmp a b < 0 \<and> dt_entry_cmp b c < 0 \<and> dt_entry_cmp c a < 0"
proof -
  let ?e = "\<lambda>c. new_entry c 0 0 0"
  have "dt_entry_cmp (?e 0) (?e 0x50000000) < 0 \<and> dt_entry_cmp (?e 0x50000000) (?e 0xa0000000) < 0
      \<and> dt_entry_cmp (?e 0xa0000000) (?e 0) < 0"
    by (simp add: dt_entry_cmp_def new_entry_def)
  then show ?thesis by blast
qed

text \<open>
  Without the option \<open>-s\<close> the page size stays 0, although the program has a default: the buffer
  then has no room for the header and the first store leaves it, whatever the blobs are.
\<close>

theorem mkdtbimg_without_pagesize:
  assumes "dirs h dir = Some names" "kept_dtbs fdt h dir names = Some ks" "ks \<noteq> []"
    and "\<And>n. malloc_ok h n"
  shows "mkdtbimg_main fdt h [''-o'', img, ''--dt_dir'', dir] = None"
proof -
  have z: "page_up 0 n = 0" for n by (simp add: page_up_def)
  have s: "(\<Sum>k \<leftarrow> ks. page_up 0 (f k)) = 0" for f by (simp add: z)
  have b: "build_dtbh 0 c es bs [] = None" for c es bs
    by (simp add: build_dtbh_def store_at_def)
  have "load_dtbh_block fdt h dir 0 = Undefined"
    using assms(1,3,4) dtb_loop_kept [OF assms(4,2), of 0]
    by (simp add: load_dtbh_block_def fold_add_kept s finish_dtbh_def z Let_def b)
  then show ?thesis by (simp add: mkdtbimg_main_def)
qed


section \<open>Witnesses\<close>

text \<open>Blobs whose first byte is the chip.\<close>

definition wit_fdt :: libfdt where
  "wit_fdt =
     \<lparr>fdt_check_header = \<lambda>_. 0, fdt_path_offset = \<lambda>_ _. 0,
      fdt_getprop = \<lambda>dtb _ name.
        if name = ''model_info-platform'' then (Some (bytes_of ''android'' @ [0]), 8)
        else if name = ''model_info-subtype'' then (Some (bytes_of ''samsung'' @ [0]), 8)
        else (Some [0, 0, 0, hd dtb], 4)\<rparr>"

definition wit_dir :: "string list \<Rightarrow> host" where
  "wit_dir names = good_host (\<lambda>_. Some [7, 5]) [''d'' \<mapsto> names]"

definition wit_names :: "string list" where
  "wit_names = map (\<lambda>c. c # ''.dtb'') ''abcdefghijk''"

lemma wit_load: "load_file (wit_dir ns) fn = Some ([7, 5], 2)"
  by (simp add: load_file_def wit_dir_def good_host_def to_int32_def)

lemma wit_scan: "scan_dtb wit_fdt [7, 5] = Some (Some (Some [0, 0, 0, 7], Some [0, 0, 0, 7], Some [0, 0, 0, 7]))"
  by (simp add: scan_dtb_def wit_fdt_def bad_cells_def DTBH_PLATFORM_def DTBH_SUBTYPE_def bytes_of_def of_char_of)

lemma wit_info: "read_info (Some [0, 0, 0, 7], Some [0, 0, 0, 7], Some [0, 0, 0, 7]) = Some (7, 7, 7)"
  by (simp add: read_info_def)

lemma wit_step:
  "ends_dtb n \<Longrightarrow> kept_dtbs wit_fdt (wit_dir ns) p (n # names)
    = map_option ((#) ([7, 5], 7, 7, 7)) (kept_dtbs wit_fdt (wit_dir ns) p names)"
  by (simp add: wit_load wit_scan wit_info map_conv_bind_option comp_def)

lemma wit_ends: "ends_dtb (c # ''.dtb'')" "\<not> ends_dtb ''x.txt''"
  by (simp_all add: ends_dtb_def)

lemma wit_all_kept:
  "kept_dtbs wit_fdt (wit_dir ns) p (map (\<lambda>c. c # ''.dtb'') cs) = Some (replicate (length cs) ([7, 5], 7, 7, 7))"
  by (induction cs) (simp_all add: wit_step wit_ends del: kept_dtbs.simps(2))

lemma wit_kept:
  "kept_dtbs wit_fdt (wit_dir [''x.txt'', ''a.dtb'']) ''d'' [''x.txt'', ''a.dtb''] = Some [([7, 5], 7, 7, 7)]"
  "kept_dtbs wit_fdt (wit_dir wit_names) ''d'' wit_names = Some (replicate 11 ([7, 5], 7, 7, 7))"
  subgoal by (simp add: kept_dtbs.simps(2) [of _ _ _ "''x.txt''"] wit_step wit_ends del: kept_dtbs.simps(2))
  subgoal unfolding wit_names_def wit_all_kept by (rule arg_cong [of _ _ "\<lambda>n. Some (replicate n _)"]) simp
  done

lemma wit_host [simp]: "host_ok (wit_dir ns)" "malloc_ok (wit_dir ns) n" "dirs (wit_dir ns) ''d'' = Some ns"
  by (simp_all add: host_ok_def wit_dir_def good_host_def)

lemma wit_sizes:
  "dtbh_fits 2048 [([7, 5], 7, 7, 7)]" "dtbh_fits 2048 (replicate 11 ([7, 5], 7, 7, 7))"
  by (simp_all add: dtbh_fits_def reserved_hdr_def page_up_nat_def blob_area_def length_concat sum_list_replicate)

lemma wit_length: "length (dtbh_image 2048 [([7, 5], 7, 7, 7)]) = 4096"
  by (simp add: dtbh_image_def Let_def reserved_hdr_def data_start_def page_up_nat_def)

theorem load_dtbh_block_layout_witness:
  "load_dtbh_block wit_fdt (wit_dir [''x.txt'', ''a.dtb'']) ''d'' 2048
     = Goes (Some (dtbh_image 2048 [([7, 5], 7, 7, 7)], 4096))"
  using load_dtbh_block_layout [OF _ wit_kept(1), of 11] wit_sizes wit_length by simp

theorem dtb_roundtrip_witness:
  "\<exists>fs. mkdtbimg_main wit_fdt (wit_dir [''x.txt'', ''a.dtb'']) [''-o'', ''i'', ''-s'', ''2048'', ''--dt_dir'', ''d''] = Some (0, fs)
    \<and> unpackdtbhimg_main ((wit_dir [''x.txt'', ''a.dtb''])\<lparr>files := fs\<rparr>) [''-i'', ''i'', ''-o'', ''o'', ''-p'', ''2048'']
        = Some (0, unpacked ''o'' 2048 [([7, 5], 7, 7, 7)] fs)"
proof -
  have "strtol 10 ''2048'' = 2 ^ 11" "atoi ''2048'' = Some (2 ^ 11)" by code_simp+
  from dtb_roundtrip [OF wit_host(1) _ this wit_host(3) wit_kept(1)] wit_sizes wit_length show ?thesis by simp
qed

theorem offsets_beyond_blobs_witness:
  "\<exists>img gap. load_dtbh_block wit_fdt (wit_dir wit_names) ''d'' 2048 = Goes (Some (img, of_nat (length img))) \<and> 0 < gap
    \<and> (\<exists>e. read_entry img 10 = Some e \<and> gap \<le> unat (dt_offset e)
        \<and> take (unat (dt_size e)) (drop (unat (dt_offset e) - gap) img) = pad_blob 2048 [7, 5])"
proof -
  define ks where "ks = replicate 11 ([7, 5] :: u8 list, 7 :: u32, 7 :: u32, 7 :: u32)"
  have len: "length ks = 11" and nth: "\<And>j. j < 11 \<Longrightarrow> fst (ks ! j) = [7, 5]"
    unfolding ks_def by (simp_all only: length_replicate nth_replicate fst_conv)
  obtain img gap where r:
      "load_dtbh_block wit_fdt (wit_dir wit_names) ''d'' 2048 = Goes (Some (img, of_nat (length img)))" "0 < gap"
    and all: "\<forall>i < length ks. \<exists>e. \<exists>j < length ks. read_entry img i = Some e \<and> gap \<le> unat (dt_offset e)
        \<and> chip e = fst (snd (ks ! j)) \<and> hw_rev e = fst (snd (snd (ks ! j)))
        \<and> take (unat (dt_size e)) (drop (unat (dt_offset e) - gap) img) = pad_blob 2048 (fst (ks ! j))"
    using offsets_beyond_blobs [OF wit_host(3) wit_kept(2) [folded ks_def] _ wit_host(2) wit_sizes(2) [folded ks_def]]
    by (elim meta_impE exE conjE) (simp only: len order_refl, assumption)
  from all [rule_format, of 10] obtain e j where "j < 11" "read_entry img 10 = Some e" "gap \<le> unat (dt_offset e)"
    "take (unat (dt_size e)) (drop (unat (dt_offset e) - gap) img) = pad_blob 2048 (fst (ks ! j))"
    by (auto simp: len)
  then have "read_entry img 10 = Some e \<and> gap \<le> unat (dt_offset e)
      \<and> take (unat (dt_size e)) (drop (unat (dt_offset e) - gap) img) = pad_blob 2048 [7, 5]"
    by (simp only: nth)
  with r show ?thesis by (intro exI [of _ img] exI [of _ gap] exI [of _ e] conjI) simp_all
qed

theorem entries_sorted_witness:
  "sorted_wrt key_le (qsort dt_entry_cmp [new_entry 9 1 1 0, new_entry 8 5 5 1, new_entry 8 2 4 2])"
  using entries_sorted [of "[new_entry 9 1 1 0, new_entry 8 5 5 1, new_entry 8 2 4 2]"]
  by (simp add: small_key_def new_entry_def)

theorem mkdtbimg_without_pagesize_witness:
  "mkdtbimg_main wit_fdt (wit_dir [''x.txt'', ''a.dtb'']) [''-o'', ''i'', ''--dt_dir'', ''d''] = None"
  using mkdtbimg_without_pagesize [OF wit_host(3) wit_kept(1)] by simp


end
