(* ===== verification/BootImage.thy ===== *)
theory BootImage
  imports DtbImage
begin

text \<open>
  The boot image: the header of \<open>src/dtbhtool/bootimg.h\<close>, the program \<open>mkbootimg.c\<close> that writes a
  header, a kernel, a ramdisk and optional parts padded to pages, and the program \<open>unpackbootimg.c\<close>
  that takes the image apart. SHA-1 is an argument.
\<close>

section \<open>The header\<close>

definition BOOT_MAGIC :: "u8 list" where "BOOT_MAGIC = bytes_of ''ANDROID!''"

record boot_img_hdr =
  hdr_magic :: "u8 list"
  kernel_size :: u32
  kernel_addr :: u32
  ramdisk_size :: u32
  ramdisk_addr :: u32
  second_size :: u32
  second_addr :: u32
  tags_addr :: u32
  hdr_page_size :: u32
  hdr_dt_size :: u32
  unused :: u32
  hdr_name :: "u8 list"
  hdr_cmdline :: "u8 list"
  hdr_id :: "u8 list"

text \<open>The header as it stands in memory and in the image.\<close>

definition hdr_bytes :: "boot_img_hdr \<Rightarrow> u8 list" where
  "hdr_bytes h = hdr_magic h @ le32 (kernel_size h) @ le32 (kernel_addr h) @ le32 (ramdisk_size h)
     @ le32 (ramdisk_addr h) @ le32 (second_size h) @ le32 (second_addr h) @ le32 (tags_addr h)
     @ le32 (hdr_page_size h) @ le32 (hdr_dt_size h) @ le32 (unused h) @ hdr_name h @ hdr_cmdline h @ hdr_id h"

text \<open>\<open>strcpy\<close> into a zeroed array of \<open>n\<close> bytes.\<close>

definition str_field :: "nat \<Rightarrow> string \<Rightarrow> u8 list" where
  "str_field n s = bytes_of s @ replicate (n - length s) 0"

section \<open>The program mkbootimg\<close>

record mkboot_opts =
  kernel_fn :: "string option"
  ramdisk_fn :: "string option"
  second_fn :: "string option"
  o_cmdline :: string
  bootimg :: "string option"
  board :: string
  o_dt_dir :: "string option"
  dt_fn :: "string option"
  sig_fn :: "string option"
  pagesize :: u32
  base :: u32
  kernel_offset :: u32
  ramdisk_offset :: u32
  second_offset :: u32
  tags_offset :: u32

definition mkboot_defaults :: mkboot_opts where
  "mkboot_defaults =
     \<lparr>kernel_fn = None, ramdisk_fn = None, second_fn = None, o_cmdline = [], bootimg = None, board = [],
      o_dt_dir = None, dt_fn = None, sig_fn = None, pagesize = 2048, base = 0x10000000,
      kernel_offset = 0x00008000, ramdisk_offset = 0x01000000, second_offset = 0x00f00000,
      tags_offset = 0x00000100\<rparr>"

definition page_sizes :: "u32 list" where
  "page_sizes = [2048, 4096, 8192, 16384, 32768, 65536, 131072]"

text \<open>One option, and the loop over the options.\<close>

definition mkboot_opt :: "string \<Rightarrow> string \<Rightarrow> mkboot_opts \<Rightarrow> mkboot_opts run" where
  "mkboot_opt arg val o' =
     (if arg = ''--output'' \<or> arg = ''-o'' then Goes (o'\<lparr>bootimg := Some val\<rparr>)
      else if arg = ''--kernel'' then Goes (o'\<lparr>kernel_fn := Some val\<rparr>)
      else if arg = ''--ramdisk'' then Goes (o'\<lparr>ramdisk_fn := Some val\<rparr>)
      else if arg = ''--second'' then Goes (o'\<lparr>second_fn := Some val\<rparr>)
      else if arg = ''--cmdline'' then Goes (o'\<lparr>o_cmdline := val\<rparr>)
      else if arg = ''--base'' then Goes (o'\<lparr>base := ucast (strtoul 16 val)\<rparr>)
      else if arg = ''--kernel_offset'' then Goes (o'\<lparr>kernel_offset := ucast (strtoul 16 val)\<rparr>)
      else if arg = ''--ramdisk_offset'' then Goes (o'\<lparr>ramdisk_offset := ucast (strtoul 16 val)\<rparr>)
      else if arg = ''--second_offset'' then Goes (o'\<lparr>second_offset := ucast (strtoul 16 val)\<rparr>)
      else if arg = ''--tags_offset'' then Goes (o'\<lparr>tags_offset := ucast (strtoul 16 val)\<rparr>)
      else if arg = ''--board'' then Goes (o'\<lparr>board := val\<rparr>)
      else if arg = ''--pagesize'' then
        (let ps = ucast (strtoul 10 val) in
         if ps \<notin> set page_sizes then Exits (- 1) else Goes (o'\<lparr>pagesize := ps\<rparr>))
      else if arg = ''--dt_dir'' then Goes (o'\<lparr>o_dt_dir := Some val\<rparr>)
      else if arg = ''--dt'' then Goes (o'\<lparr>dt_fn := Some val\<rparr>)
      else if arg = ''--signature'' then Goes (o'\<lparr>sig_fn := Some val\<rparr>)
      else Exits 1)"

fun mkboot_args :: "string list \<Rightarrow> mkboot_opts \<Rightarrow> mkboot_opts run" where
  "mkboot_args [] o' = Goes o'"
| "mkboot_args [arg] o' = Exits 1"
| "mkboot_args (arg # val # rest) o' =
     (case mkboot_opt arg val o' of
        Undefined \<Rightarrow> Undefined
      | Exits n \<Rightarrow> Exits n
      | Goes o'' \<Rightarrow> mkboot_args rest o'')"

text \<open>What is loaded: the data and size of each part, \<open>None\<close> for a part that is left out.\<close>

record boot_parts =
  kernel_data :: "u8 list \<times> u32"
  ramdisk_data :: "(u8 list \<times> u32) option"
  second_data :: "(u8 list \<times> u32) option"
  dt_data :: "(u8 list \<times> u32) option"
  sig_data :: "u8 list option"

definition goes_on :: "'a run \<Rightarrow> ('a \<Rightarrow> 'b run) \<Rightarrow> 'b run" where
  "goes_on r f = (case r of Undefined \<Rightarrow> Undefined | Exits n \<Rightarrow> Exits n | Goes x \<Rightarrow> f x)"

definition load_part :: "host \<Rightarrow> string option \<Rightarrow> (u8 list \<times> u32) option run" where
  "load_part h fn =
     (case fn of
        None \<Rightarrow> Goes None
      | Some f \<Rightarrow> (case load_file h f of None \<Rightarrow> Exits 1 | Some d \<Rightarrow> Goes (Some d)))"

definition load_dt :: "libfdt \<Rightarrow> host \<Rightarrow> mkboot_opts \<Rightarrow> (u8 list \<times> u32) option run" where
  "load_dt fdt h o' =
     goes_on (case o_dt_dir o' of
                None \<Rightarrow> Goes None
              | Some dir \<Rightarrow> goes_on (load_dtbh_block fdt h dir (pagesize o'))
                             (\<lambda>d. case d of None \<Rightarrow> Exits 1 | Some d \<Rightarrow> Goes (Some d)))
       (\<lambda>d. case dt_fn o' of None \<Rightarrow> Goes d | Some f \<Rightarrow> load_part h (Some f))"

definition load_parts :: "libfdt \<Rightarrow> host \<Rightarrow> mkboot_opts \<Rightarrow> string \<Rightarrow> string \<Rightarrow> boot_parts run" where
  "load_parts fdt h o' kfn rfn =
     (case load_file h kfn of
        None \<Rightarrow> Exits 1
      | Some k \<Rightarrow>
          goes_on (load_part h (if rfn = ''NONE'' then None else Some rfn)) (\<lambda>r.
          goes_on (load_part h (second_fn o')) (\<lambda>s.
          goes_on (load_dt fdt h o') (\<lambda>d.
          goes_on (load_part h (sig_fn o')) (\<lambda>g.
            Goes \<lparr>kernel_data = k, ramdisk_data = r, second_data = s, dt_data = d,
                  sig_data = map_option fst g\<rparr>)))))"

definition part_size :: "(u8 list \<times> u32) option \<Rightarrow> u32" where
  "part_size p = (case p of None \<Rightarrow> 0 | Some (_, sz) \<Rightarrow> sz)"

definition part_bytes :: "(u8 list \<times> u32) option \<Rightarrow> u8 list" where
  "part_bytes p = (case p of None \<Rightarrow> [] | Some (bs, _) \<Rightarrow> bs)"

text \<open>The bytes that are hashed, in the order of the updates.\<close>

definition sha_input :: "boot_parts \<Rightarrow> u8 list" where
  "sha_input p =
     fst (kernel_data p) @ le32 (snd (kernel_data p))
     @ part_bytes (ramdisk_data p) @ le32 (part_size (ramdisk_data p))
     @ part_bytes (second_data p) @ le32 (part_size (second_data p))
     @ (case dt_data p of None \<Rightarrow> [] | Some (bs, sz) \<Rightarrow> bs @ le32 sz)"

definition make_hdr :: "(u8 list \<Rightarrow> u8 list) \<Rightarrow> mkboot_opts \<Rightarrow> boot_parts \<Rightarrow> boot_img_hdr" where
  "make_hdr sha1 o' p =
     \<lparr>hdr_magic = BOOT_MAGIC,
      kernel_size = snd (kernel_data p), kernel_addr = base o' + kernel_offset o',
      ramdisk_size = part_size (ramdisk_data p), ramdisk_addr = base o' + ramdisk_offset o',
      second_size = part_size (second_data p), second_addr = base o' + second_offset o',
      tags_addr = base o' + tags_offset o', hdr_page_size = pagesize o',
      hdr_dt_size = part_size (dt_data p), unused = 0,
      hdr_name = str_field 16 (board o'), hdr_cmdline = str_field 512 (o_cmdline o'),
      hdr_id = take 20 (sha1 (sha_input p)) @ replicate 12 0\<rparr>"

text \<open>The bytes of \<open>write_padding\<close>, if it makes a call.\<close>

definition write_padding :: "u32 \<Rightarrow> u32 \<Rightarrow> u8 list list" where
  "write_padding ps itemsize =
     (let pagemask = ps - 1 in
      if itemsize AND pagemask = 0 then [] else [replicate (unat (ps - (itemsize AND pagemask))) 0])"

text \<open>The calls of \<open>write\<close> up to the signature; the second stage is padded by the size of the ramdisk.\<close>

definition boot_writes :: "boot_img_hdr \<Rightarrow> boot_parts \<Rightarrow> u32 \<Rightarrow> u8 list list" where
  "boot_writes hdr p ps =
     hdr_bytes hdr # write_padding ps 608
     @ fst (kernel_data p) # write_padding ps (kernel_size hdr)
     @ part_bytes (ramdisk_data p) # write_padding ps (ramdisk_size hdr)
     @ (case second_data p of None \<Rightarrow> [] | Some (bs, _) \<Rightarrow> bs # write_padding ps (ramdisk_size hdr))
     @ (case dt_data p of None \<Rightarrow> [] | Some (bs, _) \<Rightarrow> bs # write_padding ps (hdr_dt_size hdr))"

fun write_seq :: "host \<Rightarrow> nat \<Rightarrow> u8 list list \<Rightarrow> bool" where
  "write_seq h k [] = True"
| "write_seq h k (c # cs) = (write_all h k c \<and> write_seq h (k + 1) cs)"

text \<open>Writing the image. The signature is taken to have 256 bytes, whatever the length of its file.\<close>

definition write_image ::
  "host \<Rightarrow> string \<Rightarrow> u8 list list \<Rightarrow> u8 list option \<Rightarrow> (int \<times> (string \<rightharpoonup> u8 list)) option" where
  "write_image h img ws sig =
     (if \<not> create_ok h img then Some (1, files h)
      else if \<not> write_seq h 0 ws then Some (1, (files h)(img := None))
      else case sig of
             None \<Rightarrow> Some (0, (files h)(img \<mapsto> concat ws))
           | Some bs \<Rightarrow>
               if length bs < 256 then None
               else if \<not> write_all h (length ws) (take 256 bs) then Some (1, (files h)(img := None))
               else Some (0, (files h)(img \<mapsto> concat ws @ take 256 bs)))"

definition mkbootimg_main ::
  "libfdt \<Rightarrow> (u8 list \<Rightarrow> u8 list) \<Rightarrow> host \<Rightarrow> string list \<Rightarrow> (int \<times> (string \<rightharpoonup> u8 list)) option" where
  "mkbootimg_main fdt sha1 h argv =
     (case mkboot_args argv mkboot_defaults of
        Undefined \<Rightarrow> None
      | Exits n \<Rightarrow> Some (n, files h)
      | Goes o' \<Rightarrow>
          if o_dt_dir o' \<noteq> None \<and> dt_fn o' \<noteq> None then Some (1, files h)
          else case (bootimg o', kernel_fn o', ramdisk_fn o') of
            (Some img, Some kfn, Some rfn) \<Rightarrow>
              if length (board o') \<ge> 16 then Some (1, files h)
              else if length (o_cmdline o') > 511 then Some (1, files h)
              else (case load_parts fdt h o' kfn rfn of
                      Undefined \<Rightarrow> None
                    | Exits n \<Rightarrow> Some (n, files h)
                    | Goes p \<Rightarrow>
                        let hdr = make_hdr sha1 o' p in
                        write_image h img (boot_writes hdr p (pagesize o')) (sig_data p))
          | _ \<Rightarrow> Some (1, files h))"

section \<open>The program unpackbootimg\<close>

record unpackboot_opts =
  directory :: "string option"
  filename :: "string option"
  u_pagesize :: u32

text \<open>
  The option loop: \<open>Exits 0\<close> is the usage text. A page size without a value is undefined; the value is
  read as a hexadecimal number and becomes an \<open>int\<close>, kept here as its 32 bits.
\<close>

fun unpackboot_args :: "string list \<Rightarrow> unpackboot_opts \<Rightarrow> unpackboot_opts run" where
  "unpackboot_args [] o' = Goes o'"
| "unpackboot_args [arg] o' =
     (if arg = ''--input'' \<or> arg = ''-i'' then Goes (o'\<lparr>filename := None\<rparr>)
      else if arg = ''--output'' \<or> arg = ''-o'' then Goes (o'\<lparr>directory := None\<rparr>)
      else if arg = ''--pagesize'' \<or> arg = ''-p'' then Undefined
      else Exits 0)"
| "unpackboot_args (arg # val # rest) o' =
     (if arg = ''--input'' \<or> arg = ''-i'' then unpackboot_args rest (o'\<lparr>filename := Some val\<rparr>)
      else if arg = ''--output'' \<or> arg = ''-o'' then unpackboot_args rest (o'\<lparr>directory := Some val\<rparr>)
      else if arg = ''--pagesize'' \<or> arg = ''-p'' then
        unpackboot_args rest (o'\<lparr>u_pagesize := ucast (strtoul 16 val)\<rparr>)
      else Exits 0)"

text \<open>
  The search for the magic in the first 513 positions, \<open>n\<close> of them left. A read that is cut short
  leaves an indeterminate buffer: \<open>None\<close>.
\<close>

fun find_magic :: "u8 list \<Rightarrow> nat \<Rightarrow> nat \<Rightarrow> nat option option" where
  "find_magic img i 0 = Some None"
| "find_magic img i (Suc n) =
     (if length img < i + 8 then None
      else if take 8 (drop i img) = BOOT_MAGIC then Some (Some i)
      else find_magic img (i + 1) n)"

text \<open>The fields of the header that the program uses, read from its 608 bytes.\<close>

definition hdr_word :: "u8 list \<Rightarrow> nat \<Rightarrow> u32 option" where
  "hdr_word bs i = read_le32 (drop (8 + 4 * i) bs)"

definition read_hdr :: "u8 list \<Rightarrow> boot_img_hdr option" where
  "read_hdr bs =
     do { ks \<leftarrow> hdr_word bs 0; ka \<leftarrow> hdr_word bs 1; rs \<leftarrow> hdr_word bs 2; ra \<leftarrow> hdr_word bs 3;
          ss \<leftarrow> hdr_word bs 4; sa \<leftarrow> hdr_word bs 5; ta \<leftarrow> hdr_word bs 6; ps \<leftarrow> hdr_word bs 7;
          ds \<leftarrow> hdr_word bs 8; un \<leftarrow> hdr_word bs 9;
          Some \<lparr>hdr_magic = take 8 bs, kernel_size = ks, kernel_addr = ka, ramdisk_size = rs,
                ramdisk_addr = ra, second_size = ss, second_addr = sa, tags_addr = ta,
                hdr_page_size = ps, hdr_dt_size = ds, unused = un,
                hdr_name = take 16 (drop 48 bs), hdr_cmdline = take 512 (drop 64 bs),
                hdr_id = take 32 (drop 576 bs)\<rparr> }"

text \<open>A string in an array: up to its terminator, which must be there.\<close>

definition c_string :: "u8 list \<Rightarrow> u8 list option" where
  "c_string mem = (if 0 \<in> set mem then Some (takeWhile (\<lambda>b. b \<noteq> 0) mem) else None)"

text \<open>
  \<open>read_padding\<close>: the position after the padding. The buffer has the page size, converted from an
  \<open>int\<close>; reading more than that into it, or into a null pointer, is undefined, as is the mask of
  the smallest \<open>int\<close>.
\<close>

definition read_padding :: "host \<Rightarrow> u8 list \<Rightarrow> nat \<Rightarrow> u32 \<Rightarrow> u32 \<Rightarrow> nat option" where
  "read_padding h img pos itemsize ps =
     (let room = unat (scast ps :: u64); pagemask = ps - 1 in
      if ps = 0x80000000 then None
      else if itemsize AND pagemask = 0 then Some pos
      else let count = ps - (itemsize AND pagemask); n = min (unat count) (length img - pos) in
        if n > 0 \<and> (\<not> malloc_ok h room \<or> room < n) then None else Some (pos + n))"

text \<open>Reading a part into a fresh buffer of its size, which must be filled.\<close>

definition read_part :: "host \<Rightarrow> u8 list \<Rightarrow> nat \<Rightarrow> u32 \<Rightarrow> u8 list option" where
  "read_part h img pos sz =
     (if sz \<noteq> 0 \<and> (\<not> malloc_ok h (unat sz) \<or> length img < pos + unat sz) then None
      else Some (take (unat sz) (drop pos img)))"

text \<open>\<open>basename\<close> of the C library.\<close>

definition basename_of :: "string \<Rightarrow> string" where
  "basename_of s =
     (if s = [] then ''.''
      else let r = dropWhile (\<lambda>c. c = CHR ''/'') (rev s) in
        if r = [] then ''/'' else rev (takeWhile (\<lambda>c. c \<noteq> CHR ''/'') r))"

text \<open>
  The name of an output, built in a buffer of \<open>PATH_MAX\<close> bytes; an output that cannot be created is a
  null stream. Both failures are undefined.
\<close>

definition put_file ::
  "host \<Rightarrow> string \<Rightarrow> string \<Rightarrow> string \<Rightarrow> u8 list \<Rightarrow> (string \<rightharpoonup> u8 list) \<Rightarrow> (string \<rightharpoonup> u8 list) option" where
  "put_file h dir fn suffix bs fs =
     (let name = dir @ ''/'' @ basename_of fn @ suffix in
      if length name \<ge> 4096 \<or> \<not> create_ok h name then None else Some (fs(name \<mapsto> bs)))"

definition write_string_to_file ::
  "host \<Rightarrow> string \<Rightarrow> string \<Rightarrow> string \<Rightarrow> u8 list \<Rightarrow> (string \<rightharpoonup> u8 list) \<Rightarrow> (string \<rightharpoonup> u8 list) option" where
  "write_string_to_file h dir fn suffix s = put_file h dir fn suffix (s @ [10])"

text \<open>The part of the program that writes the text files.\<close>

definition put_texts ::
  "host \<Rightarrow> string \<Rightarrow> string \<Rightarrow> boot_img_hdr \<Rightarrow> u8 list \<Rightarrow> (string \<rightharpoonup> u8 list) \<Rightarrow> (string \<rightharpoonup> u8 list) option" where
  "put_texts h dir fn hdr cl fs =
     do { fs \<leftarrow> write_string_to_file h dir fn ''-cmdline'' cl fs;
          fs \<leftarrow> write_string_to_file h dir fn ''-base'' (bytes_of (show_08x (kernel_addr hdr - 0x00008000))) fs;
          fs \<leftarrow> write_string_to_file h dir fn ''-ramdisk_offset''
                  (bytes_of (show_08x (ramdisk_addr hdr - kernel_addr hdr + 0x00008000))) fs;
          fs \<leftarrow> write_string_to_file h dir fn ''-second_offset''
                  (bytes_of (show_08x (second_addr hdr - kernel_addr hdr + 0x00008000))) fs;
          fs \<leftarrow> write_string_to_file h dir fn ''-tags_offset''
                  (bytes_of (show_08x (tags_addr hdr - kernel_addr hdr + 0x00008000))) fs;
          write_string_to_file h dir fn ''-pagesize'' (bytes_of (show_d (hdr_page_size hdr))) fs }"

text \<open>
  How the program ends: with a status, or at its first write to the stream \<open>r\<close> after it was closed.
  The files are those written until then.
\<close>

datatype unpack_end = Finished int "string \<rightharpoonup> u8 list" | Writes_closed "string \<rightharpoonup> u8 list"

definition ramdisk_suffix :: "u8 list \<Rightarrow> string option" where
  "ramdisk_suffix rd =
     (case rd of
        [] \<Rightarrow> None
      | a # rest \<Rightarrow>
          if a \<noteq> 0x02 then Some ''-ramdisk.gz''
          else case rest of
                 [] \<Rightarrow> None
               | b # _ \<Rightarrow> Some (if b = 0x21 then ''-ramdisk.lz4'' else ''-ramdisk.gz''))"

definition unpack_parts ::
  "host \<Rightarrow> string \<Rightarrow> string \<Rightarrow> u8 list \<Rightarrow> nat \<Rightarrow> boot_img_hdr \<Rightarrow> u32 \<Rightarrow> (string \<rightharpoonup> u8 list) \<Rightarrow> unpack_end option" where
  "unpack_parts h dir fn img i hdr ps fs =
     do { pos \<leftarrow> read_padding h img (i + 608) 608 ps;
          kernel \<leftarrow> read_part h img pos (kernel_size hdr);
          fs \<leftarrow> put_file h dir fn ''-zImage'' kernel fs;
          pos \<leftarrow> read_padding h img (pos + length kernel) (kernel_size hdr) ps;
          ramdisk \<leftarrow> read_part h img pos (ramdisk_size hdr);
          suffix \<leftarrow> ramdisk_suffix ramdisk;
          fs \<leftarrow> put_file h dir fn suffix ramdisk fs;
          pos \<leftarrow> read_padding h img (pos + length ramdisk) (ramdisk_size hdr) ps;
          fs \<leftarrow> put_file h dir fn ''-second'' [] fs;
          second \<leftarrow> read_part h img pos (second_size hdr);
          Some (Writes_closed fs) }"

definition unpackbootimg_main :: "host \<Rightarrow> string list \<Rightarrow> unpack_end option" where
  "unpackbootimg_main h argv =
     (case unpackboot_args argv \<lparr>directory = Some ''./'', filename = None, u_pagesize = 0\<rparr> of
        Undefined \<Rightarrow> None
      | Exits n \<Rightarrow> Some (Finished n (files h))
      | Goes o' \<Rightarrow>
          (case filename o' of
             None \<Rightarrow> Some (Finished 0 (files h))
           | Some fn \<Rightarrow>
               do { img \<leftarrow> files h fn;
                    found \<leftarrow> find_magic img 0 513;
                    case found of
                      None \<Rightarrow> Some (Finished 1 (files h))
                    | Some i \<Rightarrow>
                        if length img < i + 608 then None
                        else do { hdr \<leftarrow> read_hdr (take 608 (drop i img));
                                  cl \<leftarrow> c_string (take 544 (drop (i + 64) img));
                                  dir \<leftarrow> directory o';
                                  let ps = (if u_pagesize o' = 0 then hdr_page_size hdr else u_pagesize o');
                                  fs \<leftarrow> put_texts h dir fn hdr cl (files h);
                                  unpack_parts h dir fn img i hdr ps fs } }))"

section \<open>Lemmas\<close>

subsection \<open>Padding\<close>

lemma page_up_nat_gap: "0 < p \<Longrightarrow> page_up_nat p n - n = (if n mod p = 0 then 0 else p - n mod p)"
proof -
  assume p: "0 < p"
  have n: "n = n div p * p + n mod p" by simp
  show ?thesis
  proof (cases "n mod p = 0")
    case True
    then have "n + p - 1 = p - 1 + n div p * p" using n p by linarith
    moreover have "(p - 1 + n div p * p) div p = n div p"
      using p by (subst div_mult_self1) simp_all
    ultimately show ?thesis using True n by (simp add: page_up_nat_def)
  next
    case False
    have lt: "n mod p < p" using p by simp
    have "(n div p + 1) * p = n div p * p + p" by (simp only: add_mult_distrib mult_1)
    then have "n + p - 1 = (n mod p - 1) + (n div p + 1) * p" using n False p by arith
    moreover have "(n mod p - 1 + (n div p + 1) * p) div p = n div p + 1"
      using lt p by (subst div_mult_self1) (simp_all add: less_imp_diff_less)
    ultimately have "(n + p - 1) div p = n div p + 1" by simp
    then have "page_up_nat p n = n div p * p + p" by (simp add: page_up_nat_def)
    then have "page_up_nat p n - n = p - n mod p" using n by arith
    then show ?thesis using False by simp
  qed
qed

lemma unat_pad_count:
  assumes "k < 32" "unat n mod 2 ^ k \<noteq> 0"
  shows "unat ((2::u32) ^ k - (n AND (2 ^ k - 1))) = page_up_nat (2 ^ k) (unat n) - unat n"
proof -
  have le: "n AND (2 ^ k - 1) \<le> (2::u32) ^ k"
    using and_mask_zero(1) [OF assms(1), of n] unat_exp_u32 [OF assms(1)]
    by (simp only: word_le_nat_alt) (simp add: less_imp_le)
  show ?thesis
    using assms(2) by (simp add: unat_sub [OF le] and_mask_zero(1) [OF assms(1)] unat_exp_u32 [OF assms(1)] page_up_nat_gap)
qed

lemma concat_write_padding:
  "k < 32 \<Longrightarrow> concat (write_padding (2 ^ k) n) = replicate (page_up_nat (2 ^ k) (unat n) - unat n) 0"
  by (cases "unat n mod 2 ^ k = 0")
    (simp_all add: write_padding_def Let_def and_mask_zero(2) unat_pad_count page_up_nat_gap)

lemma write_padding_lengths: "k < 32 \<Longrightarrow> c \<in> set (write_padding (2 ^ k) n) \<Longrightarrow> length c \<le> 2 ^ k"
  by (auto simp: write_padding_def Let_def and_mask_zero(2) unat_pad_count page_up_nat_gap split: if_splits)

lemma read_padding_image:
  assumes "k < 31" "malloc_ok h = (\<lambda>_. True)" "pos + (page_up_nat (2 ^ k) (unat n) - unat n) \<le> length img"
  shows "read_padding h img pos n (2 ^ k) = Some (pos + (page_up_nat (2 ^ k) (unat n) - unat n))"
proof -
  have k: "k < 32" using assms(1) by simp
  have u: "unat (2 ^ k :: u32) = 2 ^ k" by (rule unat_exp_u32 [OF k])
  have lt: "(2::nat) ^ k < 2 ^ 31" using assms(1) by (intro power_strict_increasing) simp_all
  then have ne: "(2 ^ k :: u32) \<noteq> 0x80000000"
    using u arg_cong [of "2 ^ k :: u32" "0x80000000" unat] by auto
  have "(2::int) ^ k < 2 ^ 31" using assms(1) by (intro power_strict_increasing) simp_all
  moreover have "uint (2 ^ k :: u32) = 2 ^ k" using u by (simp add: uint_nat)
  ultimately have "sint (2 ^ k :: u32) = 2 ^ k"
    by (cases "2 ^ k :: u32" rule: sint_u32_cases) simp_all
  then have "uint (scast (2 ^ k :: u32) :: u64) = 2 ^ k"
    by (subst uint_scast_u64) simp_all
  then have r: "unat (scast (2 ^ k :: u32) :: u64) = 2 ^ k"
    by (simp add: nat_power_eq flip: nat_uint_eq)
  show ?thesis
  proof (cases "unat n mod 2 ^ k = 0")
    case True
    then show ?thesis
      using ne k by (simp add: read_padding_def and_mask_zero(2) page_up_nat_gap)
  next
    case False
    let ?c = "page_up_nat (2 ^ k) (unat n) - unat n"
    have "?c \<le> 2 ^ k" by (simp add: page_up_nat_gap)
    moreover have "min ?c (length img - pos) = ?c" using assms(3) by simp
    ultimately show ?thesis
      using ne k False assms(2) unfolding read_padding_def Let_def r unat_pad_count [OF k False]
      by (simp add: and_mask_zero(2))
  qed
qed

subsection \<open>The image in closed form\<close>

definition good_parts :: "boot_parts \<Rightarrow> bool" where
  "good_parts p \<longleftrightarrow>
     (\<forall>d \<in> {Some (kernel_data p), ramdisk_data p, second_data p, dt_data p}.
        part_size d = of_nat (length (part_bytes d)) \<and> length (part_bytes d) \<le> 0x7ffff000)
     \<and> (\<forall>g. sig_data p = Some g \<longrightarrow> 256 \<le> length g)"

definition boot_image :: "boot_img_hdr \<Rightarrow> boot_parts \<Rightarrow> nat \<Rightarrow> u8 list" where
  "boot_image hdr p ps =
     (let rd = part_bytes (ramdisk_data p) in
      pad_blob ps (hdr_bytes hdr) @ pad_blob ps (fst (kernel_data p)) @ pad_blob ps rd
      @ (case second_data p of None \<Rightarrow> []
         | Some (bs, _) \<Rightarrow> bs @ replicate (page_up_nat ps (length rd) - length rd) 0)
      @ (case dt_data p of None \<Rightarrow> [] | Some (bs, _) \<Rightarrow> pad_blob ps bs)
      @ (case sig_data p of None \<Rightarrow> [] | Some g \<Rightarrow> take 256 g))"

lemma length_str_field [simp]: "length s \<le> n \<Longrightarrow> length (str_field n s) = n"
  by (simp add: str_field_def)

lemma length_BOOT_MAGIC [simp]: "length BOOT_MAGIC = 8"
  by (simp add: BOOT_MAGIC_def)

lemma length_make_hdr:
  "length (board o') < 16 \<Longrightarrow> length (o_cmdline o') \<le> 511 \<Longrightarrow> (\<And>x. length (sha1 x) = 20) \<Longrightarrow>
   length (hdr_bytes (make_hdr sha1 o' p)) = 608"
  by (simp add: hdr_bytes_def make_hdr_def)

lemma opt_pagesize:
  "mkboot_opt arg val o' = Goes o'' \<Longrightarrow> pagesize o' \<in> set page_sizes \<Longrightarrow> pagesize o'' \<in> set page_sizes"
  by (auto simp: mkboot_opt_def Let_def split: if_splits)

lemma args_pagesize:
  "mkboot_args argv o' = Goes o'' \<Longrightarrow> pagesize o' \<in> set page_sizes \<Longrightarrow> pagesize o'' \<in> set page_sizes"
  by (induction argv o' rule: mkboot_args.induct) (auto simp: opt_pagesize split: run.splits)

lemma page_sizes_pow: "ps \<in> set page_sizes \<Longrightarrow> \<exists>k. 11 \<le> k \<and> k \<le> 17 \<and> ps = 2 ^ k"
proof -
  assume "ps \<in> set page_sizes"
  then consider "ps = 2 ^ 11" | "ps = 2 ^ 12" | "ps = 2 ^ 13" | "ps = 2 ^ 14" | "ps = 2 ^ 15" | "ps = 2 ^ 16"
    | "ps = 2 ^ 17"
    by (auto simp: page_sizes_def)
  then show ?thesis by cases (rule exI, rule conjI [rotated], rule conjI [rotated], assumption, simp, simp)+
qed

lemma write_seq_ok:
  "write_ok h = (\<lambda>_. True) \<Longrightarrow> (\<And>c. c \<in> set cs \<Longrightarrow> length c \<le> 0x7ffff000) \<Longrightarrow> write_seq h k cs"
  by (induction cs arbitrary: k) (simp_all add: write_all_def)

lemma boot_writes_image:
  assumes k: "k \<le> 17" and g: "good_parts p" and hl: "length (hdr_bytes hdr) = 608"
    and sz: "kernel_size hdr = snd (kernel_data p)" "ramdisk_size hdr = part_size (ramdisk_data p)"
      "hdr_dt_size hdr = part_size (dt_data p)"
  shows "concat (boot_writes hdr p (2 ^ k)) @ (case sig_data p of None \<Rightarrow> [] | Some g \<Rightarrow> take 256 g)
      = boot_image hdr p (2 ^ k)"
    and "\<And>c. c \<in> set (boot_writes hdr p (2 ^ k)) \<Longrightarrow> length c \<le> 0x7ffff000"
proof -
  have k32: "k < 32" using k by simp
  have u: "unat (part_size d) = length (part_bytes d)" "length (part_bytes d) \<le> 0x7ffff000"
    if "d \<in> {Some (kernel_data p), ramdisk_data p, second_data p, dt_data p}" for d
    using g that unat_of_nat_u32 [of "length (part_bytes d)"] by (auto simp: good_parts_def)
  have uk: "unat (snd (kernel_data p)) = length (fst (kernel_data p))" "length (fst (kernel_data p)) \<le> 0x7ffff000"
    using u [of "Some (kernel_data p)"] by (simp_all add: part_size_def part_bytes_def split: prod.splits)
  have ur: "unat (part_size (ramdisk_data p)) = length (part_bytes (ramdisk_data p))"
    "length (part_bytes (ramdisk_data p)) \<le> 0x7ffff000"
    using u [of "ramdisk_data p"] by simp_all
  have us: "length bs \<le> 0x7ffff000" if "second_data p = Some (bs, n)" for bs n
    using u(2) [of "second_data p"] that by (simp add: part_bytes_def)
  have ud: "unat n = length bs" "length bs \<le> 0x7ffff000" if "dt_data p = Some (bs, n)" for bs n
    using u [of "dt_data p"] that by (simp_all add: part_bytes_def part_size_def)
  show "concat (boot_writes hdr p (2 ^ k)) @ (case sig_data p of None \<Rightarrow> [] | Some g \<Rightarrow> take 256 g)
      = boot_image hdr p (2 ^ k)"
    unfolding boot_writes_def boot_image_def Let_def pad_blob_def sz
    by (cases "second_data p"; cases "dt_data p")
      (simp_all add: concat_write_padding [OF k32] hl uk(1) ur(1) ud(1) part_size_def [of "Some _"] split: prod.splits)
  have pw: "length c \<le> 0x7ffff000" if "c \<in> set (write_padding (2 ^ k) n)" for c n
  proof -
    have "(2::nat) ^ k \<le> 2 ^ 17" using k by (intro power_increasing) simp_all
    then show ?thesis using write_padding_lengths [OF k32 that] by simp
  qed
  show "length c \<le> 0x7ffff000" if "c \<in> set (boot_writes hdr p (2 ^ k))" for c
    using that pw [of c] hl uk(2) ur(2) us ud(2) unfolding boot_writes_def
    by (cases "second_data p"; cases "dt_data p") (simp split: prod.splits; blast?; force)+
qed

lemma goes_on_Goes: "goes_on r f = Goes y \<longleftrightarrow> (\<exists>x. r = Goes x \<and> f x = Goes y)"
  by (cases r) (simp_all add: goes_on_def)

subsection \<open>What is loaded\<close>

lemma build_dtbh_length: "build_dtbh ps n es bs buf = Some buf' \<Longrightarrow> length buf' = length buf"
proof -
  have e: "store_entries off es b = Some (off', b') \<Longrightarrow> length b' = length b" for off es b off' b'
    by (induction es arbitrary: off b) (auto dest!: store_at_length split: Option.bind_splits)
  have s: "store_blobs ps off bs b = Some b' \<Longrightarrow> length b' = length b" for off bs b b'
    by (induction bs arbitrary: off b) (auto dest!: store_at_length split: Option.bind_splits)
  show "build_dtbh ps n es bs buf = Some buf' \<Longrightarrow> length buf' = length buf"
    unfolding build_dtbh_def Let_def
    by (auto dest!: store_at_length e s split: Option.bind_splits prod.splits)
qed

lemma load_dtbh_block_size: "load_dtbh_block fdt h dir ps = Goes (Some (bs, n)) \<Longrightarrow> n = of_nat (length bs)"
  by (auto simp: load_dtbh_block_def finish_dtbh_def Let_def dest!: build_dtbh_length
      split: option.splits run.splits if_splits)

definition exact_part :: "(u8 list \<times> u32) option \<Rightarrow> bool" where
  "exact_part d \<longleftrightarrow> part_size d = of_nat (length (part_bytes d))"

lemma exact_part_file: "load_file h f = Some d \<Longrightarrow> exact_part (Some d)"
  using load_file_size(1) [of h f "fst d" "snd d"] by (cases d) (simp add: exact_part_def part_size_def part_bytes_def)

lemma exact_part_load: "load_part h f = Goes d \<Longrightarrow> exact_part d"
  by (auto simp: load_part_def exact_part_def part_size_def part_bytes_def dest: load_file_size(1)
      split: option.splits)

lemma exact_part_dt: "load_dt fdt h o' = Goes d \<Longrightarrow> exact_part d"
proof -
  assume l: "load_dt fdt h o' = Goes d"
  show ?thesis
  proof (cases "dt_fn o'")
    case (Some f)
    then show ?thesis using l exact_part_load by (auto simp: load_dt_def goes_on_Goes)
  next
    case None
    then show ?thesis
      using l by (auto simp: load_dt_def goes_on_Goes exact_part_def part_size_def part_bytes_def
          dest: load_dtbh_block_size split: option.splits)
  qed
qed

text \<open>The parts can be written with one call each, and a signature has its 256 bytes.\<close>

definition parts_fit :: "boot_parts \<Rightarrow> bool" where
  "parts_fit p \<longleftrightarrow>
     length (fst (kernel_data p)) \<le> 0x7ffff000 \<and> length (part_bytes (ramdisk_data p)) \<le> 0x7ffff000
     \<and> length (part_bytes (second_data p)) \<le> 0x7ffff000 \<and> length (part_bytes (dt_data p)) \<le> 0x7ffff000
     \<and> (case sig_data p of None \<Rightarrow> True | Some g \<Rightarrow> 256 \<le> length g)"

lemma load_parts_good: "load_parts fdt h o' kfn rfn = Goes p \<Longrightarrow> parts_fit p \<Longrightarrow> good_parts p"
proof -
  assume l: "load_parts fdt h o' kfn rfn = Goes p" and f: "parts_fit p"
  have "exact_part (Some (kernel_data p)) \<and> exact_part (ramdisk_data p) \<and> exact_part (second_data p) \<and> exact_part (dt_data p)"
    using l unfolding load_parts_def
    by (auto simp: goes_on_Goes intro: exact_part_file exact_part_load exact_part_dt split: option.splits)
  then show ?thesis
    using f by (auto simp: good_parts_def parts_fit_def exact_part_def part_bytes_def [of "Some _"] split: prod.splits)
qed

definition boot_request :: "mkboot_opts \<Rightarrow> string \<Rightarrow> string \<Rightarrow> string \<Rightarrow> bool" where
  "boot_request o' img kfn rfn \<longleftrightarrow>
     (o_dt_dir o' = None \<or> dt_fn o' = None) \<and> bootimg o' = Some img \<and> kernel_fn o' = Some kfn
     \<and> ramdisk_fn o' = Some rfn \<and> length (board o') < 16 \<and> length (o_cmdline o') \<le> 511"

lemma make_hdr_simps [simp]:
  "hdr_magic (make_hdr sha1 o' p) = BOOT_MAGIC"
  "kernel_size (make_hdr sha1 o' p) = snd (kernel_data p)"
  "kernel_addr (make_hdr sha1 o' p) = base o' + kernel_offset o'"
  "ramdisk_size (make_hdr sha1 o' p) = part_size (ramdisk_data p)"
  "ramdisk_addr (make_hdr sha1 o' p) = base o' + ramdisk_offset o'"
  "second_size (make_hdr sha1 o' p) = part_size (second_data p)"
  "second_addr (make_hdr sha1 o' p) = base o' + second_offset o'"
  "tags_addr (make_hdr sha1 o' p) = base o' + tags_offset o'"
  "hdr_page_size (make_hdr sha1 o' p) = pagesize o'"
  "hdr_dt_size (make_hdr sha1 o' p) = part_size (dt_data p)"
  "hdr_name (make_hdr sha1 o' p) = str_field 16 (board o')"
  "hdr_cmdline (make_hdr sha1 o' p) = str_field 512 (o_cmdline o')"
  "hdr_id (make_hdr sha1 o' p) = take 20 (sha1 (sha_input p)) @ replicate 12 0"
  by (simp_all add: make_hdr_def)

lemma mkbootimg_image:
  assumes sha: "\<And>x. length (sha1 x) = 20" and h: "host_ok h"
    and o: "mkboot_args argv mkboot_defaults = Goes o'" "boot_request o' img kfn rfn"
    and p: "load_parts fdt h o' kfn rfn = Goes p" "parts_fit p"
  shows "mkbootimg_main fdt sha1 h argv
    = Some (0, (files h)(img \<mapsto> boot_image (make_hdr sha1 o' p) p (unat (pagesize o'))))"
proof -
  have "pagesize o' \<in> set page_sizes"
    by (rule args_pagesize [OF o(1)]) (simp add: mkboot_defaults_def page_sizes_def)
  then obtain k where k: "k \<le> 17" "pagesize o' = 2 ^ k" using page_sizes_pow by blast
  let ?hdr = "make_hdr sha1 o' p"
  have hl: "length (hdr_bytes ?hdr) = 608"
    using o(2) by (intro length_make_hdr sha) (simp_all add: boot_request_def)
  note bw = boot_writes_image [OF k(1) load_parts_good [OF p] hl make_hdr_simps(2,4,10)]
  have u: "unat (2 ^ k :: u32) = 2 ^ k" using k(1) by (intro unat_exp_u32) simp
  have ws: "write_seq h 0 (boot_writes ?hdr p (2 ^ k))"
    using h bw(2) by (intro write_seq_ok) (simp_all add: host_ok_def)
  have "write_image h img (boot_writes ?hdr p (pagesize o')) (sig_data p)
      = Some (0, (files h)(img \<mapsto> boot_image ?hdr p (unat (pagesize o'))))"
    using h ws bw(1) p(2) unfolding k(2) u
    by (cases "sig_data p") (simp_all add: write_image_def host_ok_def write_all_def parts_fit_def)
  then show ?thesis
    using o p(1) by (auto simp: mkbootimg_main_def boot_request_def Let_def)
qed

subsection \<open>Taking the image apart\<close>

lemma read_hdr_bytes:
  "length (hdr_magic h) = 8 \<Longrightarrow> length (hdr_name h) = 16 \<Longrightarrow> length (hdr_cmdline h) = 512 \<Longrightarrow>
   length (hdr_id h) = 32 \<Longrightarrow> read_hdr (hdr_bytes h) = Some h"
  by (simp add: read_hdr_def hdr_word_def hdr_bytes_def)

lemma find_magic_first: "find_magic (BOOT_MAGIC @ bs) 0 513 = Some (Some 0)"
proof -
  have "find_magic (BOOT_MAGIC @ bs) 0 (Suc 512) = Some (Some 0)" by (simp only: find_magic.simps) simp
  then show ?thesis by simp
qed

lemma of_char_u8_zero: "of_char c = (0 :: u8) \<longleftrightarrow> c = CHR 0x00"
proof
  assume z: "of_char c = (0 :: u8)"
  have n: "unat (of_nat n :: u8) = n" if "n < 256" for n
    using that by (simp add: unat_of_nat)
  have "(of_char c :: nat) = unat (of_char c :: u8)"
    using n [OF nat_of_char_less_256 [of c]] by (simp only: of_nat_of_char)
  also have "\<dots> = of_char (CHR 0x00)" unfolding z by simp
  finally have "char_of (of_char c :: nat) = char_of (of_char (CHR 0x00) :: nat)" by (rule arg_cong)
  then show "c = CHR 0x00" by (simp only: char_of_char)
next
  assume "c = CHR 0x00"
  then show "of_char c = (0 :: u8)" by simp
qed

lemma bytes_of_zero: "(0 :: u8) \<in> set (bytes_of s) \<longleftrightarrow> CHR 0x00 \<in> set s"
proof -
  have "(0 :: u8) \<in> set (bytes_of s) \<longleftrightarrow> (\<exists>c \<in> set s. of_char c = (0 :: u8))"
    unfolding bytes_of_def set_map by (metis (no_types) image_iff)
  then show ?thesis unfolding of_char_u8_zero by blast
qed

lemma c_string_field:
  "CHR 0x00 \<notin> set s \<Longrightarrow> length s < n \<Longrightarrow> c_string (str_field n s @ rest) = Some (bytes_of s)"
proof -
  assume s: "CHR 0x00 \<notin> set s" "length s < n"
  obtain m where m: "n - length s = Suc m" using s(2) by (metis Suc_diff_Suc)
  have "takeWhile (\<lambda>b. b \<noteq> 0) (bytes_of s @ 0 # r) = bytes_of s" for r
    using s(1) bytes_of_zero [of s] by (subst takeWhile_append2) auto
  then show ?thesis by (simp add: c_string_def str_field_def m)
qed

definition out_name :: "string \<Rightarrow> string \<Rightarrow> string \<Rightarrow> string" where
  "out_name dir fn suffix = dir @ ''/'' @ basename_of fn @ suffix"

lemma out_name_eq [simp]: "out_name dir fn s = out_name dir fn s' \<longleftrightarrow> s = s'"
  by (simp add: out_name_def)

lemma put_file_ok:
  "create_ok h = (\<lambda>_. True) \<Longrightarrow> length dir + length (basename_of fn) + length suffix < 4095 \<Longrightarrow>
   put_file h dir fn suffix bs fs = Some (fs(out_name dir fn suffix \<mapsto> bs))"
  by (simp add: put_file_def out_name_def Let_def)

lemma read_part_at:
  "malloc_ok h = (\<lambda>_. True) \<Longrightarrow> unat sz = length bs \<Longrightarrow> length pre = pos \<Longrightarrow>
   read_part h (pre @ bs @ rest) pos sz = Some bs"
  by (auto simp: read_part_def)

lemma unpack_parts_image:
  assumes h: "host_ok h" and k: "k < 31" and name: "length dir + length (basename_of fn) + 20 < 4095"
    and hl: "length hb = 608" and kn: "unat (kernel_size hdr) = length kern"
    and rd: "unat (ramdisk_size hdr) = length rd" "ramdisk_suffix rd = Some suf"
    and sc: "unat (second_size hdr) = length sec"
    and img: "img = pad_blob (2 ^ k) hb @ pad_blob (2 ^ k) kern @ pad_blob (2 ^ k) rd @ sec @ rest"
  shows "unpack_parts h dir fn img 0 hdr (2 ^ k) fs
    = Some (Writes_closed (fs(out_name dir fn ''-zImage'' \<mapsto> kern, out_name dir fn suf \<mapsto> rd,
        out_name dir fn ''-second'' \<mapsto> [])))"
proof -
  let ?p = "2 ^ k :: nat"
  let ?g = "\<lambda>n. page_up_nat ?p n - n"
  have m: "malloc_ok h = (\<lambda>_. True)" "create_ok h = (\<lambda>_. True)" using h by (simp_all add: host_ok_def)
  have le: "n \<le> page_up_nat ?p n" for n by (rule page_up_nat_ge) simp
  let ?l1 = "length (pad_blob ?p hb)" let ?l2 = "?l1 + length (pad_blob ?p kern)"
  let ?l3 = "?l2 + length (pad_blob ?p rd)"
  have li: "length img = ?l3 + length sec + length rest" by (simp add: img)
  have u: "unat (608 :: u32) = 608" by simp
  have p1: "read_padding h img (0 + 608) 608 (2 ^ k) = Some ?l1"
    using read_padding_image [OF k m(1), of 608 608 img] li le [of 608] by (simp add: hl)
  have p2: "read_padding h img (?l1 + length kern) (kernel_size hdr) (2 ^ k) = Some ?l2"
    using read_padding_image [OF k m(1), of "?l1 + length kern" "kernel_size hdr" img] li le [of "length kern"] by (simp add: kn)
  have p3: "read_padding h img (?l2 + length rd) (ramdisk_size hdr) (2 ^ k) = Some ?l3"
    using read_padding_image [OF k m(1), of "?l2 + length rd" "ramdisk_size hdr" img] li le [of "length rd"] by (simp add: rd(1))
  have r1: "read_part h img ?l1 (kernel_size hdr) = Some kern"
    using read_part_at [OF m(1) kn, of "pad_blob ?p hb" ?l1] by (simp add: img pad_blob_def [of _ kern])
  have r2: "read_part h img ?l2 (ramdisk_size hdr) = Some rd"
    using read_part_at [OF m(1) rd(1), of "pad_blob ?p hb @ pad_blob ?p kern" ?l2] by (simp add: img pad_blob_def [of _ rd])
  have r3: "read_part h img ?l3 (second_size hdr) = Some sec"
    using read_part_at [OF m(1) sc, of "pad_blob ?p hb @ pad_blob ?p kern @ pad_blob ?p rd" ?l3] by (simp add: img)
  have sl: "length suf \<le> 12" using rd(2) by (auto simp: ramdisk_suffix_def split: list.splits if_splits)
  show ?thesis
    unfolding unpack_parts_def p1 using name sl
    by (simp add: r1 p2 r2 p3 r3 rd(2) put_file_ok [OF m(2)] del: length_pad_blob)
qed

lemma put_texts_ok:
  assumes "create_ok h = (\<lambda>_. True)" "length dir + length (basename_of fn) + 20 < 4095"
  shows "put_texts h dir fn hdr cl fs = Some (fs(
    out_name dir fn ''-cmdline'' \<mapsto> cl @ [10],
    out_name dir fn ''-base'' \<mapsto> bytes_of (show_08x (kernel_addr hdr - 0x00008000)) @ [10],
    out_name dir fn ''-ramdisk_offset'' \<mapsto> bytes_of (show_08x (ramdisk_addr hdr - kernel_addr hdr + 0x00008000)) @ [10],
    out_name dir fn ''-second_offset'' \<mapsto> bytes_of (show_08x (second_addr hdr - kernel_addr hdr + 0x00008000)) @ [10],
    out_name dir fn ''-tags_offset'' \<mapsto> bytes_of (show_08x (tags_addr hdr - kernel_addr hdr + 0x00008000)) @ [10],
    out_name dir fn ''-pagesize'' \<mapsto> bytes_of (show_d (hdr_page_size hdr)) @ [10]))"
  using assms unfolding put_texts_def write_string_to_file_def by (simp add: put_file_ok)

lemma boot_image_split:
  "boot_image hdr p ps = pad_blob ps (hdr_bytes hdr) @ pad_blob ps (fst (kernel_data p))
     @ pad_blob ps (part_bytes (ramdisk_data p)) @ part_bytes (second_data p)
     @ ((case second_data p of None \<Rightarrow> []
          | Some _ \<Rightarrow> replicate (page_up_nat ps (length (part_bytes (ramdisk_data p))) - length (part_bytes (ramdisk_data p))) 0)
        @ (case dt_data p of None \<Rightarrow> [] | Some (bs, _) \<Rightarrow> pad_blob ps bs)
        @ (case sig_data p of None \<Rightarrow> [] | Some g \<Rightarrow> take 256 g))"
  by (cases "second_data p") (auto simp: boot_image_def Let_def part_bytes_def split: prod.splits)

lemma good_parts_sizes:
  assumes "good_parts p"
  shows "unat (snd (kernel_data p)) = length (fst (kernel_data p))"
    "unat (part_size (ramdisk_data p)) = length (part_bytes (ramdisk_data p))"
    "unat (part_size (second_data p)) = length (part_bytes (second_data p))"
proof -
  have u: "unat (part_size d) = length (part_bytes d)"
    if "d \<in> {Some (kernel_data p), ramdisk_data p, second_data p, dt_data p}" for d
    using assms that unat_of_nat_u32 [of "length (part_bytes d)"] by (auto simp: good_parts_def)
  show "unat (part_size (ramdisk_data p)) = length (part_bytes (ramdisk_data p))"
    "unat (part_size (second_data p)) = length (part_bytes (second_data p))"
    using u by simp_all
  show "unat (snd (kernel_data p)) = length (fst (kernel_data p))"
    using u [of "Some (kernel_data p)"] by (simp add: part_size_def part_bytes_def split: prod.splits)
qed

text \<open>What \<open>unpackbootimg\<close> does with an image of \<open>mkbootimg\<close>.\<close>

lemma unpackbootimg_image:
  assumes sha: "\<And>x. length (sha1 x) = 20" and h: "host_ok h"
    and o: "mkboot_args argv mkboot_defaults = Goes o'" "boot_request o' img kfn rfn" "CHR 0x00 \<notin> set (o_cmdline o')"
    and p: "good_parts p" "ramdisk_suffix (part_bytes (ramdisk_data p)) = Some suf"
    and name: "length dir + length (basename_of img) + 20 < 4095"
    and fs: "files h img = Some (boot_image (make_hdr sha1 o' p) p (unat (pagesize o')))"
  shows "\<exists>fs'. unpackbootimg_main h [''-i'', img, ''-o'', dir] = Some (Writes_closed (fs'(
      out_name dir img ''-zImage'' \<mapsto> fst (kernel_data p), out_name dir img suf \<mapsto> part_bytes (ramdisk_data p),
      out_name dir img ''-second'' \<mapsto> [])))
    \<and> put_texts h dir img (make_hdr sha1 o' p) (bytes_of (o_cmdline o')) (files h) = Some fs'"
proof -
  have "pagesize o' \<in> set page_sizes"
    by (rule args_pagesize [OF o(1)]) (simp add: mkboot_defaults_def page_sizes_def)
  then obtain k where k: "k \<le> 17" "pagesize o' = 2 ^ k" using page_sizes_pow by blast
  have k31: "k < 31" using k(1) by simp
  have u: "unat (2 ^ k :: u32) = 2 ^ k" using k(1) by (intro unat_exp_u32) simp
  then have nz: "(2 ^ k :: u32) \<noteq> 0" by (metis power_not_zero unat_0 zero_neq_numeral)
  let ?hdr = "make_hdr sha1 o' p" let ?im = "boot_image ?hdr p (2 ^ k)"
  have hl: "length (hdr_bytes ?hdr) = 608"
    using o(2) by (intro length_make_hdr sha) (simp_all add: boot_request_def)
  obtain r where r: "?im = hdr_bytes ?hdr @ r" by (simp add: boot_image_split pad_blob_def)
  have t: "take 608 ?im = hdr_bytes ?hdr" "length ?im \<ge> 608" using hl by (simp_all add: r)
  have rh: "read_hdr (hdr_bytes ?hdr) = Some ?hdr"
    using o(2) sha by (intro read_hdr_bytes) (simp_all add: boot_request_def)
  have "?im = BOOT_MAGIC @ drop 8 ?im" using hl by (simp add: r hdr_bytes_def)
  then have fm: "find_magic ?im 0 513 = Some (Some 0)" by (metis find_magic_first)
  have "take 544 (drop 64 ?im) = str_field 512 (o_cmdline o') @ take 32 (hdr_id ?hdr)"
    using o(2) sha by (simp add: r hdr_bytes_def boot_request_def)
  then have cl: "c_string (take 544 (drop 64 ?im)) = Some (bytes_of (o_cmdline o'))"
    using o(2,3) by (simp add: c_string_field boot_request_def)
  obtain fs' where tx: "put_texts h dir img ?hdr (bytes_of (o_cmdline o')) (files h) = Some fs'"
    using h name put_texts_ok [of h dir img] by (simp add: host_ok_def)
  have "unpack_parts h dir img ?im 0 ?hdr (2 ^ k) fs' = Some (Writes_closed (fs'(
      out_name dir img ''-zImage'' \<mapsto> fst (kernel_data p), out_name dir img suf \<mapsto> part_bytes (ramdisk_data p),
      out_name dir img ''-second'' \<mapsto> [])))"
    using good_parts_sizes [OF p(1)] p(2)
    by (intro unpack_parts_image [OF h k31 name hl _ _ _ _ boot_image_split]) simp_all
  then show ?thesis
    using fs tx t fm rh cl nz by (simp add: unpackbootimg_main_def k(2) u Let_def)
qed

subsection \<open>The status\<close>

lemma goes_on_Exits: "goes_on r f = Exits n \<longleftrightarrow> r = Exits n \<or> (\<exists>x. r = Goes x \<and> f x = Exits n)"
  by (cases r) (simp_all add: goes_on_def)

lemma load_part_exit: "load_part h fn = Exits n \<Longrightarrow> n = 1"
  by (auto simp: load_part_def split: option.splits)

lemma load_parts_exit: "load_parts fdt h o' kfn rfn = Exits n \<Longrightarrow> n = 1"
proof -
  have "load_dt fdt h o' = Exits m \<Longrightarrow> m = 1" for m
    unfolding load_dt_def goes_on_Exits
    by (auto simp: goes_on_Exits dest: load_dtbh_block_exit load_part_exit split: option.splits)
  then show "load_parts fdt h o' kfn rfn = Exits n \<Longrightarrow> n = 1"
    unfolding load_parts_def by (auto simp: goes_on_Exits dest: load_part_exit split: option.splits)
qed

lemma mkboot_args_exit: "mkboot_args argv o' = Exits n \<Longrightarrow> n \<noteq> 0"
proof (induction argv o' rule: mkboot_args.induct)
  case (3 arg val rest o')
  have "mkboot_opt arg val o' = Exits m \<Longrightarrow> m \<noteq> 0" for m
    by (auto simp: mkboot_opt_def Let_def split: if_splits)
  with 3 show ?case by (auto split: run.splits)
qed simp_all

lemma mkbootimg_outcome:
  assumes "mkbootimg_main fdt sha1 h argv = Some (st, fs)"
  shows "st = 0 \<and> (\<exists>img bs. fs = (files h)(img \<mapsto> bs)) \<or>
    st \<noteq> 0 \<and> (fs = files h \<or> (\<exists>img. fs = (files h)(img := None)))"
proof -
  have w: "write_image h img ws sig = Some (st, fs) \<Longrightarrow> ?thesis" for img ws sig
    by (simp add: write_image_def split: option.splits if_splits; blast)
  consider img ws sig where "write_image h img ws sig = Some (st, fs)" | "st \<noteq> 0" "fs = files h"
    using assms mkboot_args_exit [of argv mkboot_defaults] unfolding mkbootimg_main_def Let_def
    by (auto dest: load_parts_exit split: run.splits option.splits if_splits)
  then show ?thesis using w by cases blast+
qed

interpretation mkboot: image_tool "mkbootimg_main fdt sha1" for fdt sha1
  by unfold_locales (auto dest!: mkbootimg_outcome)

lemma dvd_gap_iff:
  fixes p s r u :: nat
  assumes "p dvd u" "r \<le> u"
  shows "p dvd s + (u - r) \<longleftrightarrow> s mod p = r mod p"
proof -
  have "int p dvd int (s + (u - r)) \<longleftrightarrow> int p dvd (int s - int r) + int u"
    using assms(2) by (simp add: of_nat_diff algebra_simps)
  also have "\<dots> \<longleftrightarrow> int p dvd int s - int r"
    using assms(1) by (simp add: dvd_add_left_iff)
  also have "\<dots> \<longleftrightarrow> s mod p = r mod p"
    by (simp add: mod_eq_dvd_iff [symmetric] flip: of_nat_mod)
  finally show ?thesis by (simp only: of_nat_dvd_iff)
qed

section \<open>Theorems\<close>

text \<open>
  C21. The image of \<open>mkbootimg\<close>, for every accepted set of options and every set of parts that can be
  written: the program ends with status 0 and its output is the header, the kernel and the ramdisk,
  each padded to whole pages, followed by the optional parts.
\<close>

theorem mkbootimg_layout:
  assumes "\<And>x. length (sha1 x) = 20" "host_ok h" "mkboot_args argv mkboot_defaults = Goes o'"
    and "boot_request o' img kfn rfn" "load_parts fdt h o' kfn rfn = Goes p" "parts_fit p"
  shows "mkbootimg_main fdt sha1 h argv
    = Some (0, (files h)(img \<mapsto> boot_image (make_hdr sha1 o' p) p (unat (pagesize o'))))"
  using assms by (rule mkbootimg_image)

text \<open>
  C22. Round trip: \<open>unpackbootimg\<close> on the output of \<open>mkbootimg\<close> writes back the kernel, the ramdisk and
  the command line, and the base address as text that the option \<open>--base\<close> reads back, for the default
  kernel offset, before it reaches its write to a closed stream.
\<close>

theorem bootimg_roundtrip:
  assumes "\<And>x. length (sha1 x) = 20" "host_ok h" "mkboot_args argv mkboot_defaults = Goes o'"
    and "boot_request o' img kfn rfn" "load_parts fdt h o' kfn rfn = Goes p" "parts_fit p"
    and "CHR 0x00 \<notin> set (o_cmdline o')" "ramdisk_suffix (part_bytes (ramdisk_data p)) = Some suf"
    and "length dir + length (basename_of img) + 20 < 4095" "kernel_offset o' = 0x00008000"
  shows "\<exists>fs fs' b. mkbootimg_main fdt sha1 h argv = Some (0, fs)
    \<and> unpackbootimg_main (h\<lparr>files := fs\<rparr>) [''-i'', img, ''-o'', dir] = Some (Writes_closed fs')
    \<and> fs' (out_name dir img ''-zImage'') = Some (fst (kernel_data p))
    \<and> fs' (out_name dir img suf) = Some (part_bytes (ramdisk_data p))
    \<and> fs' (out_name dir img ''-cmdline'') = Some (bytes_of (o_cmdline o') @ [10])
    \<and> fs' (out_name dir img ''-base'') = Some (bytes_of b @ [10]) \<and> strtoul 16 b = ucast (base o')"
proof -
  let ?fs = "(files h)(img \<mapsto> boot_image (make_hdr sha1 o' p) p (unat (pagesize o')))"
  let ?h = "h\<lparr>files := ?fs\<rparr>"
  have h: "host_ok ?h" using assms(2) by (simp add: host_ok_def)
  have suf: "suf = ''-ramdisk.gz'' \<or> suf = ''-ramdisk.lz4''"
    using assms(8) by (auto simp: ramdisk_suffix_def split: list.splits if_splits)
  obtain fs' where un: "unpackbootimg_main ?h [''-i'', img, ''-o'', dir] = Some (Writes_closed (fs'(
      out_name dir img ''-zImage'' \<mapsto> fst (kernel_data p), out_name dir img suf \<mapsto> part_bytes (ramdisk_data p),
      out_name dir img ''-second'' \<mapsto> [])))"
    and tx: "put_texts ?h dir img (make_hdr sha1 o' p) (bytes_of (o_cmdline o')) (files ?h) = Some fs'"
    using unpackbootimg_image [of sha1, OF assms(1) h assms(3,4,7) load_parts_good [OF assms(5,6)] assms(8,9)] by auto
  have c: "create_ok ?h = (\<lambda>_. True)" using h by (simp only: host_ok_def)
  note eq = option.inject [THEN iffD1, OF trans [OF tx [symmetric] put_texts_ok [OF c assms(9)]]]
  have texts: "fs' (out_name dir img ''-cmdline'') = Some (bytes_of (o_cmdline o') @ [10])"
    "fs' (out_name dir img ''-base'') = Some (bytes_of (show_08x (base o')) @ [10])"
    unfolding eq by (simp_all add: assms(10))
  let ?fs' = "fs'(out_name dir img ''-zImage'' \<mapsto> fst (kernel_data p),
    out_name dir img suf \<mapsto> part_bytes (ramdisk_data p), out_name dir img ''-second'' \<mapsto> [])"
  have "?fs' (out_name dir img ''-zImage'') = Some (fst (kernel_data p))"
    "?fs' (out_name dir img suf) = Some (part_bytes (ramdisk_data p))"
    "?fs' (out_name dir img ''-cmdline'') = Some (bytes_of (o_cmdline o') @ [10])"
    "?fs' (out_name dir img ''-base'') = Some (bytes_of (show_08x (base o')) @ [10])"
    using suf by (elim disjE; simp add: texts)+
  with mkbootimg_image [of sha1, OF assms(1-6)] un strtoul_show_08x [of "base o'"] show ?thesis
    by (intro exI [of _ ?fs] exI [of _ ?fs'] exI [of _ "show_08x (base o')"] conjI)
qed

text \<open>
  C23. The second stage is padded by the size of the ramdisk. With a second stage the device tree
  therefore starts at a page boundary exactly when the two sizes agree modulo the page size.
\<close>

theorem dt_aligned_iff:
  assumes "\<And>x. length (sha1 x) = 20" "host_ok h" "mkboot_args argv mkboot_defaults = Goes o'"
    and "boot_request o' img kfn rfn" "load_parts fdt h o' kfn rfn = Goes p" "parts_fit p"
    and "second_data p = Some (sb, sn)" "dt_data p = Some (db, dn)"
  shows "\<exists>fs pre rest. mkbootimg_main fdt sha1 h argv = Some (0, fs) \<and> fs img = Some (pre @ db @ rest)
    \<and> (unat (pagesize o') dvd length pre \<longleftrightarrow>
        length sb mod unat (pagesize o') = length (part_bytes (ramdisk_data p)) mod unat (pagesize o'))"
proof -
  let ?ps = "unat (pagesize o')" let ?rd = "part_bytes (ramdisk_data p)"
  let ?hdr = "make_hdr sha1 o' p" let ?g = "page_up_nat ?ps (length ?rd) - length ?rd"
  have "pagesize o' \<in> set page_sizes"
    by (rule args_pagesize [OF assms(3)]) (simp add: mkboot_defaults_def page_sizes_def)
  then have pos: "0 < ?ps" by (auto simp: page_sizes_def)
  define A where "A = pad_blob ?ps (hdr_bytes ?hdr) @ pad_blob ?ps (fst (kernel_data p)) @ pad_blob ?ps ?rd"
  have A: "?ps dvd length A" using pos by (simp add: A_def)
  let ?pre = "A @ sb @ replicate ?g 0"
  obtain rest where im: "boot_image ?hdr p ?ps = ?pre @ db @ rest"
    unfolding boot_image_split assms(7,8) A_def by (simp add: part_bytes_def pad_blob_def [of _ db])
  have "?ps dvd length ?pre \<longleftrightarrow> ?ps dvd length sb + ?g" using A by (simp add: dvd_add_right_iff)
  also have "\<dots> \<longleftrightarrow> length sb mod ?ps = length ?rd mod ?ps"
    using pos by (intro dvd_gap_iff) (simp_all add: page_up_nat_ge)
  finally have iff: "?ps dvd length ?pre \<longleftrightarrow> length sb mod ?ps = length ?rd mod ?ps" .
  show ?thesis
    using mkbootimg_image [of sha1, OF assms(1-6)] iff im
    by (intro exI [of _ "(files h)(img \<mapsto> boot_image ?hdr p ?ps)"] exI [of _ ?pre] exI [of _ rest]) simp
qed



section \<open>Witnesses\<close>

definition wit_boot :: host where
  "wit_boot = good_host [''k'' \<mapsto> [1, 2, 3], ''r'' \<mapsto> [0x1f, 0x8b], ''s'' \<mapsto> [9], ''t'' \<mapsto> [7, 7]] Map.empty"

definition wit_argv :: "string list" where
  "wit_argv = [''--kernel'', ''k'', ''--ramdisk'', ''r'', ''--second'', ''s'', ''--dt'', ''t'', ''--cmdline'', ''quiet'', ''-o'', ''b'']"

definition wit_opts :: mkboot_opts where
  "wit_opts = mkboot_defaults\<lparr>kernel_fn := Some ''k'', ramdisk_fn := Some ''r'', second_fn := Some ''s'',
     dt_fn := Some ''t'', o_cmdline := ''quiet'', bootimg := Some ''b''\<rparr>"

definition wit_parts :: boot_parts where
  "wit_parts = \<lparr>kernel_data = ([1, 2, 3], 3), ramdisk_data = Some ([0x1f, 0x8b], 2), second_data = Some ([9], 1),
     dt_data = Some ([7, 7], 2), sig_data = None\<rparr>"

definition wit_sha :: "u8 list \<Rightarrow> u8 list" where
  "wit_sha bs = replicate 20 (of_nat (length bs))"

lemma wit_boot_facts:
  "length (wit_sha x) = 20" "host_ok wit_boot" "boot_request wit_opts ''b'' ''k'' ''r''" "parts_fit wit_parts"
  by (simp_all add: wit_sha_def host_ok_def wit_boot_def good_host_def boot_request_def wit_opts_def
      mkboot_defaults_def parts_fit_def wit_parts_def part_bytes_def)

lemma wit_boot_args: "mkboot_args wit_argv mkboot_defaults = Goes wit_opts"
  by (simp add: wit_argv_def mkboot_opt_def wit_opts_def)

lemma wit_boot_parts: "load_parts fdt wit_boot wit_opts ''k'' ''r'' = Goes wit_parts"
  by (simp add: load_parts_def load_part_def load_dt_def goes_on_def load_file_def wit_boot_def good_host_def wit_opts_def
      mkboot_defaults_def wit_parts_def to_int32_def)

theorem mkbootimg_layout_witness:
  "mkbootimg_main wit_fdt wit_sha wit_boot wit_argv
    = Some (0, (files wit_boot)(''b'' \<mapsto> boot_image (make_hdr wit_sha wit_opts wit_parts) wit_parts 2048))"
  using mkbootimg_layout [of wit_sha, OF wit_boot_facts(1,2) wit_boot_args wit_boot_facts(3) wit_boot_parts wit_boot_facts(4)]
  by (simp add: wit_opts_def mkboot_defaults_def)

theorem bootimg_roundtrip_witness:
  "\<exists>fs fs' b. mkbootimg_main wit_fdt wit_sha wit_boot wit_argv = Some (0, fs)
    \<and> unpackbootimg_main (wit_boot\<lparr>files := fs\<rparr>) [''-i'', ''b'', ''-o'', ''o''] = Some (Writes_closed fs')
    \<and> fs' (out_name ''o'' ''b'' ''-zImage'') = Some [1, 2, 3] \<and> fs' (out_name ''o'' ''b'' ''-ramdisk.gz'') = Some [0x1f, 0x8b]
    \<and> fs' (out_name ''o'' ''b'' ''-base'') = Some (bytes_of b @ [10]) \<and> strtoul 16 b = 0x10000000"
proof -
  have a: "CHR 0x00 \<notin> set (o_cmdline wit_opts)" "ramdisk_suffix (part_bytes (ramdisk_data wit_parts)) = Some ''-ramdisk.gz''"
    "length ''o'' + length (basename_of ''b'') + 20 < 4095" "kernel_offset wit_opts = 0x00008000"
    by (simp_all add: wit_opts_def mkboot_defaults_def wit_parts_def ramdisk_suffix_def part_bytes_def basename_of_def)
  have b: "fst (kernel_data wit_parts) = [1, 2, 3]" "part_bytes (ramdisk_data wit_parts) = [0x1f, 0x8b]"
    "ucast (base wit_opts) = (0x10000000 :: u64)"
    by (simp_all add: wit_opts_def mkboot_defaults_def wit_parts_def part_bytes_def)
  from bootimg_roundtrip [of wit_sha, OF wit_boot_facts(1,2) wit_boot_args wit_boot_facts(3) wit_boot_parts [of wit_fdt] wit_boot_facts(4) a]
  show ?thesis unfolding b by blast
qed

theorem dt_aligned_iff_witness:
  "\<exists>fs pre rest. mkbootimg_main wit_fdt wit_sha wit_boot wit_argv = Some (0, fs) \<and> fs ''b'' = Some (pre @ [7, 7] @ rest)
    \<and> \<not> 2048 dvd length pre"
proof -
  have s: "second_data wit_parts = Some ([9], 1)" "dt_data wit_parts = Some ([7, 7], 2)"
    "unat (pagesize wit_opts) = 2048" "length (part_bytes (ramdisk_data wit_parts)) = 2"
    by (simp_all add: wit_parts_def wit_opts_def mkboot_defaults_def part_bytes_def)
  have n: "\<not> length [9 :: u8] mod 2048 = 2 mod 2048" by simp
  from dt_aligned_iff [of wit_sha, OF wit_boot_facts(1,2) wit_boot_args wit_boot_facts(3) wit_boot_parts [of wit_fdt] wit_boot_facts(4) s(1,2)]
  show ?thesis unfolding s(3,4) using n by blast
qed



end
