(* ===== verification/Usb.thy ===== *)
theory Usb
  imports HostTools
begin

text \<open>
  The USB service, \<open>src/aidl/usb/Usb.cpp\<close>: reading the state of the type-C ports from sysfs, switching
  roles, the notifications to the framework, the handling of kernel events, and the life of the
  worker thread. Sysfs is an explicit state with the reactions of the kernel as functions; a binder
  call maps a service to a service, and \<open>None\<close> is the death of the process (an exception nobody
  catches, or a union read with the wrong tag). What the callbacks answer is only logged.
\<close>

section \<open>Data\<close>

datatype Status = SUCCESS | ERROR | UNRECOGNIZED_ROLE | NOT_SUPPORTED
datatype PortPowerRole = PR_NONE | PR_SOURCE | PR_SINK
datatype PortDataRole = DR_NONE | DR_HOST | DR_DEVICE
datatype PortMode = PM_NONE | PM_UFP | PM_DFP | PM_DRP | PM_AUDIO_ACCESSORY | PM_DEBUG_ACCESSORY
datatype ContaminantProtectionMode = CPM_NONE
datatype ContaminantProtectionStatus = CP_NONE | CP_FORCE_SINK
datatype ContaminantDetectionStatus = CD_DISABLED | CD_NOT_DETECTED | CD_DETECTED
datatype UsbDataStatus = DATA_ENABLED | DATA_DISABLED_FORCE

datatype PortRole = powerRole PortPowerRole | dataRole PortDataRole | mode PortMode
datatype PortRoleTag = Tag_powerRole | Tag_dataRole | Tag_mode

fun getTag :: "PortRole \<Rightarrow> PortRoleTag" where
  "getTag (powerRole _) = Tag_powerRole"
| "getTag (dataRole _) = Tag_dataRole"
| "getTag (mode _) = Tag_mode"

text \<open>Reading a member of the union with another tag aborts.\<close>

fun get_powerRole :: "PortRole \<Rightarrow> PortPowerRole option" where
  "get_powerRole (powerRole r) = Some r"
| "get_powerRole _ = None"

fun get_dataRole :: "PortRole \<Rightarrow> PortDataRole option" where
  "get_dataRole (dataRole r) = Some r"
| "get_dataRole _ = None"

fun get_mode :: "PortRole \<Rightarrow> PortMode option" where
  "get_mode (mode r) = Some r"
| "get_mode _ = None"

record PortStatus =
  portName :: string
  currentDataRole :: PortDataRole
  currentPowerRole :: PortPowerRole
  currentMode :: PortMode
  canChangeMode :: bool
  canChangeDataRole :: bool
  canChangePowerRole :: bool
  supportedModes :: "PortMode list"
  supportedContaminantProtectionModes :: "ContaminantProtectionMode list"
  contaminantProtectionStatus :: ContaminantProtectionStatus
  contaminantDetectionStatus :: ContaminantDetectionStatus
  supportsEnableContaminantPresenceDetection :: bool
  supportsEnableContaminantPresenceProtection :: bool
  usbDataStatus :: "UsbDataStatus list"

definition PortStatus_new :: PortStatus where
  "PortStatus_new =
     \<lparr>portName = [], currentDataRole = DR_NONE, currentPowerRole = PR_NONE, currentMode = PM_NONE,
      canChangeMode = False, canChangeDataRole = False, canChangePowerRole = False,
      supportedModes = [], supportedContaminantProtectionModes = [], contaminantProtectionStatus = CP_NONE,
      contaminantDetectionStatus = CD_DISABLED, supportsEnableContaminantPresenceDetection = False,
      supportsEnableContaminantPresenceProtection = False, usbDataStatus = []\<rparr>"

datatype notification =
    notifyEnableUsbDataStatus string bool Status int
  | notifyEnableUsbDataWhileDockedStatus string Status int
  | notifyResetUsbPortStatus string Status int
  | notifyRoleSwitchStatus string PortRole Status int
  | notifyLimitPowerTransferStatus string bool Status int
  | notifyPortStatusChange "PortStatus list" Status
  | notifyQueryPortStatus string Status int
  | notifyContaminantEnabledStatus string bool Status int

text \<open>
  Sysfs and the rest of the system: the readable nodes, which nodes can be opened for writing, whether
  \<open>fputs\<close> reports success, how the nodes react to a write, the entries of the type-C class (with
  whether they are links), which directories exist, the system properties, and the order in which
  an unordered map is walked.
\<close>

record sysfs =
  nodes :: "string \<rightharpoonup> string"
  write_opens :: "string \<Rightarrow> bool"
  fputs_ok :: "string \<Rightarrow> string \<Rightarrow> bool"
  reacts :: "string \<Rightarrow> string \<Rightarrow> (string \<rightharpoonup> string) \<Rightarrow> (string \<rightharpoonup> string)"
  typec_entries :: "(string \<times> bool) list option"
  dir_there :: "string \<Rightarrow> bool"
  property :: "string \<Rightarrow> string"
  bucket_order :: "(string \<times> bool) list \<Rightarrow> (string \<times> bool) list"

record Usb =
  mCallback :: "nat option"
  mPartnerUp :: bool
  notified :: "notification list"
  sys :: sysfs

definition kTypecPath :: string where "kTypecPath = ''/sys/class/typec/''"
definition kDataRoleNode :: string where "kDataRoleNode = ''/data_role''"
definition kPowerRoleNode :: string where "kPowerRoleNode = ''/power_role''"
definition USB_DATA_PATH :: string where
  "USB_DATA_PATH = ''/sys/devices/virtual/usb_notify/usb_control/usb_data_enabled''"
definition CONTAMINANT_DETECTION_PATH :: string where
  "CONTAMINANT_DETECTION_PATH = ''/sys/devices/virtual/sec/ccic/water''"
definition DISABLE_CONTAMINANT_DETECTION :: string where
  "DISABLE_CONTAMINANT_DETECTION = ''vendor.usb.contaminantdisable''"
definition UEVENT_MSG_LEN :: nat where "UEVENT_MSG_LEN = 2048"

definition Usb_new :: "sysfs \<Rightarrow> Usb" where
  "Usb_new s = \<lparr>mCallback = None, mPartnerUp = False, notified = [], sys = s\<rparr>"

text \<open>
  The constructor makes the condition variable of the partner. Each call of the thread library can fail with an error
  number, which aborts the process.
\<close>

definition Usb_construct :: "int \<Rightarrow> int \<Rightarrow> int \<Rightarrow> int \<Rightarrow> sysfs \<Rightarrow> Usb option" where
  "Usb_construct condattr_init condattr_setclock cond_init condattr_destroy s =
     (if condattr_init \<noteq> 0 then None
      else if condattr_setclock \<noteq> 0 then None
      else if cond_init \<noteq> 0 then None
      else if condattr_destroy \<noteq> 0 then None
      else Some (Usb_new s))"

section \<open>Files and strings\<close>

definition Trim :: "string \<Rightarrow> string" where
  "Trim s = rev (dropWhile is_space (rev (dropWhile is_space s)))"

text \<open>\<open>readFile\<close>: the first line; the contents stay as they were when there is none.\<close>

definition readFile :: "sysfs \<Rightarrow> string \<Rightarrow> string \<Rightarrow> string option" where
  "readFile s filename contents =
     (case nodes s filename of
        None \<Rightarrow> None
      | Some t \<Rightarrow> Some (if t = [] then contents else takeWhile (\<lambda>c. c \<noteq> CHR 0x0A) t))"

text \<open>Writing to a node: whether it could be opened and what \<open>fputs\<close> said, and the nodes afterwards.\<close>

definition write_node :: "sysfs \<Rightarrow> string \<Rightarrow> string \<Rightarrow> bool option \<times> sysfs" where
  "write_node s filename text =
     (if \<not> write_opens s filename then (None, s)
      else (Some (fputs_ok s filename text), s\<lparr>nodes := reacts s filename text (nodes s)\<rparr>))"

definition find_char :: "char \<Rightarrow> string \<Rightarrow> nat option" where
  "find_char c s = (if c \<in> set s then Some (length (takeWhile (\<lambda>x. x \<noteq> c) s)) else None)"

text \<open>\<open>extractRole\<close>; the length wraps to a huge number when the brackets are the wrong way around.\<close>

definition extractRole :: "string \<Rightarrow> string" where
  "extractRole roleName =
     (case (find_char (CHR ''['') roleName, find_char (CHR '']'') roleName) of
        (Some i, Some j) \<Rightarrow>
          if i < j then take (j - i - 1) (drop (i + 1) roleName) else drop (i + 1) roleName
      | _ \<Rightarrow> roleName)"

text \<open>\<open>std::stoi\<close> throws without a digit and when the number does not fit.\<close>

definition stoi :: "string \<Rightarrow> int option" where
  "stoi s =
     (let (neg, t) = split_sign (dropWhile is_space s) in
      case t of
        [] \<Rightarrow> None
      | c # _ \<Rightarrow> if (case digit_value c of Some d \<Rightarrow> d < 10 | None \<Rightarrow> False)
                 then chk32 (if neg then - int (digits_value 10 t 0) else int (digits_value 10 t 0))
                 else None)"

definition appendRoleNodeHelper :: "string \<Rightarrow> PortRoleTag \<Rightarrow> string" where
  "appendRoleNodeHelper port tag =
     (case tag of
        Tag_dataRole \<Rightarrow> kTypecPath @ port @ kDataRoleNode
      | Tag_powerRole \<Rightarrow> kTypecPath @ port @ kPowerRoleNode
      | Tag_mode \<Rightarrow> kTypecPath @ port @ ''/port_type'')"

fun convertRoletoString :: "PortRole \<Rightarrow> string" where
  "convertRoletoString (powerRole PR_SOURCE) = ''source''"
| "convertRoletoString (powerRole PR_SINK) = ''sink''"
| "convertRoletoString (dataRole DR_HOST) = ''host''"
| "convertRoletoString (dataRole DR_DEVICE) = ''device''"
| "convertRoletoString (mode PM_UFP) = ''sink''"
| "convertRoletoString (mode PM_DFP) = ''source''"
| "convertRoletoString _ = ''none''"

section \<open>Reading the state of the ports\<close>

definition getAccessoryConnected :: "sysfs \<Rightarrow> string \<Rightarrow> Status \<times> string" where
  "getAccessoryConnected s port =
     (case nodes s (kTypecPath @ port @ ''-partner/accessory_mode'') of
        None \<Rightarrow> (ERROR, [])
      | Some t \<Rightarrow> (SUCCESS, Trim t))"

text \<open>The part of \<open>getCurrentRoleHelper\<close> that sets the role from the name that was read.\<close>

definition set_role :: "PortRole \<Rightarrow> string \<Rightarrow> Status \<times> PortRole" where
  "set_role role roleName =
     (if roleName = ''source'' then (SUCCESS, powerRole PR_SOURCE)
      else if roleName = ''sink'' then (SUCCESS, powerRole PR_SINK)
      else if roleName = ''host'' then
        (SUCCESS, if getTag role = Tag_dataRole then dataRole DR_HOST else mode PM_DFP)
      else if roleName = ''device'' then
        (SUCCESS, if getTag role = Tag_dataRole then dataRole DR_DEVICE else mode PM_UFP)
      else if roleName \<noteq> ''none'' then (UNRECOGNIZED_ROLE, role)
      else (SUCCESS, role))"

definition role_from_node :: "sysfs \<Rightarrow> string \<Rightarrow> PortRole \<Rightarrow> Status \<times> PortRole" where
  "role_from_node s filename role =
     (case nodes s filename of
        None \<Rightarrow> (ERROR, role)
      | Some t \<Rightarrow> set_role role (extractRole (Trim t)))"

definition getCurrentRoleHelper :: "sysfs \<Rightarrow> string \<Rightarrow> bool \<Rightarrow> PortRole \<Rightarrow> Status \<times> PortRole" where
  "getCurrentRoleHelper s port conn currentRole =
     (let (filename, role) =
        (case currentRole of
           powerRole _ \<Rightarrow> (kTypecPath @ port @ kPowerRoleNode, powerRole PR_NONE)
         | dataRole _ \<Rightarrow> (kTypecPath @ port @ kDataRoleNode, dataRole DR_NONE)
         | mode _ \<Rightarrow> (kTypecPath @ port @ kDataRoleNode, mode PM_NONE))
      in if \<not> conn then (SUCCESS, role)
         else if getTag role = Tag_mode then
           (let (st, accessory) = getAccessoryConnected s port in
            if st \<noteq> SUCCESS then (ERROR, role)
            else if accessory = ''analog_audio'' then (SUCCESS, mode PM_AUDIO_ACCESSORY)
            else if accessory = ''debug'' then (SUCCESS, mode PM_DEBUG_ACCESSORY)
            else role_from_node s filename role)
         else role_from_node s filename role)"

text \<open>The names of the ports and whether a partner is connected, in the order of first insertion.\<close>

fun has_partner :: "string \<Rightarrow> bool" where
  "has_partner [] = False"
| "has_partner (c # s) = (take 8 (c # s) = ''-partner'' \<or> has_partner s)"

definition strtok_dash :: "string \<Rightarrow> string" where
  "strtok_dash s = takeWhile (\<lambda>c. c \<noteq> CHR ''-'') (dropWhile (\<lambda>c. c = CHR ''-'') s)"

fun set_name :: "string \<Rightarrow> bool \<Rightarrow> (string \<times> bool) list \<Rightarrow> (string \<times> bool) list" where
  "set_name n b [] = [(n, b)]"
| "set_name n b ((m, c) # ns) = (if m = n then (n, b) # ns else (m, c) # set_name n b ns)"

fun collect_names :: "(string \<times> bool) list \<Rightarrow> (string \<times> bool) list \<Rightarrow> (string \<times> bool) list" where
  "collect_names [] names = names"
| "collect_names ((d_name, is_link) # es) names =
     collect_names es
       (if \<not> is_link then names
        else if \<not> has_partner d_name then
          (if d_name \<in> fst ` set names then names else names @ [(d_name, False)])
        else set_name (strtok_dash d_name) True names)"

definition getTypeCPortNamesHelper :: "sysfs \<Rightarrow> (Status \<times> (string \<times> bool) list)" where
  "getTypeCPortNamesHelper s =
     (case typec_entries s of None \<Rightarrow> (ERROR, []) | Some es \<Rightarrow> (SUCCESS, collect_names es []))"

definition canSwitchRoleHelper :: "sysfs \<Rightarrow> string \<Rightarrow> bool" where
  "canSwitchRoleHelper s port =
     (case nodes s (kTypecPath @ port @ ''-partner/supports_usb_power_delivery'') of
        None \<Rightarrow> False
      | Some t \<Rightarrow> Trim t = ''yes'')"

text \<open>One round of the loop of \<open>getPortStatusHelper\<close>: the entry is left as far as it was filled.\<close>

definition fill_port :: "sysfs \<Rightarrow> string \<Rightarrow> bool \<Rightarrow> (bool \<times> PortStatus) option" where
  "fill_port s port conn =
     (let p = PortStatus_new\<lparr>portName := port\<rparr>;
          (st, role) = getCurrentRoleHelper s port conn (powerRole PR_NONE)
      in if st \<noteq> SUCCESS then Some (False, p)
      else do { pr \<leftarrow> get_powerRole role;
        let p = p\<lparr>currentPowerRole := pr\<rparr>;
        let (st, role) = getCurrentRoleHelper s port conn (dataRole DR_NONE);
        if st \<noteq> SUCCESS then Some (False, p)
        else do { dr \<leftarrow> get_dataRole role;
          let p = p\<lparr>currentDataRole := dr\<rparr>;
          let (st, role) = getCurrentRoleHelper s port conn (mode PM_NONE);
          if st \<noteq> SUCCESS then Some (False, p)
          else do { m \<leftarrow> get_mode role;
            let can = conn \<and> canSwitchRoleHelper s port;
            enabled \<leftarrow> (case nodes s USB_DATA_PATH of
                          None \<Rightarrow> Some True
                        | Some t \<Rightarrow> map_option (\<lambda>n. n \<noteq> 0) (stoi (Trim t)));
            Some (True, p\<lparr>currentMode := m, canChangeMode := True, canChangeDataRole := can,
                          canChangePowerRole := can, supportedModes := [PM_DRP],
                          usbDataStatus := [if enabled then DATA_ENABLED else DATA_DISABLED_FORCE]\<rparr>) } } })"

text \<open>The loop over the ports: on an error the remaining entries stay as \<open>resize\<close> made them.\<close>

fun fill_ports :: "sysfs \<Rightarrow> (string \<times> bool) list \<Rightarrow> (Status \<times> PortStatus list) option" where
  "fill_ports s [] = Some (SUCCESS, [])"
| "fill_ports s ((port, conn) # ports) =
     do { (ok, p) \<leftarrow> fill_port s port conn;
          if ok then do { (st, ps) \<leftarrow> fill_ports s ports; Some (st, p # ps) }
          else Some (ERROR, p # replicate (length ports) PortStatus_new) }"

definition getPortStatusHelper :: "sysfs \<Rightarrow> (Status \<times> PortStatus list) option" where
  "getPortStatusHelper s =
     (let (result, names) = getTypeCPortNamesHelper s in
      if result = SUCCESS then fill_ports s (bucket_order s names) else Some (ERROR, []))"

text \<open>
  The loop of \<open>queryMoistureDetectionStatus\<close>: \<open>status\<close> lives across the rounds; an error ends the loop
  and leaves the ports behind it alone.
\<close>

fun moisture_loop :: "sysfs \<Rightarrow> string \<Rightarrow> PortStatus list \<Rightarrow> Status \<times> PortStatus list" where
  "moisture_loop s status [] = (SUCCESS, [])"
| "moisture_loop s status (p # ps) =
     (let p = p\<lparr>supportedContaminantProtectionModes := supportedContaminantProtectionModes p @ [CPM_NONE],
               contaminantProtectionStatus := CP_NONE, contaminantDetectionStatus := CD_DISABLED,
               supportsEnableContaminantPresenceDetection := True,
               supportsEnableContaminantPresenceProtection := False\<rparr>
      in if property s DISABLE_CONTAMINANT_DETECTION \<noteq> ''true'' then
           (case readFile s CONTAMINANT_DETECTION_PATH status of
              None \<Rightarrow> (ERROR, p # ps)
            | Some status \<Rightarrow>
                (let p = (if status = ''1'' then p\<lparr>contaminantDetectionStatus := CD_DETECTED,
                                                 contaminantProtectionStatus := CP_FORCE_SINK\<rparr>
                          else p\<lparr>contaminantDetectionStatus := CD_NOT_DETECTED\<rparr>);
                     (st, qs) = moisture_loop s status ps
                 in (st, p # qs)))
         else (let (st, qs) = moisture_loop s status ps in (st, p # qs)))"

definition queryMoistureDetectionStatus :: "sysfs \<Rightarrow> PortStatus list \<Rightarrow> Status \<times> PortStatus list" where
  "queryMoistureDetectionStatus s ps = moisture_loop s [] ps"

section \<open>The binder calls\<close>

definition notify :: "notification \<Rightarrow> Usb \<Rightarrow> Usb" where
  "notify n u = (if mCallback u \<noteq> None then u\<lparr>notified := notified u @ [n]\<rparr> else u)"

definition queryVersionHelper :: "Usb \<Rightarrow> (PortStatus list \<times> Usb) option" where
  "queryVersionHelper u =
     do { (status, ps) \<leftarrow> getPortStatusHelper (sys u);
          let (_, ps) = queryMoistureDetectionStatus (sys u) ps;
          Some (ps, notify (notifyPortStatusChange ps status) u) }"

definition enableUsbData :: "string \<Rightarrow> bool \<Rightarrow> int \<Rightarrow> Usb \<Rightarrow> Usb option" where
  "enableUsbData in_portName in_enable in_transactionId u =
     (let (r, s) = write_node (sys u) USB_DATA_PATH (if in_enable then ''1'' else ''0'');
          result = (r = Some True);
          u = notify (notifyEnableUsbDataStatus in_portName in_enable
                        (if result then SUCCESS else ERROR) in_transactionId) (u\<lparr>sys := s\<rparr>)
      in map_option snd (queryVersionHelper u))"

definition enableUsbDataWhileDocked :: "string \<Rightarrow> int \<Rightarrow> Usb \<Rightarrow> Usb" where
  "enableUsbDataWhileDocked in_portName in_transactionId u =
     notify (notifyEnableUsbDataWhileDockedStatus in_portName NOT_SUPPORTED in_transactionId) u"

definition resetUsbPort :: "string \<Rightarrow> int \<Rightarrow> Usb \<Rightarrow> Usb" where
  "resetUsbPort in_portName in_transactionId u =
     notify (notifyResetUsbPortStatus in_portName NOT_SUPPORTED in_transactionId) u"

definition limitPowerTransfer :: "string \<Rightarrow> bool \<Rightarrow> int \<Rightarrow> Usb \<Rightarrow> Usb" where
  "limitPowerTransfer in_portName in_limit in_transactionId u =
     (if in_transactionId \<ge> 0
      then notify (notifyLimitPowerTransferStatus in_portName False NOT_SUPPORTED in_transactionId) u
      else u)"

definition queryPortStatus :: "int \<Rightarrow> Usb \<Rightarrow> Usb option" where
  "queryPortStatus in_transactionId u =
     do { (_, u) \<leftarrow> queryVersionHelper u;
          Some (notify (notifyQueryPortStatus ''all'' SUCCESS in_transactionId) u) }"

definition enableContaminantPresenceDetection :: "string \<Rightarrow> bool \<Rightarrow> int \<Rightarrow> Usb \<Rightarrow> Usb option" where
  "enableContaminantPresenceDetection in_portName in_enable in_transactionId u =
     map_option snd (queryVersionHelper
       (notify (notifyContaminantEnabledStatus in_portName True SUCCESS in_transactionId) u))"

subsection \<open>Switching a role\<close>

definition switchToDrp :: "string \<Rightarrow> sysfs \<Rightarrow> sysfs" where
  "switchToDrp port s = snd (write_node s (appendRoleNodeHelper port Tag_mode) ''dual'')"

text \<open>
  The wait for the partner: each return of \<open>pthread_cond_timedwait\<close> is a timeout or a wake-up, with the
  value of \<open>mPartnerUp\<close> at that moment. A wake-up without a partner waits again, with a new deadline.
  When the list ends the call is still waiting: \<open>None\<close>.
\<close>

datatype wake = Timedout bool | Woken bool

fun wait_partner :: "wake list \<Rightarrow> (bool \<times> bool) option" where
  "wait_partner [] = None"
| "wait_partner (Timedout up # ws) = Some (False, up)"
| "wait_partner (Woken up # ws) = (if \<not> up then wait_partner ws else Some (True, up))"

definition switchMode :: "string \<Rightarrow> PortRole \<Rightarrow> wake list \<Rightarrow> Usb \<Rightarrow> (bool \<times> Usb) option" where
  "switchMode port in_role ws u =
     (let (r, s) = write_node (sys u) (appendRoleNodeHelper port (getTag in_role)) (convertRoletoString in_role) in
      do { (roleSwitch, up) \<leftarrow>
             (case r of
                None \<Rightarrow> Some (False, mPartnerUp u)
              | Some False \<Rightarrow> Some (False, False)
              | Some True \<Rightarrow> wait_partner ws);
           let s = (if \<not> roleSwitch then switchToDrp port s else s);
           Some (roleSwitch, u\<lparr>sys := s, mPartnerUp := up\<rparr>) })"

definition switchRole_node :: "string \<Rightarrow> PortRole \<Rightarrow> Usb \<Rightarrow> bool \<times> Usb" where
  "switchRole_node filename in_role u =
     (let (r, s) = write_node (sys u) filename (convertRoletoString in_role);
          ok = (r = Some True \<and>
                (case nodes s filename of
                   None \<Rightarrow> False
                 | Some written \<Rightarrow> extractRole (Trim written) = convertRoletoString in_role))
      in (ok, u\<lparr>sys := s\<rparr>))"

definition switchRole :: "string \<Rightarrow> PortRole \<Rightarrow> int \<Rightarrow> wake list \<Rightarrow> Usb \<Rightarrow> Usb option" where
  "switchRole in_portName in_role in_transactionId ws u =
     do { (roleSwitch, u) \<leftarrow>
            (if getTag in_role = Tag_mode then switchMode in_portName in_role ws u
             else Some (switchRole_node (appendRoleNodeHelper in_portName (getTag in_role)) in_role u));
          Some (notify (notifyRoleSwitchStatus in_portName in_role
                          (if roleSwitch then SUCCESS else ERROR) in_transactionId) u) }"

section \<open>Kernel events\<close>

text \<open>The match with \<open>(add)(.*)(-partner)\<close>, where the dot does not match the end of a line.\<close>

definition partner_added :: "string \<Rightarrow> bool" where
  "partner_added cp \<longleftrightarrow>
     length cp \<ge> 11 \<and> take 3 cp = ''add'' \<and> drop (length cp - 8) cp = ''-partner''
     \<and> list_all (\<lambda>c. c \<noteq> CHR 0x0A \<and> c \<noteq> CHR 0x0D) (take (length cp - 11) (drop 3 cp))"

definition port_event :: "string \<Rightarrow> bool" where
  "port_event cp \<longleftrightarrow>
     take 14 cp = ''DEVTYPE=typec_'' \<or> take 10 cp = ''CCIC=WATER'' \<or> take 8 cp = ''CCIC=DRY''"

definition drp_if_alone :: "PortStatus \<Rightarrow> sysfs \<Rightarrow> sysfs" where
  "drp_if_alone p s =
     (if \<not> dir_there s (kTypecPath @ portName p @ ''-partner'') then switchToDrp (portName p) s else s)"

text \<open>The loop over the fields of a message; \<open>role_lock_free\<close> is the outcome of the \<open>trylock\<close>.\<close>

fun uevent_fields :: "bool \<Rightarrow> string list \<Rightarrow> Usb \<Rightarrow> Usb option" where
  "uevent_fields role_lock_free [] u = Some u"
| "uevent_fields role_lock_free (cp # cps) u =
     (if partner_added cp then uevent_fields role_lock_free cps (u\<lparr>mPartnerUp := True\<rparr>)
      else if port_event cp then
        do { (ps, u) \<leftarrow> queryVersionHelper u;
             Some (if role_lock_free then u\<lparr>sys := fold drp_if_alone ps (sys u)\<rparr> else u) }
      else uevent_fields role_lock_free cps u)"

text \<open>The fields of a message: its parts between zero bytes, up to the first empty one.\<close>

function nul_fields :: "string \<Rightarrow> string list" where
  "nul_fields s =
     (let f = takeWhile (\<lambda>c. c \<noteq> CHR 0x00) s in
      if f = [] then [] else f # nul_fields (drop (length f + 1) s))"
  by pat_completeness auto
termination
proof (relation "measure length")
  fix s f assume "f = takeWhile (\<lambda>c. c \<noteq> CHR 0x00) s" "f \<noteq> []"
  then show "(drop (length f + 1) s, s) \<in> measure length" by (cases s) auto
qed simp

declare nul_fields.simps [simp del]

definition uevent_event :: "bool \<Rightarrow> string option \<Rightarrow> Usb \<Rightarrow> Usb option" where
  "uevent_event role_lock_free received u =
     (case received of
        None \<Rightarrow> Some u
      | Some msg \<Rightarrow>
          if msg = [] \<or> length msg \<ge> UEVENT_MSG_LEN then Some u
          else uevent_fields role_lock_free (nul_fields msg) u)"

section \<open>The worker thread\<close>

text \<open>
  The threads that meet in \<open>setCallback\<close>: the binder thread that sets the callback, and the worker that
  runs \<open>work\<close>. The worker is at the head of its loop, on its way into \<open>epoll_wait\<close>, inside of it,
  handling a message (one about a port, which needs \<open>mLock\<close>, or another), inside of
  \<open>queryVersionHelper\<close> with \<open>mLock\<close>, or it has returned.
\<close>

datatype holder = By_setter | By_worker
datatype wpc = W_none | W_start | W_head | W_about | W_epoll | W_port | W_other | W_locked | W_exited
datatype spc = S_idle | S_kill | S_join

record usb_threads =
  cb_set :: bool
  mlock :: "holder option"
  destroyThread :: bool
  wpc :: wpc
  spc :: spc

definition usb_idle :: usb_threads where
  "usb_idle = \<lparr>cb_set = False, mlock = None, destroyThread = False, wpc = W_none, spc = S_idle\<rparr>"

text \<open>
  \<open>setCallback\<close> up to the point where it returns or has the callback removed and is about to send the
  signal. \<open>created\<close> is the outcome of \<open>pthread_create\<close>.
\<close>

definition setCallback_enter :: "bool \<Rightarrow> bool \<Rightarrow> usb_threads \<Rightarrow> usb_threads" where
  "setCallback_enter given created c =
     (if given = cb_set c then c
      else if \<not> given then c\<lparr>cb_set := False, mlock := Some By_setter, spc := S_kill\<rparr>
      else if created then c\<lparr>cb_set := True, destroyThread := False, wpc := W_start\<rparr>
      else c\<lparr>destroyThread := False\<rparr>)"

text \<open>\<open>pthread_kill\<close> with the handler, which runs at once and interrupts \<open>epoll_wait\<close>.\<close>

definition setCallback_kill :: "usb_threads \<Rightarrow> usb_threads" where
  "setCallback_kill c =
     c\<lparr>destroyThread := True, wpc := if wpc c = W_epoll then W_head else wpc c, spc := S_join\<rparr>"

text \<open>
  The end of \<open>setCallback\<close>, after the worker has been joined, or at once when \<open>pthread_kill\<close> reports
  that the thread is gone.
\<close>

definition setCallback_joined :: "usb_threads \<Rightarrow> usb_threads" where
  "setCallback_joined c = c\<lparr>wpc := W_none, mlock := None, spc := S_idle\<rparr>"

text \<open>The moves of \<open>work\<close>: every place it can go to next.\<close>

definition work_moves :: "usb_threads \<Rightarrow> usb_threads list" where
  "work_moves c =
     (case wpc c of
        W_start \<Rightarrow> [c\<lparr>wpc := W_head\<rparr>, c\<lparr>wpc := W_exited\<rparr>]
      | W_head \<Rightarrow> [c\<lparr>wpc := if destroyThread c then W_exited else W_about\<rparr>]
      | W_about \<Rightarrow> [c\<lparr>wpc := W_epoll\<rparr>]
      | W_epoll \<Rightarrow> [c\<lparr>wpc := W_port\<rparr>, c\<lparr>wpc := W_other\<rparr>, c\<lparr>wpc := W_exited\<rparr>]
      | W_port \<Rightarrow> if mlock c = None then [c\<lparr>mlock := Some By_worker, wpc := W_locked\<rparr>] else []
      | W_other \<Rightarrow> [c\<lparr>wpc := W_head\<rparr>]
      | W_locked \<Rightarrow> [c\<lparr>mlock := None, wpc := W_head\<rparr>]
      | _ \<Rightarrow> [])"

inductive usb_step :: "usb_threads \<Rightarrow> usb_threads \<Rightarrow> bool" where
  enter: "spc c = S_idle \<Longrightarrow> mlock c = None \<Longrightarrow> usb_step c (setCallback_enter given created c)"
| kill: "spc c = S_kill \<Longrightarrow> usb_step c (setCallback_kill c)"
| gone: "spc c = S_kill \<Longrightarrow> wpc c = W_exited \<Longrightarrow> usb_step c (setCallback_joined c)"
| joined: "spc c = S_join \<Longrightarrow> wpc c = W_exited \<Longrightarrow> usb_step c (setCallback_joined c)"
| worker: "c' \<in> set (work_moves c) \<Longrightarrow> usb_step c c'"

code_pred usb_step .

inductive_cases usb_stepE: "usb_step c c'"

section \<open>Lemmas\<close>

lemma notify_simps [simp]:
  "mCallback (notify n u) = mCallback u" "sys (notify n u) = sys u" "mPartnerUp (notify n u) = mPartnerUp u"
  by (simp_all add: notify_def)

lemma notified_notify [simp]:
  "notified (notify n u) = (if mCallback u \<noteq> None then notified u @ [n] else notified u)"
  by (simp add: notify_def)

text \<open>The invariant of the threads.\<close>

definition usb_inv :: "usb_threads \<Rightarrow> bool" where
  "usb_inv c \<longleftrightarrow>
     (mlock c = Some By_setter \<longleftrightarrow> spc c \<noteq> S_idle) \<and> (mlock c = Some By_worker \<longleftrightarrow> wpc c = W_locked)
     \<and> (wpc c = W_none \<longleftrightarrow> \<not> cb_set c \<and> spc c = S_idle) \<and> (spc c \<noteq> S_idle \<longrightarrow> \<not> cb_set c)
     \<and> (spc c = S_join \<longrightarrow> destroyThread c)"

lemma usb_inv_step: "usb_step c c' \<Longrightarrow> usb_inv c \<Longrightarrow> usb_inv c'"
  by (induction rule: usb_step.induct)
    (auto simp: usb_inv_def setCallback_enter_def setCallback_kill_def setCallback_joined_def work_moves_def
      split: wpc.splits if_splits)

interpretation usb_threads: invariant_system "\<lambda>c. c = usb_idle" usb_step usb_inv
  by unfold_locales (simp_all add: usb_inv_step, simp add: usb_inv_def usb_idle_def)

lemma usb_stuck_iff:
  assumes "usb_inv c"
  shows "(\<forall>c'. \<not> usb_step c c') \<longleftrightarrow> spc c = S_join \<and> wpc c = W_port"
proof
  assume stuck: "\<forall>c'. \<not> usb_step c c'"
  then have w: "work_moves c = []" by (metis last_in_set usb_step.worker)
  have "spc c \<noteq> S_kill" using stuck usb_step.kill by blast
  moreover have "spc c \<noteq> S_idle"
  proof
    assume i: "spc c = S_idle"
    then have "mlock c \<noteq> None" using stuck usb_step.enter by blast
    then have "wpc c = W_locked" using assms i by (cases "mlock c") (auto simp: usb_inv_def intro: holder.exhaust)
    then show False using w by (simp add: work_moves_def)
  qed
  ultimately have j: "spc c = S_join" by (cases "spc c") auto
  then have "wpc c \<noteq> W_exited" using stuck usb_step.joined by blast
  moreover have "wpc c \<noteq> W_none" using assms j by (simp add: usb_inv_def)
  ultimately show "spc c = S_join \<and> wpc c = W_port"
    using w j by (simp add: work_moves_def split: wpc.splits if_splits)
next
  assume p: "spc c = S_join \<and> wpc c = W_port"
  then have "mlock c \<noteq> None" using assms by (simp add: usb_inv_def)
  with p show "\<forall>c'. \<not> usb_step c c'"
    by (auto elim!: usb_stepE simp: work_moves_def)
qed

lemma reach_worker:
  "reach st usb_step c \<Longrightarrow> c' \<in> set (work_moves c) \<Longrightarrow> reach st usb_step c'"
  by (erule reach_step) (rule usb_step.worker)

text \<open>A port event that is taken just before the callback is removed.\<close>

lemma usb_deadlock_reachable:
  "\<exists>c. reach (\<lambda>c. c = usb_idle) usb_step c \<and> spc c = S_join \<and> wpc c = W_port"
proof -
  let ?R = "reach (\<lambda>c. c = usb_idle) usb_step"
  let ?s = "\<lambda>w. \<lparr>cb_set = True, mlock = None, destroyThread = False, wpc = w, spc = S_idle\<rparr>"
  let ?k = "\<lambda>d p. \<lparr>cb_set = False, mlock = Some By_setter, destroyThread = d, wpc = W_port, spc = p\<rparr>"
  have "?R usb_idle" by (rule reach_start) simp
  then have "?R (?s W_start)"
    using usb_step.enter [of usb_idle True True] by (auto simp: usb_idle_def setCallback_enter_def intro: reach_step)
  then have "?R (?s W_head)" by (rule reach_worker) (simp add: work_moves_def)
  then have "?R (?s W_about)" by (rule reach_worker) (simp add: work_moves_def)
  then have "?R (?s W_epoll)" by (rule reach_worker) (simp add: work_moves_def)
  then have "?R (?s W_port)" by (rule reach_worker) (simp add: work_moves_def)
  then have "?R (?k False S_kill)"
    using usb_step.enter [of "?s W_port" False] by (auto simp: setCallback_enter_def intro: reach_step)
  then have "?R (?k True S_join)"
    using usb_step.kill [of "?k False S_kill"] by (auto simp: setCallback_kill_def intro: reach_step)
  then show ?thesis by (intro exI [of _ "?k True S_join"]) simp
qed

subsection \<open>The names of the ports\<close>

definition port_names :: "(string \<times> bool) list \<Rightarrow> string set" where
  "port_names es = {d. (d, True) \<in> set es \<and> \<not> has_partner d} \<union> {strtok_dash d |d. (d, True) \<in> set es \<and> has_partner d}"

definition partner_of :: "(string \<times> bool) list \<Rightarrow> string \<Rightarrow> bool" where
  "partner_of es n \<longleftrightarrow> (\<exists>d. (d, True) \<in> set es \<and> has_partner d \<and> strtok_dash d = n)"

lemma set_name_keys: "fst ` set (set_name n b ns) = insert n (fst ` set ns)"
  by (induction n b ns rule: set_name.induct) auto

lemma set_name_distinct: "distinct (map fst ns) \<Longrightarrow> distinct (map fst (set_name n b ns))"
proof (induction n b ns rule: set_name.induct)
  case (2 n b m c ns)
  then show ?case using set_name_keys [of n b ns] by (auto simp: image_iff)
qed simp

lemma set_name_true: "(m, True) \<in> set (set_name n True ns) \<Longrightarrow> m = n \<or> (m, True) \<in> set ns"
  by (induction n True ns rule: set_name.induct) (auto split: if_splits)

lemma collect_names_spec:
  assumes "distinct (map fst ns)"
  shows "distinct (map fst (collect_names es ns)) \<and>
    fst ` set (collect_names es ns) = fst ` set ns \<union> port_names es \<and>
    (\<forall>m. (m, True) \<in> set (collect_names es ns) \<longrightarrow> (m, True) \<in> set ns \<or> partner_of es m)"
  using assms
proof (induction es ns rule: collect_names.induct)
  case (2 d l es ns)
  let ?ns = "if \<not> l then ns else if \<not> has_partner d then (if d \<in> fst ` set ns then ns else ns @ [(d, False)])
    else set_name (strtok_dash d) True ns"
  have d: "distinct (map fst ?ns)" using 2(2) set_name_distinct by auto
  have k: "fst ` set ?ns = fst ` set ns \<union> port_names [(d, l)]"
    by (auto simp: set_name_keys port_names_def)
  have u: "port_names ((d, l) # es) = port_names [(d, l)] \<union> port_names es"
    by (auto simp: port_names_def)
  have t: "(m, True) \<in> set ns \<or> partner_of ((d, l) # es) m" if "(m, True) \<in> set ?ns" for m
    using that by (auto simp: partner_of_def split: if_splits dest!: set_name_true)
  have p: "partner_of es m \<Longrightarrow> partner_of ((d, l) # es) m" for m by (auto simp: partner_of_def)
  from 2(1) [OF d] k u t p show ?case by (simp only: collect_names.simps) blast
qed (simp add: port_names_def partner_of_def)

text \<open>An entry that was filled: its name, and no role and no switching without a partner.\<close>

definition shows_roles :: "sysfs \<Rightarrow> PortStatus \<Rightarrow> bool" where
  "shows_roles s p \<longleftrightarrow>
     getCurrentRoleHelper s (portName p) True (powerRole PR_NONE) = (SUCCESS, powerRole (currentPowerRole p))
     \<and> getCurrentRoleHelper s (portName p) True (dataRole DR_NONE) = (SUCCESS, dataRole (currentDataRole p))
     \<and> getCurrentRoleHelper s (portName p) True (mode PM_NONE) = (SUCCESS, mode (currentMode p))
     \<and> canChangePowerRole p = canSwitchRoleHelper s (portName p)
     \<and> canChangeDataRole p = canSwitchRoleHelper s (portName p)"

definition roleless :: "PortStatus \<Rightarrow> bool" where
  "roleless p \<longleftrightarrow> currentPowerRole p = PR_NONE \<and> currentDataRole p = DR_NONE \<and> currentMode p = PM_NONE
     \<and> \<not> canChangeDataRole p \<and> \<not> canChangePowerRole p"

lemma fill_port_spec:
  assumes "fill_port s n conn = Some (True, p)"
  shows "portName p = n" "\<not> conn \<Longrightarrow> roleless p"
  using assms unfolding fill_port_def Let_def
  by (auto simp: getCurrentRoleHelper_def roleless_def PortStatus_new_def split: Option.bind_splits prod.splits if_splits)

lemma get_role_Some:
  "get_powerRole r = Some x \<longleftrightarrow> r = powerRole x" "get_dataRole r = Some y \<longleftrightarrow> r = dataRole y"
  "get_mode r = Some z \<longleftrightarrow> r = mode z"
  by (cases r; auto)+

lemma fill_port_roles:
  assumes "fill_port s n True = Some (True, p)"
  shows "shows_roles s p"
proof -
  obtain st1 r1 where 1: "getCurrentRoleHelper s n True (powerRole PR_NONE) = (st1, r1)" by fastforce
  obtain st2 r2 where 2: "getCurrentRoleHelper s n True (dataRole DR_NONE) = (st2, r2)" by fastforce
  obtain st3 r3 where 3: "getCurrentRoleHelper s n True (mode PM_NONE) = (st3, r3)" by fastforce
  have "portName p = n"
    by (rule fill_port_spec(1) [OF assms])
  moreover have "st1 = SUCCESS \<and> st2 = SUCCESS \<and> st3 = SUCCESS \<and> r1 = powerRole (currentPowerRole p)
      \<and> r2 = dataRole (currentDataRole p) \<and> r3 = mode (currentMode p)
      \<and> canChangePowerRole p = canSwitchRoleHelper s n \<and> canChangeDataRole p = canSwitchRoleHelper s n"
    using assms unfolding fill_port_def Let_def 1 2 3
    by (simp add: bind_eq_Some_conv get_role_Some split: if_splits) auto
  ultimately show ?thesis
    by (simp add: shows_roles_def 1 2 3)
qed

lemma fill_ports_spec:
  "fill_ports s ns = Some (SUCCESS, ps) \<Longrightarrow>
   map portName ps = map fst ns \<and> list_all2 (\<lambda>(n, conn) p. if conn then shows_roles s p else roleless p) ns ps"
proof (induction ns arbitrary: ps)
  case (Cons nc ns)
  obtain n conn where nc: "nc = (n, conn)" by (cases nc)
  from Cons.prems obtain p qs where p: "fill_port s n conn = Some (True, p)"
    and q: "fill_ports s ns = Some (SUCCESS, qs)" "ps = p # qs"
    by (auto simp: nc split: Option.bind_splits prod.splits if_splits)
  then show ?case using Cons.IH [OF q(1)] fill_port_spec [OF p] fill_port_roles [of s n p] by (cases conn) (auto simp: nc)
qed simp

lemma list_all2_split: "list_all2 P xs ys \<Longrightarrow> y \<in> set ys \<Longrightarrow> \<exists>i < length xs. P (xs ! i) (ys ! i) \<and> y = ys ! i"
  by (metis in_set_conv_nth list_all2_conv_all_nth)

section \<open>Theorems\<close>

text \<open>
  C26. A status that is reported as a success has exactly one entry for every type-C port, whatever the
  order of the directory and of the hash table. An entry shows roles, and whether they can be switched,
  only when a link of a partner of that port was there, and then they are what the nodes of the port say
  (and of the partner, for the mode).
\<close>

theorem port_status_sound:
  assumes "getPortStatusHelper s = Some (SUCCESS, ps)" "typec_entries s = Some es"
    and "\<And>ns. mset (bucket_order s ns) = mset ns"
  shows "distinct (map portName ps) \<and> set (map portName ps) = port_names es
    \<and> (\<forall>p \<in> set ps. (partner_of es (portName p) \<and> shows_roles s p) \<or> roleless p)"
proof -
  let ?ns = "collect_names es []" let ?bs = "bucket_order s ?ns"
  have f: "fill_ports s ?bs = Some (SUCCESS, ps)"
    using assms(1) unfolding getPortStatusHelper_def getTypeCPortNamesHelper_def assms(2) by simp
  have c: "distinct (map fst ?ns)" "fst ` set ?ns = port_names es"
    "\<And>m. (m, True) \<in> set ?ns \<Longrightarrow> partner_of es m"
    using collect_names_spec [of "[]" es] by auto
  have m: "mset ?bs = mset ?ns" by (rule assms(3))
  have sb: "set ?bs = set ?ns" using arg_cong [OF m, of set_mset] by simp
  have "mset (map fst ?bs) = mset (map fst ?ns)" by (simp only: mset_map m)
  then have db: "distinct (map fst ?bs)" using c(1) mset_eq_imp_distinct_iff by blast
  have names: "map portName ps = map fst ?bs"
    and fs: "list_all2 (\<lambda>(n, conn) p. if conn then shows_roles s p else roleless p) ?bs ps"
    using conjunct1 [OF fill_ports_spec [OF f]] conjunct2 [OF fill_ports_spec [OF f]] .
  have "(partner_of es (portName p) \<and> shows_roles s p) \<or> roleless p" if p: "p \<in> set ps" for p
  proof -
    obtain i where i: "i < length ?bs" "(\<lambda>(n, conn) p. if conn then shows_roles s p else roleless p) (?bs ! i) (ps ! i)" "p = ps ! i"
      using list_all2_split [OF fs p] by (elim exE conjE)
    obtain n conn where nc: "?bs ! i = (n, conn)" by (cases "?bs ! i")
    have "map portName ps ! i = map fst ?bs ! i" by (simp only: names)
    then have "portName p = n" using i nc list_all2_lengthD [OF fs] by simp
    moreover have "(n, conn) \<in> set ?ns" using nth_mem [OF i(1)] by (simp only: nc sb)
    ultimately show ?thesis using i(2,3) nc c(3) by (cases conn) auto
  qed
  moreover have "set (map fst ?bs) = port_names es" by (simp only: set_map sb c(2))
  ultimately show ?thesis using db by (simp only: names) blast
qed

text \<open>
  C27. A power or data role that is reported as switched is the role that reading the port gives next:
  what \<open>switchRole\<close> writes and reads back, \<open>getCurrentRoleHelper\<close> decodes to the same role.
\<close>

theorem role_switch_readback:
  assumes "switchRole port role t ws u = Some u'" "getTag role \<noteq> Tag_mode" "convertRoletoString role \<noteq> ''none''"
    and "notified u' = notified u @ [notifyRoleSwitchStatus port role SUCCESS t]"
  shows "getCurrentRoleHelper (sys u') port True role = (SUCCESS, role)"
proof -
  let ?f = "appendRoleNodeHelper port (getTag role)"
  have "\<exists>w. nodes (sys u') ?f = Some w \<and> extractRole (Trim w) = convertRoletoString role"
    using assms(1,2,4)
    by (auto simp: switchRole_def switchRole_node_def notify_def Let_def split: prod.splits if_splits option.splits)
  with assms(2,3) show ?thesis
    by (cases role rule: convertRoletoString.cases)
      (auto simp: getCurrentRoleHelper_def role_from_node_def set_role_def appendRoleNodeHelper_def)
qed

text \<open>
  C28. Switching the mode returns exactly when the wait ends, that is when one of the returns of the
  condition variable is a timeout or finds a partner; the switch succeeds exactly when a partner was
  found first, and after a switch that did not succeed the port has been set back to dual role.
\<close>

theorem mode_switch_spec:
  assumes "write_node (sys u) (appendRoleNodeHelper port Tag_mode) (convertRoletoString (mode m)) = (Some True, s)"
  shows "(switchRole port (mode m) t ws u = None \<longleftrightarrow> (\<forall>w \<in> set ws. w = Woken False))
    \<and> (\<forall>u'. switchRole port (mode m) t ws u = Some u' \<longrightarrow>
        (\<exists>n w rest. ws = replicate n (Woken False) @ w # rest \<and> w \<noteq> Woken False \<and>
          sys u' = (if w = Woken True then s else switchToDrp port s) \<and>
          (mCallback u \<noteq> None \<longrightarrow> notified u' = notified u @
            [notifyRoleSwitchStatus port (mode m) (if w = Woken True then SUCCESS else ERROR) t])))"
proof -
  have w: "wait_partner ws = None \<longleftrightarrow> (\<forall>w \<in> set ws. w = Woken False)"
    by (induction ws rule: wait_partner.induct) auto
  have w': "wait_partner ws = Some (ok, up) \<Longrightarrow>
      \<exists>n w rest. ws = replicate n (Woken False) @ w # rest \<and> w \<noteq> Woken False \<and> (ok \<longleftrightarrow> w = Woken True)" for ok up
  proof (induction ws rule: wait_partner.induct)
    case (3 up' ws)
    show ?case
    proof (cases up')
      case False
      then obtain n w rest where "ws = replicate n (Woken False) @ w # rest" "w \<noteq> Woken False" "ok \<longleftrightarrow> w = Woken True"
        using 3 by auto
      then show ?thesis using False by (intro exI [of _ "Suc n"] exI [of _ w] exI [of _ rest]) simp
    next
      case True
      then show ?thesis using 3(2) by (intro exI [of _ 0] exI [of _ "Woken True"] exI [of _ ws]) simp
    qed
  qed (auto intro: exI [of _ 0])
  have sr: "switchRole port (mode m) t ws u = map_option (\<lambda>(ok, up).
      notify (notifyRoleSwitchStatus port (mode m) (if ok then SUCCESS else ERROR) t)
        (u\<lparr>sys := if ok then s else switchToDrp port s, mPartnerUp := up\<rparr>)) (wait_partner ws)"
    using assms by (cases "wait_partner ws") (auto simp: switchRole_def switchMode_def Let_def)
  show ?thesis
  proof (cases "wait_partner ws")
    case None
    then show ?thesis using w by (simp add: sr)
  next
    case (Some r)
    obtain ok up where r: "r = (ok, up)" by (cases r)
    obtain n w rest where ws: "ws = replicate n (Woken False) @ w # rest" "w \<noteq> Woken False" "ok \<longleftrightarrow> w = Woken True"
      using w' Some r by blast
    have "\<not> (\<forall>w \<in> set ws. w = Woken False)" using w Some by simp
    then show ?thesis
      using ws unfolding sr Some r by (auto intro!: exI [of _ n] exI [of _ w] exI [of _ rest] simp del: split_paired_All)
  qed
qed


section \<open>Witnesses\<close>

definition wit_sysfs :: sysfs where
  "wit_sysfs =
     \<lparr>nodes = Map.empty, write_opens = \<lambda>_. True, fputs_ok = \<lambda>_ _. True,
      reacts = \<lambda>f t ns. ns(f \<mapsto> ''['' @ t @ ''] other ''), typec_entries = Some [(''port0'', True), (''x'', False)],
      dir_there = \<lambda>_. False, property = \<lambda>_. [], bucket_order = rev\<rparr>"

definition wit_usb :: Usb where
  "wit_usb = (Usb_new wit_sysfs)\<lparr>mCallback := Some 1\<rparr>"

theorem port_status_sound_witness:
  "\<exists>ps. getPortStatusHelper wit_sysfs = Some (SUCCESS, ps) \<and> set (map portName ps) = {''port0''} \<and> (\<forall>p \<in> set ps. roleless p)"
proof -
  define ps where "ps = [PortStatus_new\<lparr>portName := ''port0'', canChangeMode := True, supportedModes := [PM_DRP],
      usbDataStatus := [DATA_ENABLED]\<rparr>]"
  have t: "typec_entries wit_sysfs = Some [(''port0'', True), (''x'', False)]"
    and b: "mset (bucket_order wit_sysfs ns) = mset ns" for ns
    by (simp_all add: wit_sysfs_def)
  have f: "fill_port wit_sysfs ''port0'' False = Some (True, hd ps)"
    by (simp add: fill_port_def getCurrentRoleHelper_def wit_sysfs_def ps_def PortStatus_new_def)
  have g: "getPortStatusHelper wit_sysfs = Some (SUCCESS, ps)"
    unfolding getPortStatusHelper_def getTypeCPortNamesHelper_def t
    by (simp add: wit_sysfs_def [THEN arg_cong [of _ _ bucket_order]] f) (simp add: ps_def)
  have n: "port_names [(''port0'', True), (''x'', False)] = {''port0''}"
    "\<not> partner_of [(''port0'', True), (''x'', False)] x" for x
    by (auto simp: port_names_def partner_of_def)
  have "set (map portName ps) = {''port0''} \<and> (\<forall>p \<in> set ps. roleless p)"
    using conjunct2 [OF port_status_sound [OF g t b]] by (simp only: n simp_thms; blast)
  with g show ?thesis by (intro exI [of _ ps] conjI) simp_all
qed

theorem role_switch_readback_witness:
  "\<exists>u'. switchRole ''port0'' (dataRole DR_HOST) 7 [] wit_usb = Some u'
    \<and> getCurrentRoleHelper (sys u') ''port0'' True (dataRole DR_HOST) = (SUCCESS, dataRole DR_HOST)"
proof -
  let ?f = "appendRoleNodeHelper ''port0'' Tag_dataRole"
  let ?u = "wit_usb\<lparr>sys := wit_sysfs\<lparr>nodes := [?f \<mapsto> ''[host] other '']\<rparr>,
      notified := [notifyRoleSwitchStatus ''port0'' (dataRole DR_HOST) SUCCESS 7]\<rparr>"
  have x: "extractRole (Trim ''[host] other '') = ''host''"
    by (simp add: extractRole_def Trim_def find_char_def is_space_def)
  have s: "switchRole ''port0'' (dataRole DR_HOST) 7 [] wit_usb = Some ?u"
    by (simp add: switchRole_def switchRole_node_def write_node_def wit_usb_def wit_sysfs_def Usb_new_def notify_def x)
  have n: "notified ?u = notified wit_usb @ [notifyRoleSwitchStatus ''port0'' (dataRole DR_HOST) SUCCESS 7]"
    by (simp add: wit_usb_def Usb_new_def)
  from role_switch_readback [OF s _ _ n] s show ?thesis by (intro exI [of _ ?u]) simp
qed

theorem mode_switch_spec_witness:
  "switchRole ''port0'' (mode PM_DFP) 7 [Woken False, Timedout False] wit_usb \<noteq> None"
proof -
  have w: "write_node (sys wit_usb) (appendRoleNodeHelper ''port0'' Tag_mode) (convertRoletoString (mode PM_DFP))
      = (Some True, wit_sysfs\<lparr>nodes := [appendRoleNodeHelper ''port0'' Tag_mode \<mapsto> ''[source] other '']\<rparr>)"
    by (simp add: write_node_def wit_usb_def wit_sysfs_def Usb_new_def)
  from mode_switch_spec [OF w, of 7 "[Woken False, Timedout False]"] show ?thesis by simp
qed


end
