(* ===== verification/Fingerprint.thy ===== *)
theory Fingerprint
  imports Prelude
begin

text \<open>
  The fingerprint service, \<open>src/hidl/fingerprint/BiometricsFingerprint.cpp\<close>: the calls it passes on to
  the vendor library, the translation of error codes and messages, and the key events for gestures.
  The vendor library, the build flags, and the numbers of \<open>hardware/fingerprint.h\<close> are arguments. A call
  through a pointer that was not set is \<open>None\<close>.
\<close>

section \<open>Data\<close>

datatype RequestStatus =
    SYS_UNKNOWN | SYS_OK | SYS_ENOENT | SYS_EINTR | SYS_EIO | SYS_EAGAIN | SYS_ENOMEM | SYS_EACCES
  | SYS_EFAULT | SYS_EBUSY | SYS_EINVAL | SYS_ENOSPC | SYS_ETIMEDOUT

datatype FingerprintError =
    ERROR_HW_UNAVAILABLE | ERROR_UNABLE_TO_PROCESS | ERROR_TIMEOUT | ERROR_NO_SPACE | ERROR_CANCELED
  | ERROR_UNABLE_TO_REMOVE | ERROR_LOCKOUT | ERROR_VENDOR

datatype FingerprintAcquiredInfo =
    ACQUIRED_GOOD | ACQUIRED_PARTIAL | ACQUIRED_INSUFFICIENT | ACQUIRED_IMAGER_DIRTY
  | ACQUIRED_TOO_SLOW | ACQUIRED_TOO_FAST | ACQUIRED_VENDOR

text \<open>The numbers of the legacy interface.\<close>

record legacy_codes =
  c_HW_UNAVAILABLE :: int
  c_UNABLE_TO_PROCESS :: int
  c_TIMEOUT :: int
  c_NO_SPACE :: int
  c_CANCELED :: int
  c_UNABLE_TO_REMOVE :: int
  c_LOCKOUT :: int
  c_ERROR_VENDOR_BASE :: int
  c_GOOD :: int
  c_PARTIAL :: int
  c_INSUFFICIENT :: int
  c_IMAGER_DIRTY :: int
  c_TOO_SLOW :: int
  c_TOO_FAST :: int
  c_ACQUIRED_VENDOR_BASE :: int

record fp_flags =
  HAS_FINGERPRINT_GESTURES :: bool
  REQUEST_FORCE_CALIBRATE :: bool
  CALL_NOTIFY_ON_CANCEL :: bool
  USES_PERCENTAGE_SAMPLES :: bool
  CALL_CANCEL_ON_ENROLL_COMPLETION :: bool

text \<open>The calls of the vendor library and the messages it sends.\<close>

datatype ss_call =
    ss_fingerprint_close
  | ss_fingerprint_open
  | ss_set_notify_callback
  | ss_fingerprint_pre_enroll
  | ss_fingerprint_enroll "u8 list" u32 u32
  | ss_fingerprint_post_enroll
  | ss_fingerprint_get_auth_id
  | ss_fingerprint_cancel
  | ss_fingerprint_enumerate
  | ss_fingerprint_remove u32 u32
  | ss_fingerprint_set_active_group u32 string
  | ss_fingerprint_authenticate u64 u32
  | ss_fingerprint_request int int

datatype fingerprint_msg =
    FINGERPRINT_ERROR int
  | FINGERPRINT_ACQUIRED int
  | FINGERPRINT_TEMPLATE_ENROLLING u32 u32 u32
  | FINGERPRINT_TEMPLATE_REMOVED u32 u32 u32
  | FINGERPRINT_AUTHENTICATED u32 u32 "u8 list"
  | FINGERPRINT_TEMPLATE_ENUMERATING u32 u32 u32
  | FINGERPRINT_OTHER int

datatype client_event =
    onError u64 FingerprintError int
  | onAcquired u64 FingerprintAcquiredInfo int
  | onEnrollResult u64 u32 u32 u32
  | onRemoved u64 u32 u32 u32
  | onAuthenticated u64 u32 u32 "u8 list"
  | onEnumerate u64 u32 u32 u32

datatype input_event = Ev_key bool nat | Ev_syn

text \<open>
  The environment: whether the library loads, which symbols it has, what it answers to a call after
  the calls before, whether the node of an in-display sensor is there, what opening and setting up the
  uinput device return, which writes of events to a descriptor succeed (by their number), and which
  paths are writable.
\<close>

record fp_env =
  dlopen_ok :: bool
  has_symbol :: "string \<Rightarrow> bool"
  answer :: "ss_call list \<Rightarrow> ss_call \<Rightarrow> int"
  answer64 :: "ss_call list \<Rightarrow> ss_call \<Rightarrow> u64"
  udfps_node :: bool
  uinput_open :: int
  uinput_ioctl :: "string \<Rightarrow> int"
  uidev_write :: int
  uinput_write_ok :: "int \<Rightarrow> nat \<Rightarrow> bool"
  writable :: "string \<Rightarrow> bool"

record Fp =
  mClientCallback :: "nat option"
  mIsUdfps :: bool
  uinputFd :: int
  uinput_created :: bool
  pointers_set :: bool
  calls :: "ss_call list"
  client_events :: "(nat \<times> client_event) list"
  key_events :: "input_event list"

definition SEM_FINGERPRINT_EVENT_BASE :: int where "SEM_FINGERPRINT_EVENT_BASE = 10000"
definition SEM_FINGERPRINT_EVENT_GESTURE_SWIPE_UP :: int where "SEM_FINGERPRINT_EVENT_GESTURE_SWIPE_UP = 20001"
definition SEM_FINGERPRINT_EVENT_GESTURE_SWIPE_DOWN :: int where "SEM_FINGERPRINT_EVENT_GESTURE_SWIPE_DOWN = 20002"
definition FINGERPRINT_REQUEST_NAVIGATION_MODE_START :: int where "FINGERPRINT_REQUEST_NAVIGATION_MODE_START = 15"
definition FINGERPRINT_REQUEST_GET_SENSOR_STATUS :: int where "FINGERPRINT_REQUEST_GET_SENSOR_STATUS = 6"
definition SEM_REQUEST_FORCE_CBGE :: int where "SEM_REQUEST_FORCE_CBGE = 21"
definition SEM_SENSOR_STATUS_OK :: int where "SEM_SENSOR_STATUS_OK = 100040"
definition SEM_SENSOR_STATUS_WORKING :: int where "SEM_SENSOR_STATUS_WORKING = 100041"
definition SEM_SENSOR_STATUS_ERROR :: int where "SEM_SENSOR_STATUS_ERROR = 100042"
definition SEM_SENSOR_STATUS_CALIBRATION_ERROR :: int where "SEM_SENSOR_STATUS_CALIBRATION_ERROR = 100045"

section \<open>Translating codes\<close>

definition ErrorFilter :: "int \<Rightarrow> RequestStatus" where
  "ErrorFilter error =
     (if error = 0 then SYS_OK
      else if error = - 2 then SYS_ENOENT
      else if error = - 4 then SYS_EINTR
      else if error = - 5 then SYS_EIO
      else if error = - 11 then SYS_EAGAIN
      else if error = - 12 then SYS_ENOMEM
      else if error = - 13 then SYS_EACCES
      else if error = - 14 then SYS_EFAULT
      else if error = - 16 then SYS_EBUSY
      else if error = - 22 then SYS_EINVAL
      else if error = - 28 then SYS_ENOSPC
      else if error = - 110 then SYS_ETIMEDOUT
      else SYS_UNKNOWN)"

definition VendorErrorFilter :: "legacy_codes \<Rightarrow> int \<Rightarrow> FingerprintError \<times> int" where
  "VendorErrorFilter lc error =
     (if error = c_HW_UNAVAILABLE lc then (ERROR_HW_UNAVAILABLE, 0)
      else if error = c_UNABLE_TO_PROCESS lc then (ERROR_UNABLE_TO_PROCESS, 0)
      else if error = c_TIMEOUT lc then (ERROR_TIMEOUT, 0)
      else if error = c_NO_SPACE lc then (ERROR_NO_SPACE, 0)
      else if error = c_CANCELED lc then (ERROR_CANCELED, 0)
      else if error = c_UNABLE_TO_REMOVE lc then (ERROR_UNABLE_TO_REMOVE, 0)
      else if error = c_LOCKOUT lc then (ERROR_LOCKOUT, 0)
      else if error \<ge> c_ERROR_VENDOR_BASE lc then (ERROR_VENDOR, error - c_ERROR_VENDOR_BASE lc)
      else (ERROR_UNABLE_TO_PROCESS, 0))"

definition VendorAcquiredFilter :: "legacy_codes \<Rightarrow> int \<Rightarrow> FingerprintAcquiredInfo \<times> int" where
  "VendorAcquiredFilter lc info =
     (if info = c_GOOD lc then (ACQUIRED_GOOD, 0)
      else if info = c_PARTIAL lc then (ACQUIRED_PARTIAL, 0)
      else if info = c_INSUFFICIENT lc then (ACQUIRED_INSUFFICIENT, 0)
      else if info = c_IMAGER_DIRTY lc then (ACQUIRED_IMAGER_DIRTY, 0)
      else if info = c_TOO_SLOW lc then (ACQUIRED_TOO_SLOW, 0)
      else if info = c_TOO_FAST lc then (ACQUIRED_TOO_FAST, 0)
      else if info \<ge> c_ACQUIRED_VENDOR_BASE lc then (ACQUIRED_VENDOR, info - c_ACQUIRED_VENDOR_BASE lc)
      else (ACQUIRED_INSUFFICIENT, 0))"

section \<open>The vendor library\<close>

fun symbol_of :: "ss_call \<Rightarrow> string" where
  "symbol_of ss_fingerprint_close = ''ss_fingerprint_close''"
| "symbol_of ss_fingerprint_open = ''ss_fingerprint_open''"
| "symbol_of ss_set_notify_callback = ''ss_set_notify_callback''"
| "symbol_of ss_fingerprint_pre_enroll = ''ss_fingerprint_pre_enroll''"
| "symbol_of (ss_fingerprint_enroll _ _ _) = ''ss_fingerprint_enroll''"
| "symbol_of ss_fingerprint_post_enroll = ''ss_fingerprint_post_enroll''"
| "symbol_of ss_fingerprint_get_auth_id = ''ss_fingerprint_get_auth_id''"
| "symbol_of ss_fingerprint_cancel = ''ss_fingerprint_cancel''"
| "symbol_of ss_fingerprint_enumerate = ''ss_fingerprint_enumerate''"
| "symbol_of (ss_fingerprint_remove _ _) = ''ss_fingerprint_remove''"
| "symbol_of (ss_fingerprint_set_active_group _ _) = ''ss_fingerprint_set_active_group''"
| "symbol_of (ss_fingerprint_authenticate _ _) = ''ss_fingerprint_authenticate''"
| "symbol_of (ss_fingerprint_request _ _) = ''ss_fingerprint_request''"

text \<open>
  A call: the pointers are set by \<open>openHal\<close> only, to null for a symbol that is missing. Calling an unset
  or a null pointer is undefined.
\<close>

definition ss :: "fp_env \<Rightarrow> ss_call \<Rightarrow> Fp \<Rightarrow> (int \<times> Fp) option" where
  "ss env c f =
     (if pointers_set f \<and> has_symbol env (symbol_of c)
      then Some (answer env (calls f) c, f\<lparr>calls := calls f @ [c]\<rparr>) else None)"

definition ss64 :: "fp_env \<Rightarrow> ss_call \<Rightarrow> Fp \<Rightarrow> (u64 \<times> Fp) option" where
  "ss64 env c f =
     (if pointers_set f \<and> has_symbol env (symbol_of c)
      then Some (answer64 env (calls f) c, f\<lparr>calls := calls f @ [c]\<rparr>) else None)"

definition openHal :: "fp_env \<Rightarrow> Fp \<Rightarrow> (bool \<times> Fp) option" where
  "openHal env f =
     (if \<not> dlopen_ok env then Some (False, f)
      else do { (err, f) \<leftarrow> ss env ss_fingerprint_open (f\<lparr>pointers_set := True\<rparr>);
                if err \<noteq> 0 then Some (False, f)
                else do { (err, f) \<leftarrow> ss env ss_set_notify_callback f;
                          Some (err = 0, f) } })"

definition request :: "fp_env \<Rightarrow> int \<Rightarrow> int \<Rightarrow> Fp \<Rightarrow> (int \<times> Fp) option" where
  "request env cmd param f = ss env (ss_fingerprint_request cmd param) f"

text \<open>The uinput device of the gestures; \<open>uinput_created\<close> records that the set-up reached its end.\<close>

definition setup_uinput :: "fp_env \<Rightarrow> Fp \<Rightarrow> Fp" where
  "setup_uinput env f =
     (let f = f\<lparr>uinputFd := uinput_open env\<rparr> in
      if uinputFd f < 0 then f
      else if uinput_ioctl env ''UI_SET_EVBIT EV_KEY'' \<noteq> 0 \<or> uinput_ioctl env ''UI_SET_KEYBIT KEY_UP'' \<noteq> 0
              \<or> uinput_ioctl env ''UI_SET_KEYBIT KEY_DOWN'' \<noteq> 0 then f
      else if uidev_write env < 0 then f
      else if uinput_ioctl env ''UI_DEV_CREATE'' < 0 then f
      else f\<lparr>uinput_created := True\<rparr>)"

definition fp_raw :: Fp where
  "fp_raw = \<lparr>mClientCallback = None, mIsUdfps = False, uinputFd = 0, uinput_created = False,
             pointers_set = False, calls = [], client_events = [], key_events = []\<rparr>"

definition BiometricsFingerprint_new :: "fp_flags \<Rightarrow> fp_env \<Rightarrow> Fp option" where
  "BiometricsFingerprint_new fl env =
     do { (_, f) \<leftarrow> openHal env fp_raw;
          let f = f\<lparr>mIsUdfps := udfps_node env\<rparr>;
          if HAS_FINGERPRINT_GESTURES fl
          then do { (_, f) \<leftarrow> request env FINGERPRINT_REQUEST_NAVIGATION_MODE_START 1 f;
                    Some (setup_uinput env f) }
          else Some f }"

text \<open>\<open>sInstance\<close> is the argument: \<open>None\<close> is the null pointer.\<close>

definition getInstance :: "fp_flags \<Rightarrow> fp_env \<Rightarrow> Fp option \<Rightarrow> Fp option" where
  "getInstance fl env sInstance =
     (case sInstance of None \<Rightarrow> BiometricsFingerprint_new fl env | Some f \<Rightarrow> Some f)"

definition BiometricsFingerprint_delete :: "fp_env \<Rightarrow> Fp \<Rightarrow> Fp option" where
  "BiometricsFingerprint_delete env f = map_option snd (ss env ss_fingerprint_close f)"

section \<open>Messages of the library\<close>

text \<open>Writing events to the uinput device, up to the first write that fails.\<close>

fun write_events :: "fp_env \<Rightarrow> input_event list \<Rightarrow> Fp \<Rightarrow> Fp" where
  "write_events env [] f = f"
| "write_events env (e # es) f =
     (if \<not> uinput_write_ok env (uinputFd f) (length (key_events f)) then f
      else write_events env es (f\<lparr>key_events := key_events f @ [e]\<rparr>))"

definition handleEvent :: "fp_flags \<Rightarrow> fp_env \<Rightarrow> int \<Rightarrow> Fp \<Rightarrow> Fp" where
  "handleEvent fl env eventCode f =
     (if HAS_FINGERPRINT_GESTURES fl \<and>
         (eventCode = SEM_FINGERPRINT_EVENT_GESTURE_SWIPE_DOWN \<or> eventCode = SEM_FINGERPRINT_EVENT_GESTURE_SWIPE_UP)
      then let up = (eventCode = SEM_FINGERPRINT_EVENT_GESTURE_SWIPE_UP)
           in write_events env [Ev_key up 1, Ev_syn, Ev_key up 0, Ev_syn] f
      else f)"

text \<open>
  One client callback; that it failed is only logged. A message is answered with the message as it is
  left in the caller's memory: under \<open>USES_PERCENTAGE_SAMPLES\<close> the code writes to it.
\<close>

definition tell :: "nat \<Rightarrow> client_event \<Rightarrow> Fp \<Rightarrow> Fp" where
  "tell c e f = f\<lparr>client_events := client_events f @ [(c, e)]\<rparr>"

definition notify_enrolling ::
  "fp_flags \<Rightarrow> fp_env \<Rightarrow> nat \<Rightarrow> u32 \<Rightarrow> u32 \<Rightarrow> u32 \<Rightarrow> Fp \<Rightarrow> (fingerprint_msg \<times> Fp) option" where
  "notify_enrolling fl env c fid gid samples_remaining f =
     (let samples_remaining = (if USES_PERCENTAGE_SAMPLES fl then 100 - samples_remaining else samples_remaining) in
      do { f \<leftarrow> (if CALL_CANCEL_ON_ENROLL_COMPLETION fl \<and> samples_remaining = 0
                then map_option snd (ss env ss_fingerprint_cancel f) else Some f);
           Some (FINGERPRINT_TEMPLATE_ENROLLING fid gid samples_remaining,
                 tell c (onEnrollResult 1 fid gid samples_remaining) f) })"

definition notify_on ::
  "fp_flags \<Rightarrow> legacy_codes \<Rightarrow> fp_env \<Rightarrow> fingerprint_msg \<Rightarrow> Fp \<Rightarrow> (fingerprint_msg \<times> Fp) option" where
  "notify_on fl lc env msg f =
     (case mClientCallback f of None \<Rightarrow> Some (msg, f)
      | Some c \<Rightarrow>
        (case msg of
           FINGERPRINT_ERROR e \<Rightarrow>
             (let (result, vendorCode) = VendorErrorFilter lc e in
              Some (msg, tell c (onError 1 result vendorCode) f))
         | FINGERPRINT_ACQUIRED info \<Rightarrow>
             if info > SEM_FINGERPRINT_EVENT_BASE then Some (msg, handleEvent fl env info f)
             else (let (result, vendorCode) = VendorAcquiredFilter lc info in
                   Some (msg, tell c (onAcquired 1 result vendorCode) f))
         | FINGERPRINT_TEMPLATE_ENROLLING fid gid samples_remaining \<Rightarrow>
             notify_enrolling fl env c fid gid samples_remaining f
         | FINGERPRINT_TEMPLATE_REMOVED fid gid remaining_templates \<Rightarrow>
             Some (msg, tell c (onRemoved 1 fid gid remaining_templates) f)
         | FINGERPRINT_AUTHENTICATED fid gid hat \<Rightarrow>
             Some (msg, tell c (onAuthenticated 1 fid gid (if fid \<noteq> 0 then hat else [])) f)
         | FINGERPRINT_TEMPLATE_ENUMERATING fid gid remaining_templates \<Rightarrow>
             Some (msg, tell c (onEnumerate 1 fid gid remaining_templates) f)
         | FINGERPRINT_OTHER _ \<Rightarrow> Some (msg, f)))"

text \<open>\<open>notify\<close> works on the instance that \<open>getInstance\<close> gives, which it makes when there is none.\<close>

definition notify_fp ::
  "fp_flags \<Rightarrow> legacy_codes \<Rightarrow> fp_env \<Rightarrow> fingerprint_msg \<Rightarrow> Fp option \<Rightarrow> (fingerprint_msg \<times> Fp) option" where
  "notify_fp fl lc env msg sInstance = do { f \<leftarrow> getInstance fl env sInstance; notify_on fl lc env msg f }"

section \<open>The interface\<close>

text \<open>\<open>this\<close> is the address of the instance, which is the result.\<close>

definition setNotify :: "u64 \<Rightarrow> nat option \<Rightarrow> Fp \<Rightarrow> u64 \<times> Fp" where
  "setNotify this clientCallback f = (this, f\<lparr>mClientCallback := clientCallback\<rparr>)"

definition isUdfps :: "u32 \<Rightarrow> Fp \<Rightarrow> bool" where
  "isUdfps sensorID f = mIsUdfps f"

definition onFingerDown :: "Fp \<Rightarrow> Fp" where
  "onFingerDown f = f"

definition onFingerUp :: "Fp \<Rightarrow> Fp" where
  "onFingerUp f = f"

text \<open>A call that returns its filtered result.\<close>

definition filtered :: "fp_env \<Rightarrow> ss_call \<Rightarrow> Fp \<Rightarrow> (RequestStatus \<times> Fp) option" where
  "filtered env c f = map_option (\<lambda>(r, f). (ErrorFilter r, f)) (ss env c f)"

definition preEnroll :: "fp_env \<Rightarrow> Fp \<Rightarrow> (u64 \<times> Fp) option" where
  "preEnroll env f = ss64 env ss_fingerprint_pre_enroll f"

definition enroll :: "fp_flags \<Rightarrow> fp_env \<Rightarrow> u8 list \<Rightarrow> u32 \<Rightarrow> u32 \<Rightarrow> Fp \<Rightarrow> (RequestStatus \<times> Fp) option" where
  "enroll fl env hat gid timeoutSec f =
     do { f \<leftarrow> (if REQUEST_FORCE_CALIBRATE fl then map_option snd (request env SEM_REQUEST_FORCE_CBGE 1 f) else Some f);
          filtered env (ss_fingerprint_enroll hat gid timeoutSec) f }"

definition postEnroll :: "fp_env \<Rightarrow> Fp \<Rightarrow> (RequestStatus \<times> Fp) option" where
  "postEnroll env f = filtered env ss_fingerprint_post_enroll f"

definition getAuthenticatorId :: "fp_env \<Rightarrow> Fp \<Rightarrow> (u64 \<times> Fp) option" where
  "getAuthenticatorId env f = ss64 env ss_fingerprint_get_auth_id f"

definition cancel :: "fp_flags \<Rightarrow> legacy_codes \<Rightarrow> fp_env \<Rightarrow> Fp \<Rightarrow> (RequestStatus \<times> Fp) option" where
  "cancel fl lc env f =
     do { (ret, f) \<leftarrow> ss env ss_fingerprint_cancel f;
          f \<leftarrow> (if CALL_NOTIFY_ON_CANCEL fl \<and> ret = 0
               then map_option snd (notify_fp fl lc env (FINGERPRINT_ERROR (c_CANCELED lc)) (Some f)) else Some f);
          Some (ErrorFilter ret, f) }"

text \<open>The only pointer that is tested; when it was never set the test itself is undefined.\<close>

definition enumerate_fp :: "fp_env \<Rightarrow> Fp \<Rightarrow> (RequestStatus \<times> Fp) option" where
  "enumerate_fp env f =
     (if \<not> pointers_set f then None
      else if has_symbol env ''ss_fingerprint_enumerate'' then filtered env ss_fingerprint_enumerate f
      else Some (SYS_UNKNOWN, f))"

definition remove_fp :: "fp_env \<Rightarrow> u32 \<Rightarrow> u32 \<Rightarrow> Fp \<Rightarrow> (RequestStatus \<times> Fp) option" where
  "remove_fp env gid fid f = filtered env (ss_fingerprint_remove gid fid) f"

text \<open>\<open>PATH_MAX\<close> is 4096, and the calls see the string up to its first null character.\<close>

definition c_str :: "string \<Rightarrow> string" where
  "c_str s = takeWhile (\<lambda>c. c \<noteq> CHR 0x00) s"

definition setActiveGroup :: "fp_env \<Rightarrow> u32 \<Rightarrow> string \<Rightarrow> Fp \<Rightarrow> (RequestStatus \<times> Fp) option" where
  "setActiveGroup env gid storePath f =
     (if length storePath \<ge> 4096 \<or> length storePath \<le> 0 then Some (SYS_EINVAL, f)
      else if \<not> writable env (c_str storePath) then Some (SYS_EINVAL, f)
      else filtered env (ss_fingerprint_set_active_group gid (c_str storePath)) f)"

definition authenticate :: "fp_env \<Rightarrow> u64 \<Rightarrow> u32 \<Rightarrow> Fp \<Rightarrow> (RequestStatus \<times> Fp) option" where
  "authenticate env operationId gid f = filtered env (ss_fingerprint_authenticate operationId gid) f"

text \<open>The loop of \<open>waitForSensor\<close>; not returning is \<open>None\<close>, as is a missing symbol.\<close>

partial_function (option) wait_loop :: "fp_env \<Rightarrow> int \<Rightarrow> int \<Rightarrow> int \<Rightarrow> int \<Rightarrow> Fp \<Rightarrow> (int \<times> Fp) option" where
  "wait_loop env pollWait timeOut sensorStatus timeWaited f =
     (if sensorStatus = SEM_SENSOR_STATUS_OK then Some (0, f)
      else if sensorStatus = SEM_SENSOR_STATUS_CALIBRATION_ERROR \<or> sensorStatus = SEM_SENSOR_STATUS_ERROR
      then Some (- 1, f)
      else if timeWaited \<ge> timeOut then Some (- 2, f)
      else (case request env FINGERPRINT_REQUEST_GET_SENSOR_STATUS 0 f of
              None \<Rightarrow> None
            | Some (s, f) \<Rightarrow> wait_loop env pollWait timeOut s (timeWaited + pollWait) f))"

definition waitForSensor :: "fp_env \<Rightarrow> int \<Rightarrow> int \<Rightarrow> Fp \<Rightarrow> (int \<times> Fp) option" where
  "waitForSensor env pollWait timeOut f = wait_loop env pollWait timeOut SEM_SENSOR_STATUS_WORKING 0 f"

section \<open>Runs of the service\<close>

text \<open>What can happen to an instance: a call of the interface or a message of the library.\<close>

datatype fp_op =
    Op_setNotify "nat option"
  | Op_preEnroll
  | Op_enroll "u8 list" u32 u32
  | Op_postEnroll
  | Op_getAuthenticatorId
  | Op_cancel
  | Op_enumerate
  | Op_remove u32 u32
  | Op_setActiveGroup u32 string
  | Op_authenticate u64 u32
  | Op_onFingerDown
  | Op_onFingerUp
  | Op_message fingerprint_msg

fun do_op :: "fp_flags \<Rightarrow> legacy_codes \<Rightarrow> fp_env \<Rightarrow> fp_op \<Rightarrow> Fp \<Rightarrow> Fp option" where
  "do_op fl lc env (Op_setNotify c) f = Some (snd (setNotify 0 c f))"
| "do_op fl lc env Op_preEnroll f = map_option snd (preEnroll env f)"
| "do_op fl lc env (Op_enroll hat gid t) f = map_option snd (enroll fl env hat gid t f)"
| "do_op fl lc env Op_postEnroll f = map_option snd (postEnroll env f)"
| "do_op fl lc env Op_getAuthenticatorId f = map_option snd (getAuthenticatorId env f)"
| "do_op fl lc env Op_cancel f = map_option snd (cancel fl lc env f)"
| "do_op fl lc env Op_enumerate f = map_option snd (enumerate_fp env f)"
| "do_op fl lc env (Op_remove gid fid) f = map_option snd (remove_fp env gid fid f)"
| "do_op fl lc env (Op_setActiveGroup gid p) f = map_option snd (setActiveGroup env gid p f)"
| "do_op fl lc env (Op_authenticate oid gid) f = map_option snd (authenticate env oid gid f)"
| "do_op fl lc env Op_onFingerDown f = Some (onFingerDown f)"
| "do_op fl lc env Op_onFingerUp f = Some (onFingerUp f)"
| "do_op fl lc env (Op_message m) f = map_option snd (notify_fp fl lc env m (Some f))"

fun run_ops :: "fp_flags \<Rightarrow> legacy_codes \<Rightarrow> fp_env \<Rightarrow> fp_op list \<Rightarrow> Fp \<Rightarrow> Fp option" where
  "run_ops fl lc env [] f = Some f"
| "run_ops fl lc env (x # xs) f = do { f \<leftarrow> do_op fl lc env x f; run_ops fl lc env xs f }"

section \<open>Specification\<close>

text \<open>The symbols without which some use of the service calls a pointer that is null.\<close>

definition library_complete :: "fp_flags \<Rightarrow> fp_env \<Rightarrow> bool" where
  "library_complete fl env =
     (dlopen_ok env
      \<and> (\<forall>s \<in> {''ss_fingerprint_open'', ''ss_fingerprint_pre_enroll'', ''ss_fingerprint_enroll'',
               ''ss_fingerprint_post_enroll'', ''ss_fingerprint_get_auth_id'', ''ss_fingerprint_cancel'',
               ''ss_fingerprint_remove'', ''ss_fingerprint_authenticate''}. has_symbol env s)
      \<and> (answer env [] ss_fingerprint_open = 0 \<longrightarrow> has_symbol env ''ss_set_notify_callback'')
      \<and> ((\<exists>p. 0 < length p \<and> length p < 4096 \<and> writable env (c_str p)) \<longrightarrow>
           has_symbol env ''ss_fingerprint_set_active_group'')
      \<and> (HAS_FINGERPRINT_GESTURES fl \<or> REQUEST_FORCE_CALIBRATE fl \<longrightarrow> has_symbol env ''ss_fingerprint_request''))"

text \<open>The client that is registered after some operations.\<close>

fun registered :: "nat option \<Rightarrow> fp_op list \<Rightarrow> nat option" where
  "registered c [] = c"
| "registered c (Op_setNotify d # xs) = registered d xs"
| "registered c (_ # xs) = registered c xs"

text \<open>The number that stands for an error and its vendor code.\<close>

fun legacy_error :: "legacy_codes \<Rightarrow> FingerprintError \<Rightarrow> int \<Rightarrow> int" where
  "legacy_error lc ERROR_HW_UNAVAILABLE v = c_HW_UNAVAILABLE lc"
| "legacy_error lc ERROR_UNABLE_TO_PROCESS v = c_UNABLE_TO_PROCESS lc"
| "legacy_error lc ERROR_TIMEOUT v = c_TIMEOUT lc"
| "legacy_error lc ERROR_NO_SPACE v = c_NO_SPACE lc"
| "legacy_error lc ERROR_CANCELED v = c_CANCELED lc"
| "legacy_error lc ERROR_UNABLE_TO_REMOVE v = c_UNABLE_TO_REMOVE lc"
| "legacy_error lc ERROR_LOCKOUT v = c_LOCKOUT lc"
| "legacy_error lc ERROR_VENDOR v = c_ERROR_VENDOR_BASE lc + v"

definition error_codes :: "legacy_codes \<Rightarrow> int list" where
  "error_codes lc = [c_HW_UNAVAILABLE lc, c_UNABLE_TO_PROCESS lc, c_TIMEOUT lc, c_NO_SPACE lc, c_CANCELED lc,
                     c_UNABLE_TO_REMOVE lc, c_LOCKOUT lc]"

text \<open>A choice of the numbers, an environment in which every call succeeds, and a build without flags.\<close>

definition sample_codes :: legacy_codes where
  "sample_codes = \<lparr>c_HW_UNAVAILABLE = 1, c_UNABLE_TO_PROCESS = 2, c_TIMEOUT = 3, c_NO_SPACE = 4, c_CANCELED = 5,
     c_UNABLE_TO_REMOVE = 6, c_LOCKOUT = 7, c_ERROR_VENDOR_BASE = 1000, c_GOOD = 0, c_PARTIAL = 1, c_INSUFFICIENT = 2,
     c_IMAGER_DIRTY = 3, c_TOO_SLOW = 4, c_TOO_FAST = 5, c_ACQUIRED_VENDOR_BASE = 1000\<rparr>"

definition quiet_env :: fp_env where
  "quiet_env = \<lparr>dlopen_ok = True, has_symbol = (\<lambda>_. True), answer = (\<lambda>_ _. 0), answer64 = (\<lambda>_ _. 0),
     udfps_node = False, uinput_open = 3, uinput_ioctl = (\<lambda>_. 0), uidev_write = 0,
     uinput_write_ok = (\<lambda>_ _. True), writable = (\<lambda>_. True)\<rparr>"

definition plain_flags :: fp_flags where
  "plain_flags = \<lparr>HAS_FINGERPRINT_GESTURES = False, REQUEST_FORCE_CALIBRATE = False, CALL_NOTIFY_ON_CANCEL = False,
     USES_PERCENTAGE_SAMPLES = False, CALL_CANCEL_ON_ENROLL_COMPLETION = False\<rparr>"

text \<open>
  Polling the sensor: the state after \<open>k\<close> polls, the status then, and what the status and the time waited
  say about the result.
\<close>

definition polled :: "nat \<Rightarrow> Fp \<Rightarrow> Fp" where
  "polled k f = f\<lparr>calls := calls f @ replicate k (ss_fingerprint_request FINGERPRINT_REQUEST_GET_SENSOR_STATUS 0)\<rparr>"

definition sensor_status :: "fp_env \<Rightarrow> Fp \<Rightarrow> int \<Rightarrow> nat \<Rightarrow> int" where
  "sensor_status env f st k =
     (if k = 0 then st
      else answer env (calls (polled (k - 1) f)) (ss_fingerprint_request FINGERPRINT_REQUEST_GET_SENSOR_STATUS 0))"

definition verdict :: "int \<Rightarrow> bool \<Rightarrow> int option" where
  "verdict st late =
     (if st = SEM_SENSOR_STATUS_OK then Some 0
      else if st = SEM_SENSOR_STATUS_CALIBRATION_ERROR \<or> st = SEM_SENSOR_STATUS_ERROR then Some (- 1)
      else if late then Some (- 2) else None)"

text \<open>The symbol that an operation calls in every case.\<close>

fun op_symbol :: "fp_op \<Rightarrow> string option" where
  "op_symbol Op_preEnroll = Some ''ss_fingerprint_pre_enroll''"
| "op_symbol (Op_enroll _ _ _) = Some ''ss_fingerprint_enroll''"
| "op_symbol Op_postEnroll = Some ''ss_fingerprint_post_enroll''"
| "op_symbol Op_getAuthenticatorId = Some ''ss_fingerprint_get_auth_id''"
| "op_symbol Op_cancel = Some ''ss_fingerprint_cancel''"
| "op_symbol (Op_remove _ _) = Some ''ss_fingerprint_remove''"
| "op_symbol (Op_authenticate _ _) = Some ''ss_fingerprint_authenticate''"
| "op_symbol _ = None"

section \<open>Lemmas\<close>

lemmas fp_ops = setNotify_def preEnroll_def enroll_def postEnroll_def getAuthenticatorId_def cancel_def
  enumerate_fp_def remove_fp_def setActiveGroup_def authenticate_def onFingerDown_def onFingerUp_def
  filtered_def request_def ss_def ss64_def

lemma write_events_keeps [simp]:
  "mClientCallback (write_events env es f) = mClientCallback f"
  "client_events (write_events env es f) = client_events f"
  "pointers_set (write_events env es f) = pointers_set f"
  "calls (write_events env es f) = calls f"
  by (induction env es f rule: write_events.induct) simp_all

lemma handleEvent_keeps [simp]:
  "mClientCallback (handleEvent fl env e f) = mClientCallback f"
  "client_events (handleEvent fl env e f) = client_events f"
  "pointers_set (handleEvent fl env e f) = pointers_set f"
  by (simp_all add: handleEvent_def Let_def)

lemma tell_sel [simp]:
  "mClientCallback (tell c e f) = mClientCallback f"
  "client_events (tell c e f) = client_events f @ [(c, e)]"
  "pointers_set (tell c e f) = pointers_set f"
  by (simp_all add: tell_def)

lemma notify_Some [simp]: "notify_fp fl lc env m (Some f) = notify_on fl lc env m f"
  by (simp add: notify_fp_def getInstance_def)

lemma notify_on_keeps:
  assumes "notify_on fl lc env m f = Some (m', f')"
  shows "mClientCallback f' = mClientCallback f \<and> pointers_set f' = pointers_set f"
  using assms
  by (auto simp: notify_on_def notify_enrolling_def ss_def Let_def split: option.splits fingerprint_msg.splits
      if_splits prod.splits)

lemma notify_on_auth:
  assumes "notify_on fl lc env m f = Some (m', f')"
  shows "(c, onAuthenticated d fid gid tok) \<in> set (client_events f') \<longleftrightarrow>
    (c, onAuthenticated d fid gid tok) \<in> set (client_events f) \<or>
    (\<exists>hat. m = FINGERPRINT_AUTHENTICATED fid gid hat \<and> mClientCallback f = Some c \<and> d = 1 \<and>
           tok = (if fid \<noteq> 0 then hat else []))"
  using assms
  by (auto simp: notify_on_def notify_enrolling_def ss_def Let_def split: option.splits fingerprint_msg.splits
      if_splits prod.splits)

lemma do_op_keeps:
  assumes "do_op fl lc env x f = Some f'"
  shows "mClientCallback f' = registered (mClientCallback f) [x] \<and> pointers_set f' = pointers_set f"
  using assms
  by (cases x) (auto simp: fp_ops bind_eq_Some_conv dest!: notify_on_keeps split: if_splits)

lemma do_op_auth:
  assumes "do_op fl lc env x f = Some f'"
  shows "(c, onAuthenticated d fid gid tok) \<in> set (client_events f') \<longleftrightarrow>
    (c, onAuthenticated d fid gid tok) \<in> set (client_events f) \<or>
    (\<exists>hat. x = Op_message (FINGERPRINT_AUTHENTICATED fid gid hat) \<and> mClientCallback f = Some c \<and> d = 1 \<and>
           tok = (if fid \<noteq> 0 then hat else []))"
  using assms
  by (cases x) (auto simp: fp_ops bind_eq_Some_conv notify_on_auth split: if_splits)

lemma run_ops_append:
  "run_ops fl lc env (xs @ ys) f = do { g \<leftarrow> run_ops fl lc env xs f; run_ops fl lc env ys g }"
  by (induction xs arbitrary: f) (auto split: bind_splits)

lemma snoc_split:
  "xs @ [x] = ys @ y # zs \<longleftrightarrow> (ys = xs \<and> y = x \<and> zs = []) \<or> (\<exists>zs'. zs = zs' @ [x] \<and> xs = ys @ y # zs')"
  by (cases zs rule: rev_cases) auto

lemma registered_append: "registered c (xs @ ys) = registered (registered c xs) ys"
  by (induction c xs rule: registered.induct) simp_all

lemma run_ops_keeps:
  assumes "run_ops fl lc env xs f = Some f'"
  shows "mClientCallback f' = registered (mClientCallback f) xs \<and> pointers_set f' = pointers_set f"
  using assms
proof (induction xs arbitrary: f)
  case (Cons x xs)
  then obtain g where g: "do_op fl lc env x f = Some g" "run_ops fl lc env xs g = Some f'"
    by (auto simp: bind_eq_Some_conv)
  show ?case
    using Cons.IH [OF g(2)] do_op_keeps [OF g(1)] registered_append [of _ "[x]" xs] by simp
qed simp

lemma notify_on_total:
  assumes "pointers_set f" "has_symbol env ''ss_fingerprint_cancel''"
  shows "\<exists>m' f'. notify_on fl lc env m f = Some (m', f')"
  using assms
  by (auto simp: notify_on_def notify_enrolling_def ss_def Let_def split: option.splits fingerprint_msg.splits
      prod.splits)

lemma cancel_total:
  assumes "pointers_set f" "has_symbol env ''ss_fingerprint_cancel''"
  shows "\<exists>r f'. cancel fl lc env f = Some (r, f')"
proof -
  obtain m' f' where "notify_on fl lc env (FINGERPRINT_ERROR (c_CANCELED lc))
      (f\<lparr>calls := calls f @ [ss_fingerprint_cancel]\<rparr>) = Some (m', f')"
    using notify_on_total [of "f\<lparr>calls := calls f @ [ss_fingerprint_cancel]\<rparr>"] assms by fastforce
  then show ?thesis
    using assms by (simp add: cancel_def ss_def)
qed

lemma do_op_total:
  assumes lib: "library_complete fl env" and f: "pointers_set f"
  shows "\<exists>f'. do_op fl lc env x f = Some f'"
proof (cases "x = Op_cancel \<or> (\<exists>m. x = Op_message m)")
  case True
  have "has_symbol env ''ss_fingerprint_cancel''"
    using lib by (simp add: library_complete_def)
  then show ?thesis
    using True cancel_total [OF f] notify_on_total [OF f] by fastforce
next
  case False
  then show ?thesis
    using lib f by (cases x) (auto simp: fp_ops library_complete_def not_le)
qed

lemma run_ops_total:
  assumes "library_complete fl env" "pointers_set f"
  shows "\<exists>f'. run_ops fl lc env xs f = Some f'"
  using assms(2)
proof (induction xs arbitrary: f)
  case (Cons x xs)
  then obtain g where g: "do_op fl lc env x f = Some g"
    using do_op_total [OF assms(1)] by blast
  then show ?case
    using Cons.IH [of g] Cons.prems do_op_keeps [OF g] by simp
qed simp

lemma setup_uinput_keeps [simp]:
  "pointers_set (setup_uinput env f) = pointers_set f"
  "mClientCallback (setup_uinput env f) = mClientCallback f"
  "client_events (setup_uinput env f) = client_events f"
  by (simp_all add: setup_uinput_def Let_def)

lemma new_state:
  assumes "BiometricsFingerprint_new fl env = Some f"
  shows "pointers_set f = dlopen_ok env \<and> mClientCallback f = None \<and> client_events f = []"
  using assms
  by (auto simp: BiometricsFingerprint_new_def openHal_def fp_raw_def ss_def request_def Let_def bind_eq_Some_conv
      split: if_splits)

lemma new_total:
  assumes "library_complete fl env"
  shows "\<exists>f. BiometricsFingerprint_new fl env = Some f"
  using assms
  by (auto simp: library_complete_def BiometricsFingerprint_new_def openHal_def fp_raw_def ss_def request_def Let_def)

lemma op_symbol_needed:
  assumes "do_op fl lc env x f \<noteq> None" "op_symbol x = Some s"
  shows "pointers_set f \<and> has_symbol env s"
  using assms by (cases x) (auto simp: fp_ops bind_eq_Some_conv split: if_splits)

lemma request_needed:
  assumes "do_op fl lc env (Op_enroll hat gid t) f \<noteq> None" "REQUEST_FORCE_CALIBRATE fl"
  shows "has_symbol env ''ss_fingerprint_request''"
  using assms by (auto simp: fp_ops split: if_splits)

lemma active_group_needed:
  assumes "do_op fl lc env (Op_setActiveGroup gid p) f \<noteq> None" "0 < length p" "length p < 4096" "writable env (c_str p)"
  shows "has_symbol env ''ss_fingerprint_set_active_group''"
  using assms by (auto simp: fp_ops split: if_splits)

lemma new_needed:
  assumes "BiometricsFingerprint_new fl env = Some f" "dlopen_ok env"
  shows "has_symbol env ''ss_fingerprint_open''
    \<and> (answer env [] ss_fingerprint_open = 0 \<longrightarrow> has_symbol env ''ss_set_notify_callback'')
    \<and> (HAS_FINGERPRINT_GESTURES fl \<longrightarrow> has_symbol env ''ss_fingerprint_request'')"
  using assms
  by (auto simp: BiometricsFingerprint_new_def openHal_def fp_raw_def ss_def request_def Let_def bind_eq_Some_conv
      split: if_splits)

lemma library_complete_needed:
  assumes new: "BiometricsFingerprint_new fl env = Some f" and all: "\<And>x. do_op fl lc env x f \<noteq> None"
  shows "library_complete fl env"
proof -
  have sym: "pointers_set f \<and> has_symbol env s" if "op_symbol x = Some s" for x s
    using op_symbol_needed [OF all that] .
  have dl: "dlopen_ok env"
    using sym [of Op_cancel] new_state [OF new] by simp
  show ?thesis
    unfolding library_complete_def
    using dl new_needed [OF new dl] sym [of Op_preEnroll] sym [of "Op_enroll [] 0 0"] sym [of Op_postEnroll]
      sym [of Op_getAuthenticatorId] sym [of Op_cancel] sym [of "Op_remove 0 0"] sym [of "Op_authenticate 0 0"]
      request_needed [OF all] active_group_needed [OF all]
    by auto
qed

lemma wait_loop_terminates:
  assumes "pollWait > 0" "pointers_set f" "has_symbol env ''ss_fingerprint_request''"
    "timeOut \<le> timeWaited + int n * pollWait"
  shows "\<exists>r k. k \<le> n \<and> wait_loop env pollWait timeOut st timeWaited f = Some (r, polled k f)
    \<and> verdict (sensor_status env f st k) (timeWaited + int k * pollWait \<ge> timeOut) = Some r
    \<and> (\<forall>j < k. verdict (sensor_status env f st j) (timeWaited + int j * pollWait \<ge> timeOut) = None)"
  using assms(2,4)
proof (induction n arbitrary: f st timeWaited)
  case 0
  then show ?case
    by (subst wait_loop.simps) (auto simp: verdict_def polled_def sensor_status_def)
next
  case (Suc n)
  show ?case
  proof (cases "verdict st (timeWaited \<ge> timeOut)")
    case (Some r)
    then have "wait_loop env pollWait timeOut st timeWaited f = Some (r, polled 0 f)"
      by (subst wait_loop.simps) (auto simp: verdict_def polled_def split: if_splits)
    then show ?thesis
      using Some by (intro exI [of _ r] exI [of _ 0]) (simp add: sensor_status_def)
  next
    case None
    let ?s = "answer env (calls f) (ss_fingerprint_request FINGERPRINT_REQUEST_GET_SENSOR_STATUS 0)"
    have step: "wait_loop env pollWait timeOut st timeWaited f =
        wait_loop env pollWait timeOut ?s (timeWaited + pollWait) (polled 1 f)"
      using None Suc.prems(1) assms(3)
      by (subst wait_loop.simps) (auto simp: verdict_def polled_def request_def ss_def split: if_splits)
    have shift: "sensor_status env (polled 1 f) ?s j = sensor_status env f st (Suc j)" for j
      by (cases j) (simp_all add: sensor_status_def polled_def)
    have pre: "pointers_set (polled 1 f)" "timeOut \<le> timeWaited + pollWait + int n * pollWait"
      using Suc.prems by (simp_all add: polled_def algebra_simps)
    obtain r k where rk: "k \<le> n"
        "wait_loop env pollWait timeOut ?s (timeWaited + pollWait) (polled 1 f) = Some (r, polled k (polled 1 f))"
        "verdict (sensor_status env f st (Suc k)) (timeWaited + pollWait + int k * pollWait \<ge> timeOut) = Some r"
        "\<forall>j < k. verdict (sensor_status env f st (Suc j)) (timeWaited + pollWait + int j * pollWait \<ge> timeOut) = None"
      using Suc.IH [OF pre, of ?s] unfolding shift by blast
    have "verdict (sensor_status env f st j) (timeWaited + int j * pollWait \<ge> timeOut) = None" if "j < Suc k" for j
      using that None rk(4) by (cases j) (auto simp: sensor_status_def algebra_simps)
    moreover have "polled k (polled 1 f) = polled (Suc k) f"
      by (simp add: polled_def)
    ultimately show ?thesis
      using rk(1-3) step by (intro exI [of _ r] exI [of _ "Suc k"]) (simp add: algebra_simps)
  qed
qed

section \<open>Properties\<close>

text \<open>
  C30. The service is well defined exactly when the vendor library loads and has the symbols it needs.
  When it does, the constructor returns an instance on which every sequence of interface calls and
  library messages is defined, whatever the library answers. When it does not, either the constructor or
  one further operation calls a pointer that is null or was never set: the constructor logs that the
  library did not open and goes on.
\<close>

theorem service_defined_iff:
  "(\<exists>f. BiometricsFingerprint_new fl env = Some f \<and> (\<forall>ops. run_ops fl lc env ops f \<noteq> None))
   \<longleftrightarrow> library_complete fl env"
proof
  assume "\<exists>f. BiometricsFingerprint_new fl env = Some f \<and> (\<forall>ops. run_ops fl lc env ops f \<noteq> None)"
  then obtain f where f: "BiometricsFingerprint_new fl env = Some f" "\<And>ops. run_ops fl lc env ops f \<noteq> None"
    by blast
  have "do_op fl lc env x f \<noteq> None" for x
    using f(2) [of "[x]"] by (auto split: bind_splits)
  then show "library_complete fl env"
    by (rule library_complete_needed [OF f(1)])
next
  assume lib: "library_complete fl env"
  then obtain f where f: "BiometricsFingerprint_new fl env = Some f"
    using new_total by blast
  have "pointers_set f"
    using new_state [OF f] lib by (simp add: library_complete_def)
  then have "run_ops fl lc env ops f \<noteq> None" for ops
    using run_ops_total [OF lib] by (metis option.distinct(1))
  then show "\<exists>f. BiometricsFingerprint_new fl env = Some f \<and> (\<forall>ops. run_ops fl lc env ops f \<noteq> None)"
    using f by blast
qed

text \<open>
  C31. Authentication results are neither invented, lost, nor sent to the wrong client. After any run of a
  fresh instance a client has been told of an authentication if and only if the library sent that
  message while this client was the registered one; the token is the library's when a finger was
  recognised, and empty otherwise.
\<close>

theorem authentication_reports:
  assumes "BiometricsFingerprint_new fl env = Some f0" "run_ops fl lc env ops f0 = Some f"
  shows "(c, onAuthenticated d fid gid tok) \<in> set (client_events f) \<longleftrightarrow>
    (\<exists>ops1 hat ops2. ops = ops1 @ Op_message (FINGERPRINT_AUTHENTICATED fid gid hat) # ops2
       \<and> registered None ops1 = Some c \<and> d = 1 \<and> tok = (if fid \<noteq> 0 then hat else []))"
  using assms(2)
proof (induction ops arbitrary: f rule: rev_induct)
  case Nil
  then show ?case
    using new_state [OF assms(1)] by simp
next
  case (snoc x xs)
  then obtain g where g: "run_ops fl lc env xs f0 = Some g" "do_op fl lc env x g = Some f"
    by (auto simp: run_ops_append bind_eq_Some_conv)
  have "mClientCallback g = registered None xs"
    using run_ops_keeps [OF g(1)] new_state [OF assms(1)] by simp
  then show ?case
    unfolding do_op_auth [OF g(2)] snoc.IH [OF g(1)] snoc_split by (auto simp: snoc_split)
qed

theorem authentication_reports_witness:
  "\<exists>f0 f. BiometricsFingerprint_new plain_flags quiet_env = Some f0 \<and>
    run_ops plain_flags sample_codes quiet_env
      [Op_setNotify (Some 4), Op_message (FINGERPRINT_AUTHENTICATED 9 0 [1, 2])] f0 = Some f \<and>
    (4, onAuthenticated 1 9 0 [1, 2]) \<in> set (client_events f)"
proof -
  let ?ops = "[Op_setNotify (Some 4), Op_message (FINGERPRINT_AUTHENTICATED 9 0 [1, 2])]"
  have lib: "library_complete plain_flags quiet_env"
    by (simp add: library_complete_def quiet_env_def plain_flags_def)
  obtain f0 where f0: "BiometricsFingerprint_new plain_flags quiet_env = Some f0"
    using new_total [OF lib] by blast
  have "pointers_set f0"
    using new_state [OF f0] by (simp add: quiet_env_def)
  then obtain f where f: "run_ops plain_flags sample_codes quiet_env ?ops f0 = Some f"
    using run_ops_total [OF lib] by blast
  have "(4, onAuthenticated 1 9 0 [1, 2]) \<in> set (client_events f)"
    unfolding authentication_reports [OF f0 f]
    by (intro exI [of _ "[Op_setNotify (Some 4)]"] exI [of _ "[1, 2]"] exI [of _ "[]"]) simp
  then show ?thesis
    using f0 f by blast
qed

text \<open>
  C32. Waiting for the sensor ends. With a positive polling interval \<open>waitForSensor\<close> returns after at most
  \<open>n\<close> polls, where \<open>n\<close> intervals cover the time-out. It stops at the first poll that decides: with 0 for a
  working sensor (also when the time is over by then), with -1 for a sensor error, with -2 when the time
  is over. It does nothing but poll.
\<close>

theorem waitForSensor_terminates:
  assumes "pollWait > 0" "pointers_set f" "has_symbol env ''ss_fingerprint_request''" "timeOut \<le> int n * pollWait"
  shows "\<exists>r k. k \<le> n \<and> waitForSensor env pollWait timeOut f = Some (r, polled k f)
    \<and> verdict (sensor_status env f SEM_SENSOR_STATUS_WORKING k) (int k * pollWait \<ge> timeOut) = Some r
    \<and> (\<forall>j < k. verdict (sensor_status env f SEM_SENSOR_STATUS_WORKING j) (int j * pollWait \<ge> timeOut) = None)"
  using wait_loop_terminates [of pollWait f env timeOut 0 n SEM_SENSOR_STATUS_WORKING] assms
  by (simp add: waitForSensor_def)

theorem waitForSensor_terminates_witness:
  "\<exists>r k. k \<le> 4 \<and> waitForSensor quiet_env 300 1000 (fp_raw\<lparr>pointers_set := True\<rparr>)
     = Some (r, polled k (fp_raw\<lparr>pointers_set := True\<rparr>))"
proof -
  have "(300 :: int) > 0" "pointers_set (fp_raw\<lparr>pointers_set := True\<rparr>)"
      "has_symbol quiet_env ''ss_fingerprint_request''" "(1000 :: int) \<le> int 4 * 300"
    by (simp_all add: quiet_env_def)
  from waitForSensor_terminates [OF this] show ?thesis
    by blast
qed

text \<open>
  The translation of errors loses nothing: when the seven numbers of the legacy interface are distinct
  and below the vendor base, \<open>VendorErrorFilter\<close> gives back every error and every vendor code from its
  number, and a number that stands for no error becomes \<open>ERROR_UNABLE_TO_PROCESS\<close> without a vendor code.
\<close>

theorem VendorErrorFilter_inverse:
  assumes "distinct (error_codes lc)" "\<forall>x \<in> set (error_codes lc). x < c_ERROR_VENDOR_BASE lc"
    "v \<ge> 0" "r \<noteq> ERROR_VENDOR \<longrightarrow> v = 0"
  shows "VendorErrorFilter lc (legacy_error lc r v) = (r, v)
    \<and> (e \<notin> set (error_codes lc) \<and> e < c_ERROR_VENDOR_BASE lc \<longrightarrow>
         VendorErrorFilter lc e = (ERROR_UNABLE_TO_PROCESS, 0))"
  using assms by (cases r) (auto simp: VendorErrorFilter_def error_codes_def)

theorem VendorErrorFilter_inverse_witness:
  "VendorErrorFilter sample_codes 1005 = (ERROR_VENDOR, 5) \<and>
   VendorErrorFilter sample_codes 8 = (ERROR_UNABLE_TO_PROCESS, 0)"
proof -
  have "distinct (error_codes sample_codes)"
      "\<forall>x \<in> set (error_codes sample_codes). x < c_ERROR_VENDOR_BASE sample_codes"
      "(5 :: int) \<ge> 0" "ERROR_VENDOR \<noteq> ERROR_VENDOR \<longrightarrow> (5 :: int) = 0"
    by (simp_all add: error_codes_def sample_codes_def)
  from VendorErrorFilter_inverse [OF this, of 8] show ?thesis
    by (simp add: error_codes_def sample_codes_def)
qed

end
