(* ===== verification/Lights.thy ===== *)
theory Lights
  imports HostTools
begin

unbundle bit_operations_syntax

text \<open>
  The lights service, \<open>src/aidl/light/Lights.cpp\<close>, built with the nodes of \<open>samsung_lights.h\<close> (which
  defines the button, LED and backlight-notification nodes, and not \<open>VAR_BUTTON_BRIGHTNESS\<close>). What the
  service wrote to the nodes is a list. Which nodes can be opened, the number read from the node of the
  panel, the casts between numbers and light types (\<open>None\<close> for a type that is not one of the five) and the order
  in which the hash map is visited are arguments.
\<close>

section \<open>Data\<close>

datatype LightType = BACKLIGHT | BUTTONS | BATTERY | NOTIFICATIONS | ATTENTION

datatype FlashMode = FLASH_NONE | FLASH_HARDWARE | FLASH_OTHER int

datatype light_status = LIGHT_OK | LIGHT_EX_UNSUPPORTED_OPERATION

record HwLightState =
  color :: u32
  flashMode :: FlashMode
  flashOnMs :: u32
  flashOffMs :: u32

record HwLight =
  hl_id :: int
  hl_type :: LightType
  hl_ordinal :: int

record light_env =
  node_ok :: "string \<Rightarrow> bool"
  read_int :: "string \<Rightarrow> int option"
  type_id :: "LightType \<Rightarrow> int"
  to_type :: "int \<Rightarrow> LightType option"

record Lights =
  mAttentionState :: HwLightState
  mBatteryState :: HwLightState
  mNotificationState :: HwLightState
  writes :: "(string \<times> string) list"

definition PANEL_BRIGHTNESS_NODE :: string where
  "PANEL_BRIGHTNESS_NODE = ''/sys/class/backlight/panel/brightness''"
definition PANEL_MAX_BRIGHTNESS_NODE :: string where
  "PANEL_MAX_BRIGHTNESS_NODE = ''/sys/class/backlight/panel/max_brightness''"
definition BUTTON_BRIGHTNESS_NODE :: string where
  "BUTTON_BRIGHTNESS_NODE = ''/sys/class/sec/sec_touchkey/brightness''"
definition LED_BLINK_NODE :: string where
  "LED_BLINK_NODE = ''/sys/class/sec/led/led_blink''"
definition LED_BLN_NODE :: string where
  "LED_BLN_NODE = ''/sys/class/misc/backlightnotification/notification_led''"

definition COLOR_MASK :: u32 where "COLOR_MASK = 0x00ffffff"
definition MAX_INPUT_BRIGHTNESS :: int where "MAX_INPUT_BRIGHTNESS = 255"
definition LED_BRIGHTNESS_BATTERY :: u32 where "LED_BRIGHTNESS_BATTERY = 255"
definition LED_BRIGHTNESS_NOTIFICATION :: u32 where "LED_BRIGHTNESS_NOTIFICATION = 255"
definition LED_BRIGHTNESS_ATTENTION :: u32 where "LED_BRIGHTNESS_ATTENTION = 255"

section \<open>Nodes\<close>

text \<open>A node that cannot be opened is skipped without a word; \<open>std::endl\<close> ends the line.\<close>

definition set_node :: "light_env \<Rightarrow> string \<Rightarrow> string \<Rightarrow> Lights \<Rightarrow> Lights" where
  "set_node env path value l =
     (if node_ok env path then l\<lparr>writes := writes l @ [(path, value @ [CHR 0x0A])]\<rparr> else l)"

definition get_node :: "light_env \<Rightarrow> string \<Rightarrow> int \<Rightarrow> int" where
  "get_node env path def_value = (case read_int env path of None \<Rightarrow> def_value | Some v \<Rightarrow> v)"

section \<open>Colours\<close>

definition rgbToBrightness :: "HwLightState \<Rightarrow> u32" where
  "rgbToBrightness state =
     (let c = color state AND COLOR_MASK in
      drop_bit 8 (77 * (drop_bit 16 c AND 0xff) + 150 * (drop_bit 8 c AND 0xff) + 29 * (c AND 0xff)))"

text \<open>The adjustment factors are all 1.0, so that the products with them are exact.\<close>

definition calibrateColor :: "u32 \<Rightarrow> u32 \<Rightarrow> u32" where
  "calibrateColor c brightness =
     (let red = drop_bit 16 c AND 0xFF; green = drop_bit 8 c AND 0xFF; blue = c AND 0xFF in
      push_bit 16 (red * brightness div 255) + push_bit 8 (green * brightness div 255) + blue * brightness div 255)"

section \<open>The handlers\<close>

definition handleBacklight :: "light_env \<Rightarrow> HwLightState \<Rightarrow> Lights \<Rightarrow> Lights" where
  "handleBacklight env state l =
     (let max_brightness = (of_int (get_node env PANEL_MAX_BRIGHTNESS_NODE MAX_INPUT_BRIGHTNESS) :: u32);
          brightness = rgbToBrightness state;
          brightness = (if max_brightness \<noteq> of_int MAX_INPUT_BRIGHTNESS
                        then brightness * max_brightness div of_int MAX_INPUT_BRIGHTNESS else brightness)
      in set_node env PANEL_BRIGHTNESS_NODE (show_u brightness) l)"

definition handleButtons :: "light_env \<Rightarrow> HwLightState \<Rightarrow> Lights \<Rightarrow> Lights" where
  "handleButtons env state l =
     set_node env BUTTON_BRIGHTNESS_NODE (show_u (if color state AND COLOR_MASK \<noteq> 0 then 1 else 0)) l"

definition attention_state :: "HwLightState \<Rightarrow> HwLightState" where
  "attention_state state =
     (let state = (if flashMode state = FLASH_HARDWARE
                   then (if sint (flashOnMs state) > 0 \<and> flashOffMs state = 0
                         then state\<lparr>flashMode := FLASH_NONE\<rparr> else state)\<lparr>color := 0x000000ff\<rparr>
                   else state)
      in if flashMode state = FLASH_NONE then state\<lparr>color := 0\<rparr> else state)"

definition show_led :: "light_env \<Rightarrow> bool \<Rightarrow> u32 \<Rightarrow> HwLightState \<Rightarrow> Lights \<Rightarrow> Lights" where
  "show_led env bln adjusted_brightness state l =
     (let state = (if flashMode state = FLASH_NONE then state\<lparr>flashOnMs := 0, flashOffMs := 0\<rparr> else state);
          state = state\<lparr>color := calibrateColor (color state AND COLOR_MASK) adjusted_brightness\<rparr>;
          l = set_node env LED_BLINK_NODE
                (''0x'' @ show_08x (color state) @ '' '' @ show_d (flashOnMs state) @ '' '' @ show_d (flashOffMs state)) l
      in if bln then set_node env LED_BLN_NODE (show_d (if color state AND COLOR_MASK \<noteq> 0 then 1 else 0)) l else l)"

definition setNotificationLED :: "light_env \<Rightarrow> Lights \<Rightarrow> Lights" where
  "setNotificationLED env l =
     (if color (mNotificationState l) AND COLOR_MASK \<noteq> 0
      then show_led env True LED_BRIGHTNESS_NOTIFICATION (mNotificationState l) l
      else if color (mAttentionState l) AND COLOR_MASK \<noteq> 0
      then show_led env False LED_BRIGHTNESS_ATTENTION (attention_state (mAttentionState l)) l
      else if color (mBatteryState l) AND COLOR_MASK \<noteq> 0
      then show_led env False LED_BRIGHTNESS_BATTERY (mBatteryState l) l
      else set_node env LED_BLINK_NODE ''0x00000000 0 0'' l)"

definition handleBattery :: "light_env \<Rightarrow> HwLightState \<Rightarrow> Lights \<Rightarrow> Lights" where
  "handleBattery env state l = setNotificationLED env (l\<lparr>mBatteryState := state\<rparr>)"

definition handleNotifications :: "light_env \<Rightarrow> HwLightState \<Rightarrow> Lights \<Rightarrow> Lights" where
  "handleNotifications env state l = setNotificationLED env (l\<lparr>mNotificationState := state\<rparr>)"

definition handleAttention :: "light_env \<Rightarrow> HwLightState \<Rightarrow> Lights \<Rightarrow> Lights" where
  "handleAttention env state l = setNotificationLED env (l\<lparr>mAttentionState := state\<rparr>)"

section \<open>The interface\<close>

text \<open>The keys of \<open>mLights\<close>, in the order of insertion, and the handler of each.\<close>

definition mLights :: "LightType list" where
  "mLights = [BACKLIGHT, BUTTONS, BATTERY, NOTIFICATIONS, ATTENTION]"

fun handler :: "LightType \<Rightarrow> light_env \<Rightarrow> HwLightState \<Rightarrow> Lights \<Rightarrow> Lights" where
  "handler BACKLIGHT = handleBacklight"
| "handler BUTTONS = handleButtons"
| "handler BATTERY = handleBattery"
| "handler NOTIFICATIONS = handleNotifications"
| "handler ATTENTION = handleAttention"

text \<open>The states start as the interface's defaults: no colour, no flashing.\<close>

definition dark :: HwLightState where
  "dark = \<lparr>color = 0, flashMode = FLASH_NONE, flashOnMs = 0, flashOffMs = 0\<rparr>"

definition Lights_new :: Lights where
  "Lights_new = \<lparr>mAttentionState = dark, mBatteryState = dark, mNotificationState = dark, writes = []\<rparr>"

definition setLightState :: "light_env \<Rightarrow> int \<Rightarrow> HwLightState \<Rightarrow> Lights \<Rightarrow> light_status \<times> Lights" where
  "setLightState env i state l =
     (case find (\<lambda>t. to_type env i = Some t) mLights of
        None \<Rightarrow> (LIGHT_EX_UNSUPPORTED_OPERATION, l)
      | Some t \<Rightarrow> (LIGHT_OK, handler t env state l))"

text \<open>The lights are added to what the vector of the caller holds.\<close>

definition getLights :: "light_env \<Rightarrow> (LightType list \<Rightarrow> LightType list) \<Rightarrow> HwLight list \<Rightarrow> HwLight list" where
  "getLights env order ret = ret @ map (\<lambda>t. \<lparr>hl_id = type_id env t, hl_type = t, hl_ordinal = 0\<rparr>) (order mLights)"

section \<open>Specification\<close>

fun run_lights :: "light_env \<Rightarrow> (int \<times> HwLightState) list \<Rightarrow> Lights \<Rightarrow> Lights" where
  "run_lights env [] l = l"
| "run_lights env ((i, s) # xs) l = run_lights env xs (snd (setLightState env i s l))"

text \<open>The last state set for a light, and the last line written to a node.\<close>

definition latest :: "light_env \<Rightarrow> LightType \<Rightarrow> (int \<times> HwLightState) list \<Rightarrow> HwLightState" where
  "latest env t xs = (case map_of (rev (map (\<lambda>(i, s). (to_type env i, s)) xs)) (Some t) of None \<Rightarrow> dark | Some s \<Rightarrow> s)"

definition node_value :: "string \<Rightarrow> Lights \<Rightarrow> string option" where
  "node_value path l = map_of (rev (writes l)) path"

definition lit :: "HwLightState \<Rightarrow> bool" where
  "lit s = (color s AND COLOR_MASK \<noteq> 0)"

definition led_line :: "u32 \<Rightarrow> u32 \<Rightarrow> u32 \<Rightarrow> string" where
  "led_line c on_ms off_ms = ''0x'' @ show_08x c @ '' '' @ show_d on_ms @ '' '' @ show_d off_ms @ [CHR 0x0A]"

definition led_plain :: "HwLightState \<Rightarrow> string" where
  "led_plain s = (if flashMode s = FLASH_NONE then led_line (color s AND COLOR_MASK) 0 0
                  else led_line (color s AND COLOR_MASK) (flashOnMs s) (flashOffMs s))"

definition led_attention :: "HwLightState \<Rightarrow> string" where
  "led_attention s =
     (if flashMode s = FLASH_NONE \<or> (flashMode s = FLASH_HARDWARE \<and> sint (flashOnMs s) > 0 \<and> flashOffMs s = 0)
      then led_line 0 0 0
      else if flashMode s = FLASH_HARDWARE then led_line 0xff (flashOnMs s) (flashOffMs s)
      else led_plain s)"

text \<open>What the LED shows: the first of notification, attention and battery that is lit.\<close>

definition led_spec :: "HwLightState \<Rightarrow> HwLightState \<Rightarrow> HwLightState \<Rightarrow> string" where
  "led_spec notification attention battery =
     (if lit notification then led_plain notification
      else if lit attention then led_attention attention
      else if lit battery then led_plain battery
      else led_line 0 0 0)"

definition led_types :: "LightType set" where
  "led_types = {NOTIFICATIONS, ATTENTION, BATTERY}"

definition all_nodes :: light_env where
  "all_nodes = \<lparr>node_ok = (\<lambda>_. True), read_int = (\<lambda>_. Some 365),
     type_id = (\<lambda>t. case t of BACKLIGHT \<Rightarrow> 0 | BUTTONS \<Rightarrow> 2 | BATTERY \<Rightarrow> 3 | NOTIFICATIONS \<Rightarrow> 4 | ATTENTION \<Rightarrow> 5),
     to_type = (\<lambda>i. if i = 0 then Some BACKLIGHT else if i = 2 then Some BUTTONS else if i = 3 then Some BATTERY
                    else if i = 4 then Some NOTIFICATIONS else if i = 5 then Some ATTENTION else None)\<rparr>"

section \<open>Colours as numbers\<close>


lemma unat_byte:
  "unat ((x :: u32) AND 0xFF) = unat x mod 256"
  "unat (drop_bit 8 (x :: u32)) = unat x div 256"
  "unat (drop_bit 16 (x :: u32)) = unat x div 65536"
  using and_mask_zero(1) [of 8 x] by (simp_all add: drop_bit_eq_div unat_div)

lemma low_bytes:
  fixes n :: nat
  shows "n mod 16777216 div 65536 mod 256 = n div 65536 mod 256" "n mod 16777216 div 256 mod 256 = n div 256 mod 256"
    "n mod 16777216 mod 256 = n mod 256"
proof -
  have "n mod (65536 * 256) div 65536 = n div 65536 mod 256"
    by (subst mod_mult2_eq) simp
  then show "n mod 16777216 div 65536 mod 256 = n div 65536 mod 256"
    by simp
  have "n mod (256 * 65536) div 256 = n div 256 mod 65536"
    by (subst mod_mult2_eq) simp
  then show "n mod 16777216 div 256 mod 256 = n div 256 mod 256"
    by (simp add: mod_mod_cancel)
  show "n mod 16777216 mod 256 = n mod 256"
    by (simp add: mod_mod_cancel)
qed

lemma three_bytes:
  fixes n :: nat
  assumes "n < 16777216"
  shows "65536 * (n div 65536 mod 256) + 256 * (n div 256 mod 256) + n mod 256 = n"
proof -
  have "n div 65536 mod 256 = n div 65536"
    using assms by (intro mod_less) (simp add: less_mult_imp_div_less)
  moreover have "n mod (256 * 256) = 256 * (n div 256 mod 256) + n mod 256"
    by (rule mod_mult2_eq)
  moreover have "65536 * (n div 65536) + n mod 65536 = n"
    by simp
  ultimately show ?thesis
    by simp
qed

lemma unat_colour: "unat (c AND COLOR_MASK) = unat c mod 16777216"
  using and_mask_zero(1) [of 24 c] by (simp add: COLOR_MASK_def)

lemma unat_mult_small: "unat (a :: u32) * unat (b :: u32) < 2 ^ 32 \<Longrightarrow> unat (a * b) = unat a * unat b"
  by (simp add: unat_word_ariths)

lemma unat_weighted:
  fixes x y z :: u32
  assumes "unat x < 256" "unat y < 256" "unat z < 256"
    "unat a \<le> 65536" "unat b \<le> 65536" "unat c \<le> 65536"
  shows "unat (a * x + b * y + c * z) = unat a * unat x + unat b * unat y + unat c * unat z"
proof -
  have small: "unat v * unat w \<le> 65536 * 255" if "unat v \<le> 65536" "unat w < 256" for v w :: u32
    using that by (intro mult_le_mono) simp_all
  note b = small [OF assms(4,1)] small [OF assms(5,2)] small [OF assms(6,3)]
  have m: "unat (a * x) = unat a * unat x" "unat (b * y) = unat b * unat y" "unat (c * z) = unat c * unat z"
    by (rule unat_mult_small; use b in simp)+
  have "unat (a * x + b * y) = unat a * unat x + unat b * unat y"
    using b m by (simp add: unat_word_ariths)
  then show ?thesis
    using b m by (simp add: unat_word_ariths)
qed

lemma byte_scale_255:
  assumes "unat (x :: u32) < 256"
  shows "x * 255 div 255 = x"
proof -
  have "unat (x * 255) = unat x * 255"
    using assms by (subst unat_mult_small) simp_all
  then show ?thesis
    by (intro word_unat_eq_iff [THEN iffD2]) (simp add: unat_div)
qed

lemma calibrateColor_255: "calibrateColor (c AND COLOR_MASK) 255 = c AND COLOR_MASK"
proof -
  define x where "x = c AND COLOR_MASK"
  have x: "unat x < 16777216"
    by (simp add: x_def unat_colour)
  have scale: "(drop_bit 16 x AND 0xFF) * 255 div 255 = drop_bit 16 x AND 0xFF"
      "(drop_bit 8 x AND 0xFF) * 255 div 255 = drop_bit 8 x AND 0xFF" "(x AND 0xFF) * 255 div 255 = x AND 0xFF"
    by (rule byte_scale_255; simp only: unat_byte; simp)+
  have "calibrateColor x 255 =
      65536 * (drop_bit 16 x AND 0xFF) + 256 * (drop_bit 8 x AND 0xFF) + 1 * (x AND 0xFF)"
    unfolding calibrateColor_def Let_def scale push_bit_eq_mult by simp
  also have "unat \<dots> = 65536 * (unat x div 65536 mod 256) + 256 * (unat x div 256 mod 256) + 1 * (unat x mod 256)"
    by (subst unat_weighted) (simp_all only: unat_byte, simp_all)
  also have "\<dots> = unat x"
    using three_bytes [OF x] by (simp only: mult_1)
  finally show ?thesis
    by (simp add: x_def word_unat_eq_iff)
qed

lemma unat_rgbToBrightness:
  "unat (rgbToBrightness s) =
    (77 * (unat (color s) div 65536 mod 256) + 150 * (unat (color s) div 256 mod 256) + 29 * (unat (color s) mod 256)) div 256"
proof -
  have "unat (77 * (drop_bit 16 (color s AND COLOR_MASK) AND 0xff) + 150 * (drop_bit 8 (color s AND COLOR_MASK) AND 0xff)
        + 29 * ((color s AND COLOR_MASK) AND 0xff)) =
      77 * (unat (color s) div 65536 mod 256) + 150 * (unat (color s) div 256 mod 256) + 29 * (unat (color s) mod 256)"
    by (subst unat_weighted) (simp_all only: unat_byte unat_colour low_bytes, simp_all)
  then show ?thesis
    by (simp add: rgbToBrightness_def Let_def drop_bit_eq_div unat_div)
qed

lemma rgbToBrightness_le: "unat (rgbToBrightness s) \<le> 255"
proof -
  have "unat (color s) div 65536 mod 256 < 256" "unat (color s) div 256 mod 256 < 256" "unat (color s) mod 256 < 256"
    by simp_all
  then show ?thesis
    unfolding unat_rgbToBrightness by linarith
qed

lemma rgbToBrightness_white:
  assumes "color s AND COLOR_MASK = COLOR_MASK"
  shows "unat (rgbToBrightness s) = 255"
proof -
  have "unat (color s) mod 16777216 = 16777215"
    using assms unat_colour [of "color s"] by (simp add: COLOR_MASK_def)
  then have "unat (color s) div 65536 mod 256 = 255" "unat (color s) div 256 mod 256 = 255" "unat (color s) mod 256 = 255"
    using low_bytes [of "unat (color s)"] by simp_all
  then show ?thesis
    by (simp add: unat_rgbToBrightness)
qed

section \<open>Nodes and runs\<close>

lemma nodes_distinct [simp]:
  "LED_BLINK_NODE \<noteq> PANEL_BRIGHTNESS_NODE" "LED_BLINK_NODE \<noteq> BUTTON_BRIGHTNESS_NODE" "LED_BLINK_NODE \<noteq> LED_BLN_NODE"
  "LED_BLN_NODE \<noteq> PANEL_BRIGHTNESS_NODE" "LED_BLN_NODE \<noteq> BUTTON_BRIGHTNESS_NODE" "LED_BLN_NODE \<noteq> LED_BLINK_NODE"
  by (simp_all add: PANEL_BRIGHTNESS_NODE_def BUTTON_BRIGHTNESS_NODE_def LED_BLINK_NODE_def LED_BLN_NODE_def)

lemma node_value_set_node:
  "node_value p (set_node env q v l) = (if p = q \<and> node_ok env q then Some (v @ [CHR 0x0A]) else node_value p l)"
  by (simp add: node_value_def set_node_def)

lemma set_node_keeps [simp]:
  "mNotificationState (set_node env q v l) = mNotificationState l"
  "mAttentionState (set_node env q v l) = mAttentionState l"
  "mBatteryState (set_node env q v l) = mBatteryState l"
  by (simp_all add: set_node_def)

lemma show_led_keeps [simp]:
  "mNotificationState (show_led env b br s l) = mNotificationState l"
  "mAttentionState (show_led env b br s l) = mAttentionState l"
  "mBatteryState (show_led env b br s l) = mBatteryState l"
  by (simp_all add: show_led_def Let_def)

lemma setNotificationLED_keeps [simp]:
  "mNotificationState (setNotificationLED env l) = mNotificationState l"
  "mAttentionState (setNotificationLED env l) = mAttentionState l"
  "mBatteryState (setNotificationLED env l) = mBatteryState l"
  by (simp_all add: setNotificationLED_def)

lemmas handlers = handleBacklight_def handleButtons_def handleBattery_def handleNotifications_def handleAttention_def

lemma show_led_line:
  assumes "node_ok env LED_BLINK_NODE"
  shows "node_value LED_BLINK_NODE (show_led env b 255 s l) = Some (led_plain s)"
  using assms
  by (simp add: show_led_def Let_def node_value_set_node calibrateColor_255 led_plain_def led_line_def)

lemma led_plain_attention: "led_plain (attention_state s) = led_attention s"
  by (simp add: led_plain_def led_attention_def attention_state_def Let_def COLOR_MASK_def)

lemma led_line_dark: "''0x00000000 0 0'' @ [CHR 0x0A] = led_line 0 0 0"
proof -
  have "digit_char 0 = CHR ''0''"
    by code_simp
  then show ?thesis
    by (simp add: led_line_def show_08x_def show_x_def show_d_def show_base.simps eval_nat_numeral)
qed

lemma setNotificationLED_spec:
  assumes "node_ok env LED_BLINK_NODE"
  shows "node_value LED_BLINK_NODE (setNotificationLED env l) =
    Some (led_spec (mNotificationState l) (mAttentionState l) (mBatteryState l))"
  using assms led_line_dark
  by (simp add: setNotificationLED_def show_led_line led_spec_def lit_def led_plain_attention node_value_set_node
      LED_BRIGHTNESS_NOTIFICATION_def LED_BRIGHTNESS_ATTENTION_def LED_BRIGHTNESS_BATTERY_def del: append.simps)

lemma setLightState_type:
  "to_type env i = Some T \<Longrightarrow> setLightState env i s l = (LIGHT_OK, handler T env s l)"
  by (cases T) (simp_all add: setLightState_def mLights_def)

lemma setLightState_unknown:
  "to_type env i = None \<Longrightarrow> setLightState env i s l = (LIGHT_EX_UNSUPPORTED_OPERATION, l)"
  by (simp add: setLightState_def mLights_def)

text \<open>Every light that is listed can be set, when the cast of a type's number gives the type back.\<close>

lemma listed_lights_settable:
  assumes "\<And>t. to_type env (type_id env t) = Some t" "h \<in> set (getLights env order [])"
  shows "fst (setLightState env (hl_id h) s l) = LIGHT_OK"
  using assms by (auto simp: getLights_def setLightState_type)

lemma run_lights_snoc: "run_lights env (xs @ [(i, s)]) l = snd (setLightState env i s (run_lights env xs l))"
  by (induction env xs l rule: run_lights.induct) simp_all

lemma latest_snoc: "latest env t (xs @ [(i, s)]) = (if to_type env i = Some t then s else latest env t xs)"
  by (simp add: latest_def)

lemma handler_states:
  "mNotificationState (handler T env s l) = (if T = NOTIFICATIONS then s else mNotificationState l)"
  "mAttentionState (handler T env s l) = (if T = ATTENTION then s else mAttentionState l)"
  "mBatteryState (handler T env s l) = (if T = BATTERY then s else mBatteryState l)"
  by (cases T; simp add: handlers Let_def)+

lemma handler_led:
  assumes "node_ok env LED_BLINK_NODE"
  shows "node_value LED_BLINK_NODE (handler T env s l) =
    (if T \<in> led_types then Some (led_spec (mNotificationState (handler T env s l))
        (mAttentionState (handler T env s l)) (mBatteryState (handler T env s l)))
     else node_value LED_BLINK_NODE l)"
  using assms
  by (cases T) (simp_all add: handlers Let_def led_types_def setNotificationLED_spec node_value_set_node)

lemma run_lights_states:
  "mNotificationState (run_lights env xs Lights_new) = latest env NOTIFICATIONS xs
    \<and> mAttentionState (run_lights env xs Lights_new) = latest env ATTENTION xs
    \<and> mBatteryState (run_lights env xs Lights_new) = latest env BATTERY xs"
proof (induction xs rule: rev_induct)
  case Nil
  then show ?case
    by (simp add: Lights_new_def latest_def)
next
  case (snoc x xs)
  obtain i s where x: "x = (i, s)"
    by (cases x)
  show ?case
    using snoc unfolding x run_lights_snoc latest_snoc
    by (cases "to_type env i") (simp_all add: setLightState_unknown setLightState_type handler_states)
qed

lemma show_d_one: "show_d 1 = ''1''"
proof -
  have "digit_char 1 = CHR ''1''"
    by code_simp
  then show ?thesis
    by (simp add: show_d_def show_base.simps)
qed

lemma show_led_bln:
  assumes "lit s" "node_ok env LED_BLN_NODE"
  shows "node_value LED_BLN_NODE (show_led env True 255 s l) = Some (''1'' @ [CHR 0x0A])"
  using assms
  by (simp add: show_led_def Let_def node_value_set_node calibrateColor_255 show_d_one lit_def and.assoc)

lemma handler_bln:
  assumes "node_ok env LED_BLN_NODE"
  shows "node_value LED_BLN_NODE (handler T env s l) \<in> {node_value LED_BLN_NODE l, Some (''1'' @ [CHR 0x0A])}"
proof -
  have other: "node_value LED_BLN_NODE (show_led env False br s' l') = node_value LED_BLN_NODE l'" for br s' l'
    by (simp add: show_led_def Let_def node_value_set_node)
  have led: "node_value LED_BLN_NODE (setNotificationLED env l') \<in> {node_value LED_BLN_NODE l', Some (''1'' @ [CHR 0x0A])}" for l'
    using show_led_bln [OF _ assms, of "mNotificationState l'" l']
    by (simp add: setNotificationLED_def other node_value_set_node lit_def LED_BRIGHTNESS_NOTIFICATION_def)
  have upd: "node_value LED_BLN_NODE (l\<lparr>mBatteryState := s\<rparr>) = node_value LED_BLN_NODE l"
      "node_value LED_BLN_NODE (l\<lparr>mNotificationState := s\<rparr>) = node_value LED_BLN_NODE l"
      "node_value LED_BLN_NODE (l\<lparr>mAttentionState := s\<rparr>) = node_value LED_BLN_NODE l"
    by (simp_all add: node_value_def)
  show ?thesis
    using led [of "l\<lparr>mBatteryState := s\<rparr>"] led [of "l\<lparr>mNotificationState := s\<rparr>"] led [of "l\<lparr>mAttentionState := s\<rparr>"]
    unfolding upd by (cases T) (simp_all add: handlers Let_def node_value_set_node)
qed

lemma run_lights_bln:
  assumes "node_ok env LED_BLN_NODE" "node_value LED_BLN_NODE l = Some (''1'' @ [CHR 0x0A])"
  shows "node_value LED_BLN_NODE (run_lights env xs l) = Some (''1'' @ [CHR 0x0A])"
  using assms(2)
proof (induction xs arbitrary: l)
  case (Cons x xs)
  obtain i s where x: "x = (i, s)"
    by (cases x)
  have "node_value LED_BLN_NODE (snd (setLightState env i s l)) = Some (''1'' @ [CHR 0x0A])"
    using handler_bln [OF assms(1), of _ s l] Cons.prems
    by (cases "to_type env i") (auto simp: setLightState_type setLightState_unknown)
  then show ?case
    using Cons.IH by (simp add: x)
qed simp

lemma run_lights_append: "run_lights env (xs @ ys) l = run_lights env ys (run_lights env xs l)"
  by (induction env xs l rule: run_lights.induct) simp_all

section \<open>Properties\<close>

text \<open>
  C33. The notification LED follows its priorities. After any calls of \<open>setLightState\<close>, at least one of
  them for a light of the LED, the last line written to the LED's node is the one of the first lit state
  among the latest notification, attention and battery states, with its own colour and flashing times (the
  calibration with full brightness changes no colour), and the line for a dark LED when none is lit.
  Attention states with hardware flashing show blue, and are dark when they do not flash.
\<close>

theorem led_priority:
  assumes node: "node_ok env LED_BLINK_NODE"
    and led: "\<exists>T \<in> led_types. \<exists>x \<in> set xs. to_type env (fst x) = Some T"
  shows "node_value LED_BLINK_NODE (run_lights env xs Lights_new) =
    Some (led_spec (latest env NOTIFICATIONS xs) (latest env ATTENTION xs) (latest env BATTERY xs))"
  using led
proof (induction xs rule: rev_induct)
  case (snoc x xs)
  obtain i s where x: "x = (i, s)"
    by (cases x)
  show ?case
  proof (cases "\<exists>T \<in> led_types. to_type env i = Some T")
    case True
    then obtain T where T: "T \<in> led_types" "to_type env i = Some T"
      by blast
    have "run_lights env (xs @ [x]) Lights_new = handler T env s (run_lights env xs Lights_new)"
      by (simp add: x T(2) run_lights_snoc setLightState_type)
    then show ?thesis
      using run_lights_states [of env "xs @ [x]"] handler_led [OF node, of T s "run_lights env xs Lights_new"] T(1)
      by simp
  next
    case False
    then have same: "latest env T (xs @ [x]) = latest env T xs" if "T \<in> led_types" for T
      using that by (auto simp: x latest_snoc)
    have "node_value LED_BLINK_NODE (snd (setLightState env i s l)) = node_value LED_BLINK_NODE l" for l
      using False
      by (cases "to_type env i") (auto simp: setLightState_type setLightState_unknown handler_led [OF node])
    then show ?thesis
      using snoc False same by (auto simp: x run_lights_snoc led_types_def)
  qed
qed simp

theorem led_priority_witness:
  "node_value LED_BLINK_NODE (run_lights all_nodes [(3, dark\<lparr>color := 0xff0000\<rparr>), (4, dark\<lparr>color := 0xff00\<rparr>), (0, dark)] Lights_new)
    = Some (led_line 0xff00 0 0)"
proof -
  let ?xs = "[(3, dark\<lparr>color := 0xff0000\<rparr>), (4, dark\<lparr>color := 0xff00\<rparr>), (0, dark)]"
  have "node_ok all_nodes LED_BLINK_NODE" "\<exists>T \<in> led_types. \<exists>x \<in> set ?xs. to_type all_nodes (fst x) = Some T"
    by (simp_all add: all_nodes_def led_types_def)
  then have "node_value LED_BLINK_NODE (run_lights all_nodes ?xs Lights_new) = Some
      (led_spec (latest all_nodes NOTIFICATIONS ?xs) (latest all_nodes ATTENTION ?xs) (latest all_nodes BATTERY ?xs))"
    by (rule led_priority)
  then show ?thesis
    by (simp add: latest_def all_nodes_def led_spec_def lit_def led_plain_def dark_def COLOR_MASK_def)
qed

text \<open>
  The backlight notification is never switched off. Once a lit notification has been shown, the node of
  the backlight notification holds 1 after any further calls, also after the notification is cleared: the
  code writes to the node only while a notification is lit, and then its colour is never zero.
\<close>

lemma bln_stays_on:
  assumes "node_ok env LED_BLN_NODE" "lit s" "to_type env i = Some NOTIFICATIONS"
  shows "node_value LED_BLN_NODE (run_lights env (xs @ (i, s) # ys) Lights_new) = Some (''1'' @ [CHR 0x0A])"
proof -
  let ?l = "(run_lights env xs Lights_new)\<lparr>mNotificationState := s\<rparr>"
  have "node_value LED_BLN_NODE (setNotificationLED env ?l) = Some (''1'' @ [CHR 0x0A])"
    using show_led_bln [OF assms(2,1)] assms(2)
    by (simp add: setNotificationLED_def lit_def LED_BRIGHTNESS_NOTIFICATION_def)
  then show ?thesis
    unfolding run_lights_append run_lights.simps setLightState_type [OF assms(3)]
    by (simp add: run_lights_bln [OF assms(1)] handlers)
qed

text \<open>
  C34. The backlight is scaled to the panel's range. For a maximum that does not overflow the product
  (at most 16843009) the value written is the brightness of the colour (at most 255) times the maximum
  divided by 255: never above the maximum, and the maximum itself for white.
\<close>

theorem backlight_scaling:
  assumes "read_int env PANEL_MAX_BRIGHTNESS_NODE = Some m" "0 \<le> m" "m \<le> 16843009" "node_ok env PANEL_BRIGHTNESS_NODE"
    "to_type env i = Some BACKLIGHT"
  shows "\<exists>v. node_value PANEL_BRIGHTNESS_NODE (snd (setLightState env i s l))
      = Some (show_u v @ [CHR 0x0A])
    \<and> unat v = unat (rgbToBrightness s) * nat m div 255 \<and> unat v \<le> nat m
    \<and> (color s AND COLOR_MASK = COLOR_MASK \<longrightarrow> unat v = nat m)"
proof -
  let ?m = "of_int m :: u32" and ?b = "rgbToBrightness s"
  have m: "unat ?m = nat m"
    using assms(2,3) unat_of_nat [of "nat m", where ?'a = 32] by simp
  define v where "v = (if ?m \<noteq> 255 then ?b * ?m div 255 else ?b)"
  have le: "unat ?b * nat m \<le> 255 * nat m"
    using rgbToBrightness_le by (rule mult_le_mono1)
  have "nat m \<le> 16843009"
    using assms(3) by simp
  then have "unat ?b * nat m < 4294967296"
    using le by linarith
  then have "unat (?b * ?m) = unat ?b * nat m"
    by (subst unat_mult_small) (simp_all add: m)
  then have v: "unat v = unat ?b * nat m div 255"
    using m by (auto simp: v_def unat_div)
  have "node_value PANEL_BRIGHTNESS_NODE (snd (setLightState env i s l)) = Some (show_u v @ [CHR 0x0A])"
    using assms(1,4)
    by (simp add: setLightState_type [OF assms(5)] handleBacklight_def get_node_def Let_def node_value_set_node
        MAX_INPUT_BRIGHTNESS_def v_def)
  moreover have "unat v \<le> nat m"
    unfolding v using div_le_mono [OF le, of 255] by simp
  moreover have "unat v = nat m" if "color s AND COLOR_MASK = COLOR_MASK"
    unfolding v rgbToBrightness_white [OF that] by simp
  ultimately show ?thesis
    using v by blast
qed

theorem backlight_scaling_witness:
  "\<exists>v. node_value PANEL_BRIGHTNESS_NODE (snd (setLightState all_nodes 0 (dark\<lparr>color := 0xffffff\<rparr>) Lights_new))
      = Some (show_u v @ [CHR 0x0A]) \<and> unat v = 365"
proof -
  have "read_int all_nodes PANEL_MAX_BRIGHTNESS_NODE = Some 365" "(0 :: int) \<le> 365" "(365 :: int) \<le> 16843009"
      "node_ok all_nodes PANEL_BRIGHTNESS_NODE" "to_type all_nodes 0 = Some BACKLIGHT"
    by (simp_all add: all_nodes_def)
  from backlight_scaling [OF this, of "dark\<lparr>color := 0xffffff\<rparr>" Lights_new] show ?thesis
    by (auto simp: COLOR_MASK_def)
qed

end
