(* ===== verification/Vibrator.thy ===== *)
theory Vibrator
  imports HostTools Doubles
begin

text \<open>
  The vibrator service, \<open>src/aidl/vibrator/Vibrator.cpp\<close>. What it wrote to the nodes of the driver and the
  callbacks it scheduled are lists in the state; which nodes can be opened and written is an argument.
  The amplitude is a finite \<open>float\<close>, given by its value; \<open>float\<close> operations round to 24 significant bits. The
  logging is left out, and with it a conversion of the amplitude that is only evaluated for the log.
\<close>

section \<open>Data\<close>

datatype Effect =
    CLICK | DOUBLE_CLICK | TICK | THUD | POP | HEAVY_CLICK | TEXTURE_TICK
  | RINGTONE_1 | RINGTONE_2 | RINGTONE_3 | RINGTONE_4 | RINGTONE_5 | RINGTONE_6 | RINGTONE_7 | RINGTONE_8
  | RINGTONE_9 | RINGTONE_10 | RINGTONE_11 | RINGTONE_12 | RINGTONE_13 | RINGTONE_14 | RINGTONE_15
  | OTHER_EFFECT int

datatype EffectStrength = LIGHT | MEDIUM | STRONG | OTHER_STRENGTH int

datatype vib_status = VIB_OK | VIB_UNKNOWN_ERROR | VIB_EX_ILLEGAL_ARGUMENT | VIB_EX_UNSUPPORTED_OPERATION

datatype vib_cap =
    CAP_ON_CALLBACK | CAP_PERFORM_CALLBACK | CAP_EXTERNAL_CONTROL | CAP_AMPLITUDE_CONTROL
  | CAP_EXTERNAL_AMPLITUDE_CONTROL

datatype unsupported_call =
    getCompositionDelayMax | getCompositionSizeMax | getSupportedPrimitives | getPrimitiveDuration | compose
  | getSupportedAlwaysOnEffects | alwaysOnEnable | alwaysOnDisable | getResonantFrequency | getQFactor
  | getFrequencyResolution | getFrequencyMinimum | getBandwidthAmplitudeMap | getPwlePrimitiveDurationMax
  | getPwleCompositionSizeMax | getSupportedBraking | composePwle

record vib_env =
  open_ok :: "string \<Rightarrow> bool"
  write_ok :: "string \<Rightarrow> bool"

record Vibrator =
  mEnabled :: bool
  mExternalControl :: bool
  mIsTimedOutVibrator :: bool
  mHasTimedOutIntensity :: bool
  mHasTimedOutEffect :: bool
  vib_writes :: "(string \<times> string) list"
  scheduled :: "(nat \<times> u32) list"

definition INTENSITY_MAX :: int where "INTENSITY_MAX = 10000"
definition VIBRATOR_TIMEOUT_PATH :: string where
  "VIBRATOR_TIMEOUT_PATH = ''/sys/class/timed_output/vibrator/enable''"
definition VIBRATOR_INTENSITY_PATH :: string where
  "VIBRATOR_INTENSITY_PATH = ''/sys/class/timed_output/vibrator/intensity''"
definition VIBRATOR_CP_TRIGGER_PATH :: string where
  "VIBRATOR_CP_TRIGGER_PATH = ''/sys/class/timed_output/vibrator/cp_trigger_index''"

definition CP_TRIGGER_EFFECTS :: "(Effect \<times> u32) list" where
  "CP_TRIGGER_EFFECTS = [(CLICK, 10), (DOUBLE_CLICK, 14), (HEAVY_CLICK, 23), (TEXTURE_TICK, 50), (TICK, 50)]"

section \<open>Numbers\<close>

definition flt_round :: "rat \<Rightarrow> rat" where
  "flt_round x =
     (if x = 0 then 0
      else of_int (round_half_even (x * 2 powi (23 - dexp x))) * 2 powi (dexp x - 23))"

text \<open>\<open>std::lround\<close> rounds half away from zero; outside of \<open>long\<close> its result is unspecified.\<close>

definition lround :: "rat \<Rightarrow> int option" where
  "lround x = chk64 (if x \<ge> 0 then \<lfloor>x + 1 / 2\<rfloor> else - \<lfloor>- x + 1 / 2\<rfloor>)"

section \<open>Nodes\<close>

definition writeNode :: "vib_env \<Rightarrow> string \<Rightarrow> u32 \<Rightarrow> Vibrator \<Rightarrow> vib_status \<times> Vibrator" where
  "writeNode env path value v =
     (if \<not> open_ok env path then (VIB_UNKNOWN_ERROR, v)
      else if \<not> write_ok env path then (VIB_UNKNOWN_ERROR, v)
      else (VIB_OK, v\<lparr>vib_writes := vib_writes v @ [(path, show_u value @ [CHR 0x0A])]\<rparr>))"

definition nodeExists :: "vib_env \<Rightarrow> string \<Rightarrow> bool" where
  "nodeExists env path = open_ok env path"

definition Vibrator_new :: "vib_env \<Rightarrow> Vibrator" where
  "Vibrator_new env = \<lparr>mEnabled = False, mExternalControl = False,
     mIsTimedOutVibrator = nodeExists env VIBRATOR_TIMEOUT_PATH,
     mHasTimedOutIntensity = nodeExists env VIBRATOR_INTENSITY_PATH,
     mHasTimedOutEffect = nodeExists env VIBRATOR_CP_TRIGGER_PATH, vib_writes = [], scheduled = []\<rparr>"

section \<open>The interface\<close>

definition getCapabilities :: "Vibrator \<Rightarrow> vib_cap set" where
  "getCapabilities v =
     {CAP_ON_CALLBACK, CAP_PERFORM_CALLBACK, CAP_EXTERNAL_CONTROL}
     \<union> (if mHasTimedOutIntensity v then {CAP_AMPLITUDE_CONTROL, CAP_EXTERNAL_AMPLITUDE_CONTROL} else {})"

definition activate :: "vib_env \<Rightarrow> u32 \<Rightarrow> Vibrator \<Rightarrow> vib_status \<times> Vibrator" where
  "activate env timeoutMs v =
     (if \<not> mIsTimedOutVibrator v then (VIB_EX_UNSUPPORTED_OPERATION, v)
      else writeNode env VIBRATOR_TIMEOUT_PATH timeoutMs v)"

definition off :: "vib_env \<Rightarrow> Vibrator \<Rightarrow> vib_status \<times> Vibrator" where
  "off env v = activate env 0 v"

text \<open>A callback runs on its own thread after a sleep in microseconds.\<close>

definition schedule :: "nat option \<Rightarrow> u32 \<Rightarrow> Vibrator \<Rightarrow> Vibrator" where
  "schedule callback us v =
     (case callback of None \<Rightarrow> v | Some c \<Rightarrow> v\<lparr>scheduled := scheduled v @ [(c, us)]\<rparr>)"

text \<open>\<open>timeoutMs * 1000\<close> is a signed product: it is undefined when it overflows.\<close>

definition on :: "vib_env \<Rightarrow> int \<Rightarrow> nat option \<Rightarrow> Vibrator \<Rightarrow> (vib_status \<times> Vibrator) option" where
  "on env timeoutMs callback v =
     (let v = (if mHasTimedOutEffect v then snd (writeNode env VIBRATOR_CP_TRIGGER_PATH 0 v) else v);
          (status, v) = activate env (of_int timeoutMs) v
      in if callback \<noteq> None \<and> \<not> (- (2 ^ 31) \<le> timeoutMs * 1000 \<and> timeoutMs * 1000 < 2 ^ 31) then None
         else Some (status, schedule callback (of_int (timeoutMs * 1000)) v))"

fun strengthToAmplitude :: "EffectStrength \<Rightarrow> vib_status \<times> u8" where
  "strengthToAmplitude LIGHT = (VIB_OK, 64)"
| "strengthToAmplitude MEDIUM = (VIB_OK, 128)"
| "strengthToAmplitude STRONG = (VIB_OK, 255)"
| "strengthToAmplitude (OTHER_STRENGTH _) = (VIB_EX_UNSUPPORTED_OPERATION, 0)"

fun effectToMs :: "Effect \<Rightarrow> vib_status \<times> u32" where
  "effectToMs CLICK = (VIB_OK, 10)"
| "effectToMs DOUBLE_CLICK = (VIB_OK, 15)"
| "effectToMs TICK = (VIB_OK, 5)"
| "effectToMs TEXTURE_TICK = (VIB_OK, 5)"
| "effectToMs THUD = (VIB_OK, 5)"
| "effectToMs POP = (VIB_OK, 5)"
| "effectToMs HEAVY_CLICK = (VIB_OK, 10)"
| "effectToMs (OTHER_EFFECT _) = (VIB_EX_UNSUPPORTED_OPERATION, 0)"
| "effectToMs _ = (VIB_OK, 30000)"

definition setAmplitude :: "vib_env \<Rightarrow> rat \<Rightarrow> Vibrator \<Rightarrow> (vib_status \<times> Vibrator) option" where
  "setAmplitude env amplitude v =
     (if amplitude = 0 then Some (VIB_EX_ILLEGAL_ARGUMENT, v)
      else case lround (dbl_round (flt_round (flt_round (amplitude - 1) * of_int INTENSITY_MAX) / 254)) of
             None \<Rightarrow> None
           | Some r \<Rightarrow>
               let intensity = (of_int r :: u32);
                   intensity = (if intensity > of_int INTENSITY_MAX then of_int INTENSITY_MAX else intensity)
               in Some (if intensity = 0 then (VIB_EX_ILLEGAL_ARGUMENT, v)
                        else if mHasTimedOutIntensity v then writeNode env VIBRATOR_INTENSITY_PATH intensity v
                        else (VIB_OK, v)))"

text \<open>\<open>perform\<close>, with the duration it returns when it reaches its end.\<close>

definition perform ::
  "vib_env \<Rightarrow> Effect \<Rightarrow> EffectStrength \<Rightarrow> nat option \<Rightarrow> Vibrator \<Rightarrow> (vib_status \<times> u32 option \<times> Vibrator) option" where
  "perform env effect strength callback v =
     (let (status, amplitude) = strengthToAmplitude strength in
      if status \<noteq> VIB_OK then Some (status, None, v)
      else let v = snd (activate env 0 v) in
      case setAmplitude env (of_nat (unat amplitude)) v of
        None \<Rightarrow> None
      | Some (_, v) \<Rightarrow>
          let (status, ms, v) =
            (case (if mHasTimedOutEffect v then map_of CP_TRIGGER_EFFECTS effect else None) of
               Some trigger \<Rightarrow> (VIB_OK, 1000, snd (writeNode env VIBRATOR_CP_TRIGGER_PATH trigger v))
             | None \<Rightarrow>
                 let v = (if mHasTimedOutEffect v then snd (writeNode env VIBRATOR_CP_TRIGGER_PATH 0 v) else v);
                     (status, ms) = effectToMs effect
                 in (status, ms, v))
          in if status \<noteq> VIB_OK then Some (status, None, v)
             else let (status, v) = activate env ms v
                  in Some (status, Some ms, schedule callback (ms * 1000) v))"

definition getSupportedEffects :: "Effect list" where
  "getSupportedEffects =
     [CLICK, DOUBLE_CLICK, HEAVY_CLICK, TICK, TEXTURE_TICK, THUD, POP,
      RINGTONE_1, RINGTONE_2, RINGTONE_3, RINGTONE_4, RINGTONE_5, RINGTONE_6, RINGTONE_7, RINGTONE_7, RINGTONE_8,
      RINGTONE_9, RINGTONE_10, RINGTONE_11, RINGTONE_12, RINGTONE_13, RINGTONE_14, RINGTONE_15]"

definition setExternalControl :: "bool \<Rightarrow> Vibrator \<Rightarrow> vib_status \<times> Vibrator" where
  "setExternalControl enabled v =
     (if mEnabled v then (VIB_EX_UNSUPPORTED_OPERATION, v)
      else (VIB_OK, v\<lparr>mExternalControl := enabled\<rparr>))"

definition unsupported :: "unsupported_call \<Rightarrow> vib_status" where
  "unsupported c = VIB_EX_UNSUPPORTED_OPERATION"

section \<open>Specification\<close>

definition vib_node :: "string \<Rightarrow> Vibrator \<Rightarrow> string option" where
  "vib_node path v = map_of (rev (vib_writes v)) path"

text \<open>How long an effect lasts, on a driver with and without its own effects.\<close>

definition duration :: "bool \<Rightarrow> Effect \<Rightarrow> u32" where
  "duration has_effects effect =
     (if has_effects \<and> effect \<in> {CLICK, DOUBLE_CLICK, HEAVY_CLICK, TEXTURE_TICK, TICK} then 1000
      else snd (effectToMs effect))"

definition intensity_of :: "EffectStrength \<Rightarrow> u32" where
  "intensity_of strength = (case strength of LIGHT \<Rightarrow> 2480 | MEDIUM \<Rightarrow> 5000 | _ \<Rightarrow> 10000)"

text \<open>A vibrator whose nodes all work, with or without effects of the driver's own.\<close>

definition working :: "vib_env \<Rightarrow> Vibrator \<Rightarrow> bool" where
  "working env v =
     ((\<forall>p \<in> {VIBRATOR_TIMEOUT_PATH, VIBRATOR_INTENSITY_PATH, VIBRATOR_CP_TRIGGER_PATH}. open_ok env p \<and> write_ok env p)
      \<and> mIsTimedOutVibrator v \<and> mHasTimedOutIntensity v)"

definition put :: "string \<Rightarrow> u32 \<Rightarrow> Vibrator \<Rightarrow> Vibrator" where
  "put path value v = v\<lparr>vib_writes := vib_writes v @ [(path, show_u value @ [CHR 0x0A])]\<rparr>"

definition full_driver :: vib_env where
  "full_driver = \<lparr>open_ok = (\<lambda>_. True), write_ok = (\<lambda>_. True)\<rparr>"

section \<open>Rounding\<close>

lemma flt_round_0 [simp]: "flt_round 0 = 0"
  by (simp add: flt_round_def)

lemma flt_round_error: "\<bar>flt_round x - x\<bar> \<le> \<bar>x\<bar> / 2 ^ 24"
proof (cases "x = 0")
  case False
  let ?y = "x * 2 powi (23 - dexp x)" and ?u = "(2::rat) powi (dexp x - 23)"
  have one: "2 powi (23 - dexp x) * ?u = 1"
    by (simp flip: power_int_add)
  then have "flt_round x - x = (of_int (round_half_even ?y) - ?y) * ?u"
    using False by (simp add: flt_round_def algebra_simps)
  then have "\<bar>flt_round x - x\<bar> = \<bar>of_int (round_half_even ?y) - ?y\<bar> * ?u"
    by (simp add: abs_mult)
  also have "\<dots> \<le> 1 / 2 * ?u"
    by (intro mult_right_mono round_half_even_error) simp
  also have "\<dots> = 2 powi dexp x / 2 ^ 24"
    by (simp add: power_int_diff)
  also have "\<dots> \<le> \<bar>x\<bar> / 2 ^ 24"
    using dexp_bounds(1) [OF False] by (intro divide_right_mono) auto
  finally show ?thesis .
qed simp

lemma flt_round_neg: "x \<le> 0 \<Longrightarrow> 2 * x \<le> flt_round x \<and> flt_round x \<le> 0"
  using flt_round_error [of x] by (auto simp: abs_le_iff field_simps)

lemma dbl_round_neg: "x \<le> 0 \<Longrightarrow> 2 * x \<le> dbl_round x \<and> dbl_round x \<le> 0"
  using dbl_round_error [of x] by (auto simp: abs_le_iff field_simps)

lemma lround_0: "lround 0 = Some 0"
proof -
  have "\<lfloor>1 / 2 :: rat\<rfloor> = 0"
    by (intro floor_unique) simp_all
  then show ?thesis
    by (simp add: lround_def)
qed

lemma lround_near:
  assumes "\<bar>x - of_int n\<bar> < 1 / 2" "1 \<le> n"
  shows "lround x = chk64 n"
proof -
  have "of_int n \<le> x + 1 / 2" "x + 1 / 2 < of_int n + 1" "(1 :: rat) \<le> of_int n"
    using assms by linarith+
  then have "\<lfloor>x + 1 / 2\<rfloor> = n" "x \<ge> 0"
    by (auto intro: floor_unique)
  then show ?thesis
    by (simp add: lround_def)
qed

lemma lround_neg:
  assumes "- 1000 \<le> x" "x \<le> 0"
  shows "\<exists>r. lround x = Some r \<and> - 1001 \<le> r \<and> r \<le> 0"
proof -
  define r where "r = (if x \<ge> 0 then \<lfloor>x + 1 / 2\<rfloor> else - \<lfloor>- x + 1 / 2\<rfloor>)"
  have "- 1001 \<le> r" "r \<le> 0"
    using assms unfolding r_def by (auto simp: floor_le_iff le_floor_iff split: if_splits) 
  then show ?thesis
    by (auto simp: lround_def chk64_def simp flip: r_def)
qed

section \<open>Amplitudes\<close>

text \<open>The intensity before it is clamped, and how close it is to the exact quotient.\<close>

lemma amplitude_error:
  assumes "0 \<le> x" "x \<le> 254"
  shows "\<bar>dbl_round (flt_round (flt_round x * 10000) / 254) - x * 10000 / 254\<bar> \<le> 1 / 100"
proof -
  define y where "y = flt_round x"
  define z where "z = flt_round (y * 10000)"
  have y: "\<bar>y - x\<bar> \<le> 1 / 60000"
    using flt_round_error [of x] assms unfolding y_def by simp
  have "\<bar>y * 10000\<bar> \<le> 2550000"
    using y assms by linarith
  then have z: "\<bar>z - y * 10000\<bar> \<le> 1 / 6"
    using flt_round_error [of "y * 10000"] unfolding z_def by simp
  have "\<bar>z / 254\<bar> \<le> 20000"
    using z y assms by linarith
  then have "\<bar>dbl_round (z / 254) - z / 254\<bar> \<le> 1 / 1000"
    using dbl_round_error [of "z / 254"] by simp
  then show ?thesis
    using z y unfolding y_def [symmetric] z_def [symmetric] by linarith
qed

lemma setAmplitude_near:
  assumes "1 < a" "a \<le> 255" "\<bar>(a - 1) * 10000 / 254 - of_int n\<bar> < 49 / 100" "1 \<le> n" "n \<le> 10000" "mHasTimedOutIntensity v"
  shows "setAmplitude env a v = Some (writeNode env VIBRATOR_INTENSITY_PATH (of_int n) v)"
proof -
  have "\<bar>dbl_round (flt_round (flt_round (a - 1) * 10000) / 254) - of_int n\<bar> < 1 / 2"
    using amplitude_error [of "a - 1"] assms(1-3) by linarith
  then have r: "lround (dbl_round (flt_round (flt_round (a - 1) * 10000) / 254)) = Some n"
    using assms(4,5) by (simp add: lround_near chk64_def)
  have "unat (of_int n :: u32) = nat n"
    using assms(4,5) unat_of_nat [of "nat n", where ?'a = 32] by simp
  then have "(of_int n :: u32) \<noteq> 0" "\<not> (of_int n :: u32) > 10000"
    using assms(4,5) by (auto simp: word_less_nat_alt word_unat_eq_iff)
  then show ?thesis
    using assms(1,6) r by (simp add: setAmplitude_def INTENSITY_MAX_def)
qed

lemma setAmplitude_fraction:
  assumes "0 < a" "a \<le> 1" "mHasTimedOutIntensity v"
  shows "setAmplitude env a v \<in> {Some (VIB_EX_ILLEGAL_ARGUMENT, v), Some (writeNode env VIBRATOR_INTENSITY_PATH 10000 v)}"
proof -
  have "- 2 \<le> flt_round (a - 1)" "flt_round (a - 1) \<le> 0"
    using flt_round_neg [of "a - 1"] assms(1,2) by auto
  then have "- 40000 \<le> flt_round (flt_round (a - 1) * 10000)" "flt_round (flt_round (a - 1) * 10000) \<le> 0"
    using flt_round_neg [of "flt_round (a - 1) * 10000"] by auto
  then have "- 1000 \<le> dbl_round (flt_round (flt_round (a - 1) * 10000) / 254)"
      "dbl_round (flt_round (flt_round (a - 1) * 10000) / 254) \<le> 0"
    using dbl_round_neg [of "flt_round (flt_round (a - 1) * 10000) / 254"] by auto
  then obtain r where r: "lround (dbl_round (flt_round (flt_round (a - 1) * 10000) / 254)) = Some r" "- 1001 \<le> r" "r \<le> 0"
    using lround_neg by blast
  have "(of_int r :: u32) > 10000" if "r \<noteq> 0"
  proof -
    have "(r + 2 ^ 32) mod 2 ^ 32 = r + 2 ^ 32"
      using r(2,3) that by (intro mod_pos_pos_trivial) simp_all
    then have "r mod 2 ^ 32 = r + 2 ^ 32"
      by (simp only: mod_add_self2)
    then have "uint (of_int r :: u32) = r + 2 ^ 32"
      by (simp add: uint_word_of_int)
    then show ?thesis
      using r(2) by (simp add: word_less_def)
  qed
  then show ?thesis
    using assms r(1) by (cases "r = 0") (simp_all add: setAmplitude_def INTENSITY_MAX_def)
qed

section \<open>Performing effects\<close>

lemma paths_distinct [simp]:
  "VIBRATOR_TIMEOUT_PATH \<noteq> VIBRATOR_INTENSITY_PATH" "VIBRATOR_TIMEOUT_PATH \<noteq> VIBRATOR_CP_TRIGGER_PATH"
  "VIBRATOR_INTENSITY_PATH \<noteq> VIBRATOR_TIMEOUT_PATH" "VIBRATOR_INTENSITY_PATH \<noteq> VIBRATOR_CP_TRIGGER_PATH"
  by (simp_all add: VIBRATOR_TIMEOUT_PATH_def VIBRATOR_INTENSITY_PATH_def VIBRATOR_CP_TRIGGER_PATH_def)

lemma put_sel [simp]:
  "mIsTimedOutVibrator (put p x v) = mIsTimedOutVibrator v" "mHasTimedOutIntensity (put p x v) = mHasTimedOutIntensity v"
  "mHasTimedOutEffect (put p x v) = mHasTimedOutEffect v" "scheduled (put p x v) = scheduled v"
  "vib_node q (put p x v) = (if q = p then Some (show_u x @ [CHR 0x0A]) else vib_node q v)"
  by (simp_all add: put_def vib_node_def)

lemma working_put [simp]: "working env (put p x v) = working env v"
  by (simp add: working_def)

lemma schedule_sel [simp]:
  "vib_node q (schedule cb us v) = vib_node q v"
  "scheduled (schedule cb us v) = scheduled v @ (case cb of None \<Rightarrow> [] | Some c \<Rightarrow> [(c, us)])"
  by (simp_all add: schedule_def vib_node_def split: option.split)

lemma writeNode_working:
  "working env v \<Longrightarrow> p \<in> {VIBRATOR_TIMEOUT_PATH, VIBRATOR_INTENSITY_PATH, VIBRATOR_CP_TRIGGER_PATH} \<Longrightarrow>
    writeNode env p x v = (VIB_OK, put p x v)"
  by (auto simp: working_def writeNode_def put_def)

lemma activate_working: "working env v \<Longrightarrow> activate env ms v = (VIB_OK, put VIBRATOR_TIMEOUT_PATH ms v)"
  using writeNode_working [of env v] by (simp add: activate_def working_def)

lemma strength_working:
  assumes "working env v" "strength \<in> {LIGHT, MEDIUM, STRONG}"
  shows "setAmplitude env (of_nat (unat (snd (strengthToAmplitude strength)))) v =
    Some (VIB_OK, put VIBRATOR_INTENSITY_PATH (intensity_of strength) v)"
proof -
  have v: "mHasTimedOutIntensity v"
    using assms(1) by (simp add: working_def)
  have "setAmplitude env 64 v = Some (writeNode env VIBRATOR_INTENSITY_PATH (of_int 2480) v)"
      "setAmplitude env 128 v = Some (writeNode env VIBRATOR_INTENSITY_PATH (of_int 5000) v)"
      "setAmplitude env 255 v = Some (writeNode env VIBRATOR_INTENSITY_PATH (of_int 10000) v)"
    by (rule setAmplitude_near; simp add: v)+
  then show ?thesis
    using assms by (auto simp: intensity_of_def writeNode_working)
qed

lemma supported_iff: "effect \<in> set getSupportedEffects \<longleftrightarrow> fst (effectToMs effect) = VIB_OK"
  by (cases effect) (simp_all add: getSupportedEffects_def)

lemma trigger_iff:
  "map_of CP_TRIGGER_EFFECTS effect \<noteq> None \<longleftrightarrow> effect \<in> {CLICK, DOUBLE_CLICK, HEAVY_CLICK, TEXTURE_TICK, TICK}"
  by (cases effect) (simp_all add: CP_TRIGGER_EFFECTS_def)

lemma perform_working:
  assumes v: "working env v" and s: "strength \<in> {LIGHT, MEDIUM, STRONG}"
  shows "\<exists>w. vib_node VIBRATOR_TIMEOUT_PATH w = Some (show_u 0 @ [CHR 0x0A])
    \<and> vib_node VIBRATOR_INTENSITY_PATH w = Some (show_u (intensity_of strength) @ [CHR 0x0A])
    \<and> scheduled w = scheduled v \<and>
    perform env effect strength callback v =
      Some (if effect \<in> set getSupportedEffects
            then (VIB_OK, Some (duration (mHasTimedOutEffect v) effect),
                  schedule callback (duration (mHasTimedOutEffect v) effect * 1000)
                    (put VIBRATOR_TIMEOUT_PATH (duration (mHasTimedOutEffect v) effect) w))
            else (VIB_EX_UNSUPPORTED_OPERATION, None, w))"
proof -
  define u where "u = put VIBRATOR_INTENSITY_PATH (intensity_of strength) (put VIBRATOR_TIMEOUT_PATH 0 v)"
  have u: "working env u" "mHasTimedOutEffect u = mHasTimedOutEffect v" "scheduled u = scheduled v"
      "vib_node VIBRATOR_TIMEOUT_PATH u = Some (show_u 0 @ [CHR 0x0A])"
      "vib_node VIBRATOR_INTENSITY_PATH u = Some (show_u (intensity_of strength) @ [CHR 0x0A])"
    using v by (simp_all add: u_def)
  have ok: "fst (strengthToAmplitude strength) = VIB_OK"
    using s by auto
  have amp: "setAmplitude env (of_nat (unat (snd (strengthToAmplitude strength)))) (put VIBRATOR_TIMEOUT_PATH 0 v)
      = Some (VIB_OK, u)"
    using strength_working [OF _ s, of env "put VIBRATOR_TIMEOUT_PATH 0 v"] v by (simp add: u_def)
  define t where "t = (if mHasTimedOutEffect v then map_of CP_TRIGGER_EFFECTS effect else None)"
  define w where "w = (case t of Some x \<Rightarrow> put VIBRATOR_CP_TRIGGER_PATH x u
    | None \<Rightarrow> if mHasTimedOutEffect v then put VIBRATOR_CP_TRIGGER_PATH 0 u else u)"
  have w: "working env w" "scheduled w = scheduled v" "vib_node VIBRATOR_TIMEOUT_PATH w = vib_node VIBRATOR_TIMEOUT_PATH u"
      "vib_node VIBRATOR_INTENSITY_PATH w = vib_node VIBRATOR_INTENSITY_PATH u"
    using u by (simp_all add: w_def split: option.split)
  have dur: "duration (mHasTimedOutEffect v) effect = (case t of Some x \<Rightarrow> 1000 | None \<Rightarrow> snd (effectToMs effect))"
    using trigger_iff [of effect] by (auto simp: duration_def t_def split: option.split)
  have sup: "effect \<in> set getSupportedEffects" if "t = Some x" for x
    using trigger_iff [of effect] that by (auto simp: t_def getSupportedEffects_def split: if_splits)
  have unsup: "fst (effectToMs effect) \<in> {VIB_OK, VIB_EX_UNSUPPORTED_OPERATION}"
    by (cases effect) simp_all
  show ?thesis
    using u w v ok amp dur sup unsup
    by (intro exI [of _ w])
      (auto simp: perform_def case_prod_unfold Let_def activate_working writeNode_working supported_iff
        t_def [symmetric] w_def split: option.split)
qed

section \<open>Properties\<close>

text \<open>
  C35. On a vibrator whose nodes work, \<open>perform\<close> succeeds exactly for the effects that
  \<open>getSupportedEffects\<close> lists and the three strengths. Then the driver is left with the duration that is
  returned and the intensity of the strength, and the callback is scheduled for that duration. Otherwise
  nothing is scheduled and no duration is returned.
\<close>

theorem perform_supported:
  assumes "working env v"
  shows "\<exists>st ms w. perform env effect strength callback v = Some (st, ms, w)
    \<and> (st = VIB_OK \<longleftrightarrow> effect \<in> set getSupportedEffects \<and> strength \<in> {LIGHT, MEDIUM, STRONG})
    \<and> (if st = VIB_OK
       then ms = Some (duration (mHasTimedOutEffect v) effect)
         \<and> vib_node VIBRATOR_TIMEOUT_PATH w = Some (show_u (duration (mHasTimedOutEffect v) effect) @ [CHR 0x0A])
         \<and> vib_node VIBRATOR_INTENSITY_PATH w = Some (show_u (intensity_of strength) @ [CHR 0x0A])
         \<and> scheduled w = scheduled v @
             (case callback of None \<Rightarrow> [] | Some c \<Rightarrow> [(c, duration (mHasTimedOutEffect v) effect * 1000)])
       else ms = None \<and> scheduled w = scheduled v)"
proof (cases "strength \<in> {LIGHT, MEDIUM, STRONG}")
  case True
  obtain w where "vib_node VIBRATOR_INTENSITY_PATH w = Some (show_u (intensity_of strength) @ [CHR 0x0A])"
    "scheduled w = scheduled v"
    "perform env effect strength callback v =
      Some (if effect \<in> set getSupportedEffects
            then (VIB_OK, Some (duration (mHasTimedOutEffect v) effect),
                  schedule callback (duration (mHasTimedOutEffect v) effect * 1000)
                    (put VIBRATOR_TIMEOUT_PATH (duration (mHasTimedOutEffect v) effect) w))
            else (VIB_EX_UNSUPPORTED_OPERATION, None, w))"
    using perform_working [OF assms True] by blast
  then show ?thesis
    using True by (cases "effect \<in> set getSupportedEffects") simp_all
next
  case False
  then obtain n where "strength = OTHER_STRENGTH n"
    by (cases strength) simp_all
  then show ?thesis
    by (simp add: perform_def)
qed

theorem perform_supported_witness:
  "\<exists>w. perform full_driver CLICK LIGHT (Some 7) (Vibrator_new full_driver) = Some (VIB_OK, Some 1000, w)
     \<and> scheduled w = [(7, 1000000)]"
proof -
  have v: "working full_driver (Vibrator_new full_driver)"
    by (simp add: working_def full_driver_def Vibrator_new_def nodeExists_def)
  have d: "duration (mHasTimedOutEffect (Vibrator_new full_driver)) CLICK = 1000"
      "scheduled (Vibrator_new full_driver) = []" "CLICK \<in> set getSupportedEffects"
    by (simp_all add: duration_def full_driver_def Vibrator_new_def nodeExists_def getSupportedEffects_def)
  show ?thesis
    using perform_supported [OF v, of CLICK LIGHT "Some 7"] unfolding d by (auto simp: d)
qed

text \<open>
  An amplitude above 0 and up to 1 never sets a matching intensity: it is either refused as an illegal
  argument or the driver gets its maximal intensity. The rounded quotient is negative or zero; stored in an
  unsigned variable a negative one is above the maximum and is clamped to it. The amplitude 1 is refused.
\<close>

lemma fraction_amplitude:
  assumes "0 < a" "a \<le> 1" "working env v"
  shows "setAmplitude env a v \<in>
      {Some (VIB_EX_ILLEGAL_ARGUMENT, v), Some (VIB_OK, put VIBRATOR_INTENSITY_PATH 10000 v)}
    \<and> setAmplitude env 1 v = Some (VIB_EX_ILLEGAL_ARGUMENT, v)"
proof
  have "mHasTimedOutIntensity v"
    using assms(3) by (simp add: working_def)
  then show "setAmplitude env a v \<in>
      {Some (VIB_EX_ILLEGAL_ARGUMENT, v), Some (VIB_OK, put VIBRATOR_INTENSITY_PATH 10000 v)}"
    using setAmplitude_fraction [OF assms(1,2), of v env] writeNode_working [OF assms(3)] by simp
  show "setAmplitude env 1 v = Some (VIB_EX_ILLEGAL_ARGUMENT, v)"
    by (simp add: setAmplitude_def lround_0 INTENSITY_MAX_def)
qed

end
