(* ===== verification/Sensors.thy ===== *)
theory Sensors
  imports Prelude
begin

text \<open>
  The sensors service, \<open>src/aidl/sensors\<close>: the conversion of events between the HIDL and the AIDL interface
  (\<open>ConvertUtils.cpp\<close>), the message queue wrapper, and the AIDL front of the multi-HAL proxy
  (\<open>HalProxyAidl.cpp\<close>). A \<open>float\<close> is its 32 bits, as the code only copies it. The casts between the enumerations
  of the two interfaces keep the number, so that one type stands for both; the numbers that the code compares
  with are arguments. The union of the HIDL event is the member written last: reading another one is \<open>None\<close>, as
  is reading an AIDL payload with another tag and a failed check. The base class \<open>HalProxy\<close>, the message queue
  and the contents of memory that was not written are arguments.
\<close>

section \<open>Events\<close>

datatype SensorType =
    META_DATA | ACCELEROMETER | MAGNETIC_FIELD | ORIENTATION | GYROSCOPE | GRAVITY | LINEAR_ACCELERATION
  | GAME_ROTATION_VECTOR | ROTATION_VECTOR | GEOMAGNETIC_ROTATION_VECTOR
  | ACCELEROMETER_UNCALIBRATED | MAGNETIC_FIELD_UNCALIBRATED | GYROSCOPE_UNCALIBRATED
  | DEVICE_ORIENTATION | LIGHT | PRESSURE | PROXIMITY | RELATIVE_HUMIDITY | AMBIENT_TEMPERATURE
  | SIGNIFICANT_MOTION | STEP_DETECTOR | TILT_DETECTOR | WAKE_GESTURE | GLANCE_GESTURE | PICK_UP_GESTURE
  | WRIST_TILT_GESTURE | STATIONARY_DETECT | MOTION_DETECT | HEART_BEAT | LOW_LATENCY_OFFBODY_DETECT | HINGE_ANGLE
  | STEP_COUNTER | HEART_RATE | POSE_6DOF | DYNAMIC_SENSOR_META | ADDITIONAL_INFO | HEAD_TRACKER
  | OTHER_TYPE int

datatype additional_payload = dataInt32 "u32 list" | dataFloat "u32 list" | otherTag int

datatype aidl_payload =
    P_meta int
  | P_vec3 u32 u32 u32 int
  | P_vec4 u32 u32 u32 u32
  | P_uncal u32 u32 u32 u32 u32 u32
  | P_scalar u32
  | P_stepCount u64
  | P_heartRate u32 int
  | P_pose6DOF "u32 list"
  | P_dynamic bool int "u8 list"
  | P_additional int int additional_payload
  | P_data "u32 list"
  | P_headTracker u32 u32 u32 u32 u32 u32 u32

datatype hidl_union =
    U_meta int
  | U_vec3 u32 u32 u32 int
  | U_vec4 u32 u32 u32 u32
  | U_uncal u32 u32 u32 u32 u32 u32
  | U_scalar u32
  | U_stepCount u64
  | U_heartRate u32 int
  | U_pose6DOF "u32 list"
  | U_dynamic bool int "u8 list"
  | U_additional int int "u32 list"
  | U_data "u32 list"

record AidlEvent =
  a_timestamp :: int
  a_sensorHandle :: int
  a_sensorType :: SensorType
  a_payload :: aidl_payload

record HidlEvent =
  h_timestamp :: int
  h_sensorHandle :: int
  h_sensorType :: SensorType
  h_u :: hidl_union

text \<open>
  What memory holds that was not written: the data words and the additional-info words behind another member
  of the union, and the values of a fresh \<open>Data\<close>; and the first number of the private types.
\<close>

record conv_env =
  data_behind :: "hidl_union \<Rightarrow> u32 list"
  info_behind :: "hidl_union \<Rightarrow> u32 list"
  fresh_values :: "u32 list"
  DEVICE_PRIVATE_BASE :: int

definition vec3_types :: "SensorType list" where
  "vec3_types = [ACCELEROMETER, MAGNETIC_FIELD, ORIENTATION, GYROSCOPE, GRAVITY, LINEAR_ACCELERATION]"

definition rotation_types :: "SensorType list" where
  "rotation_types = [ROTATION_VECTOR, GEOMAGNETIC_ROTATION_VECTOR]"

definition uncal_types :: "SensorType list" where
  "uncal_types = [ACCELEROMETER_UNCALIBRATED, MAGNETIC_FIELD_UNCALIBRATED, GYROSCOPE_UNCALIBRATED]"

definition scalar_types :: "SensorType list" where
  "scalar_types = [DEVICE_ORIENTATION, LIGHT, PRESSURE, PROXIMITY, RELATIVE_HUMIDITY, AMBIENT_TEMPERATURE,
     SIGNIFICANT_MOTION, STEP_DETECTOR, TILT_DETECTOR, WAKE_GESTURE, GLANCE_GESTURE, PICK_UP_GESTURE,
     WRIST_TILT_GESTURE, STATIONARY_DETECT, MOTION_DETECT, HEART_BEAT, LOW_LATENCY_OFFBODY_DETECT, HINGE_ANGLE]"

fun private_type :: "conv_env \<Rightarrow> SensorType \<Rightarrow> bool" where
  "private_type ce (OTHER_TYPE n) = (n \<ge> DEVICE_PRIVATE_BASE ce)"
| "private_type ce _ = False"

fun data_words :: "conv_env \<Rightarrow> hidl_union \<Rightarrow> u32 list" where
  "data_words ce (U_data ws) = ws"
| "data_words ce u = data_behind ce u"

fun info_words :: "conv_env \<Rightarrow> hidl_union \<Rightarrow> u32 list" where
  "info_words ce (U_additional _ _ ws) = ws"
| "info_words ce u = info_behind ce u"

section \<open>Conversion of events\<close>

definition hidl_payload :: "conv_env \<Rightarrow> SensorType \<Rightarrow> aidl_payload \<Rightarrow> hidl_union \<Rightarrow> hidl_union option" where
  "hidl_payload ce t p u =
     (if t = META_DATA then (case p of P_meta what \<Rightarrow> Some (U_meta what) | _ \<Rightarrow> None)
      else if t \<in> set vec3_types then (case p of P_vec3 x y z status \<Rightarrow> Some (U_vec3 x y z status) | _ \<Rightarrow> None)
      else if t = GAME_ROTATION_VECTOR then (case p of P_vec4 x y z w \<Rightarrow> Some (U_vec4 x y z w) | _ \<Rightarrow> None)
      else if t \<in> set rotation_types
      then (case p of P_data values \<Rightarrow> Some (U_data (take 5 values @ drop 5 (data_words ce u))) | _ \<Rightarrow> None)
      else if t \<in> set uncal_types
      then (case p of P_uncal x y z xb yb zb \<Rightarrow> Some (U_uncal x y z xb yb zb) | _ \<Rightarrow> None)
      else if t \<in> set scalar_types then (case p of P_scalar s \<Rightarrow> Some (U_scalar s) | _ \<Rightarrow> None)
      else if t = STEP_COUNTER then (case p of P_stepCount n \<Rightarrow> Some (U_stepCount n) | _ \<Rightarrow> None)
      else if t = HEART_RATE then (case p of P_heartRate bpm status \<Rightarrow> Some (U_heartRate bpm status) | _ \<Rightarrow> None)
      else if t = POSE_6DOF then (case p of P_pose6DOF values \<Rightarrow> Some (U_pose6DOF values) | _ \<Rightarrow> None)
      else if t = DYNAMIC_SENSOR_META
      then (case p of P_dynamic conn handle uuid \<Rightarrow> Some (U_dynamic conn handle uuid) | _ \<Rightarrow> None)
      else if t = ADDITIONAL_INFO
      then (case p of P_additional type serial q \<Rightarrow>
              Some (U_additional type serial
                (case q of dataInt32 ws \<Rightarrow> ws | dataFloat ws \<Rightarrow> ws | otherTag _ \<Rightarrow> info_words ce u)) | _ \<Rightarrow> None)
      else if t = HEAD_TRACKER
      then (case p of P_headTracker rx ry rz vx vy vz discontinuityCount \<Rightarrow>
              Some (U_data ([rx, ry, rz, vx, vy, vz, discontinuityCount] @ drop 7 (data_words ce u))) | _ \<Rightarrow> None)
      else if \<not> private_type ce t then None
      else (case p of P_data values \<Rightarrow> Some (U_data values) | _ \<Rightarrow> None))"

definition convertToHidlEvent :: "conv_env \<Rightarrow> AidlEvent \<Rightarrow> HidlEvent \<Rightarrow> HidlEvent option" where
  "convertToHidlEvent ce a h =
     map_option (\<lambda>u. \<lparr>h_timestamp = a_timestamp a, h_sensorHandle = a_sensorHandle a,
                     h_sensorType = a_sensorType a, h_u = u\<rparr>)
       (hidl_payload ce (a_sensorType a) (a_payload a) (h_u h))"

definition aidl_payload_of :: "conv_env \<Rightarrow> SensorType \<Rightarrow> hidl_union \<Rightarrow> aidl_payload option" where
  "aidl_payload_of ce t u =
     (if t = META_DATA then (case u of U_meta what \<Rightarrow> Some (P_meta what) | _ \<Rightarrow> None)
      else if t \<in> set vec3_types then (case u of U_vec3 x y z status \<Rightarrow> Some (P_vec3 x y z status) | _ \<Rightarrow> None)
      else if t = GAME_ROTATION_VECTOR then (case u of U_vec4 x y z w \<Rightarrow> Some (P_vec4 x y z w) | _ \<Rightarrow> None)
      else if t \<in> set rotation_types
      then (case u of U_data ws \<Rightarrow> Some (P_data (take 5 ws @ drop 5 (fresh_values ce))) | _ \<Rightarrow> None)
      else if t \<in> set uncal_types
      then (case u of U_uncal x y z xb yb zb \<Rightarrow> Some (P_uncal x y z xb yb zb) | _ \<Rightarrow> None)
      else if t \<in> set scalar_types then (case u of U_scalar s \<Rightarrow> Some (P_scalar s) | _ \<Rightarrow> None)
      else if t = STEP_COUNTER then (case u of U_stepCount n \<Rightarrow> Some (P_stepCount n) | _ \<Rightarrow> None)
      else if t = HEART_RATE then (case u of U_heartRate bpm status \<Rightarrow> Some (P_heartRate bpm status) | _ \<Rightarrow> None)
      else if t = POSE_6DOF then (case u of U_pose6DOF values \<Rightarrow> Some (P_pose6DOF values) | _ \<Rightarrow> None)
      else if t = DYNAMIC_SENSOR_META
      then (case u of U_dynamic conn handle uuid \<Rightarrow> Some (P_dynamic conn handle uuid) | _ \<Rightarrow> None)
      else if t = ADDITIONAL_INFO
      then (case u of U_additional type serial ws \<Rightarrow> Some (P_additional type serial (dataInt32 ws)) | _ \<Rightarrow> None)
      else if t = HEAD_TRACKER
      then (case u of U_data ws \<Rightarrow>
              Some (P_headTracker (ws ! 0) (ws ! 1) (ws ! 2) (ws ! 3) (ws ! 4) (ws ! 5) (ws ! 6)) | _ \<Rightarrow> None)
      else if \<not> private_type ce t then None
      else (case u of U_data ws \<Rightarrow> Some (P_data ws) | _ \<Rightarrow> None))"

definition convertToAidlEvent :: "conv_env \<Rightarrow> HidlEvent \<Rightarrow> AidlEvent option" where
  "convertToAidlEvent ce h =
     map_option (\<lambda>p. \<lparr>a_timestamp = h_timestamp h, a_sensorHandle = h_sensorHandle h,
                     a_sensorType = h_sensorType h, a_payload = p\<rparr>)
       (aidl_payload_of ce (h_sensorType h) (h_u h))"

section \<open>The event queue\<close>

text \<open>
  The wrapper of the event queue and its buffer of fixed length. The queue is an argument: reading gives
  whether it succeeded, the buffer and the queue after it. A buffer index out of range is \<open>None\<close>.
\<close>

record 'q event_queue =
  mQueue :: 'q
  mIntermediateEventBuffer :: "AidlEvent list"

fun convert_into :: "conv_env \<Rightarrow> nat \<Rightarrow> HidlEvent list \<Rightarrow> AidlEvent list \<Rightarrow> AidlEvent list option" where
  "convert_into ce i [] buf = Some buf"
| "convert_into ce i (h # hs) buf =
     (if i \<ge> length buf then None
      else case convertToAidlEvent ce h of None \<Rightarrow> None
           | Some a \<Rightarrow> convert_into ce (Suc i) hs (buf[i := a]))"

definition queue_write ::
  "conv_env \<Rightarrow> (AidlEvent list \<Rightarrow> 'q \<Rightarrow> bool \<times> 'q) \<Rightarrow> HidlEvent list \<Rightarrow> 'q event_queue \<Rightarrow> (bool \<times> 'q event_queue) option" where
  "queue_write ce mq_write events eq =
     map_option (\<lambda>buf. let (ok, q) = mq_write (take (length events) buf) (mQueue eq)
                       in (ok, \<lparr>mQueue = q, mIntermediateEventBuffer = buf\<rparr>))
       (convert_into ce 0 events (mIntermediateEventBuffer eq))"

text \<open>The blocking write has the two notification bits, the time-out and the event flag as further arguments.\<close>

definition queue_writeBlocking ::
  "conv_env \<Rightarrow> (AidlEvent list \<Rightarrow> u32 \<Rightarrow> u32 \<Rightarrow> int \<Rightarrow> 'f \<Rightarrow> 'q \<Rightarrow> bool \<times> 'q) \<Rightarrow> HidlEvent list \<Rightarrow> u32 \<Rightarrow> u32 \<Rightarrow> int \<Rightarrow> 'f
    \<Rightarrow> 'q event_queue \<Rightarrow> (bool \<times> 'q event_queue) option" where
  "queue_writeBlocking ce mq_writeBlocking events readNotification writeNotification timeOutNanos evFlag eq =
     (case convert_into ce 0 events (mIntermediateEventBuffer eq) of None \<Rightarrow> None
      | Some buf \<Rightarrow>
          let (ok, q) = mq_writeBlocking (take (length events) buf) readNotification writeNotification timeOutNanos evFlag
                          (mQueue eq)
          in Some (ok, \<lparr>mQueue = q, mIntermediateEventBuffer = buf\<rparr>))"

definition queue_availableToRead :: "('q \<Rightarrow> nat) \<Rightarrow> 'q event_queue \<Rightarrow> nat" where
  "queue_availableToRead mq_availableToRead eq = mq_availableToRead (mQueue eq)"

definition queue_availableToWrite :: "('q \<Rightarrow> nat) \<Rightarrow> 'q event_queue \<Rightarrow> nat" where
  "queue_availableToWrite mq_availableToWrite eq = mq_availableToWrite (mQueue eq)"

definition queue_getQuantumCount :: "('q \<Rightarrow> nat) \<Rightarrow> 'q event_queue \<Rightarrow> nat" where
  "queue_getQuantumCount mq_getQuantumCount eq = mq_getQuantumCount (mQueue eq)"

fun convert_out :: "conv_env \<Rightarrow> AidlEvent list \<Rightarrow> HidlEvent list \<Rightarrow> HidlEvent list option" where
  "convert_out ce [] hs = Some hs"
| "convert_out ce (a # as) [] = None"
| "convert_out ce (a # as) (h # hs) =
     (case convertToHidlEvent ce a h of None \<Rightarrow> None
      | Some h' \<Rightarrow> map_option ((#) h') (convert_out ce as hs))"

text \<open>The events are converted whether or not the read succeeded.\<close>

definition queue_read ::
  "conv_env \<Rightarrow> (nat \<Rightarrow> AidlEvent list \<Rightarrow> 'q \<Rightarrow> bool \<times> AidlEvent list \<times> 'q) \<Rightarrow> HidlEvent list \<Rightarrow> nat \<Rightarrow> 'q event_queue
    \<Rightarrow> (bool \<times> HidlEvent list \<times> 'q event_queue) option" where
  "queue_read ce mq_read events numToRead eq =
     (if numToRead > length (mIntermediateEventBuffer eq) then None
      else let (success, buf, q) = mq_read numToRead (mIntermediateEventBuffer eq) (mQueue eq)
           in map_option (\<lambda>hs. (success, hs, \<lparr>mQueue = q, mIntermediateEventBuffer = buf\<rparr>))
                (convert_out ce (take numToRead buf) events))"

section \<open>The wake lock queue\<close>

text \<open>The words are read and written as they are: the cast between signed and unsigned words keeps the bits.\<close>

record 'w wakelock_queue =
  wl_mQueue :: 'w

definition wakelock_readBlocking ::
  "(nat \<Rightarrow> u32 \<Rightarrow> u32 \<Rightarrow> int \<Rightarrow> 'f \<Rightarrow> 'w \<Rightarrow> bool \<times> u32 list \<times> 'w) \<Rightarrow> nat \<Rightarrow> u32 \<Rightarrow> u32 \<Rightarrow> int \<Rightarrow> 'f
    \<Rightarrow> 'w wakelock_queue \<Rightarrow> bool \<times> u32 list \<times> 'w wakelock_queue" where
  "wakelock_readBlocking mq_readBlocking numToRead readNotification writeNotification timeOutNanos evFlag wq =
     (let (ok, words, q) = mq_readBlocking numToRead readNotification writeNotification timeOutNanos evFlag (wl_mQueue wq)
      in (ok, words, wq\<lparr>wl_mQueue := q\<rparr>))"

definition wakelock_write :: "(u32 \<Rightarrow> 'w \<Rightarrow> bool \<times> 'w) \<Rightarrow> u32 \<Rightarrow> 'w wakelock_queue \<Rightarrow> bool \<times> 'w wakelock_queue" where
  "wakelock_write mq_write wakeLock wq = (let (ok, q) = mq_write wakeLock (wl_mQueue wq) in (ok, wq\<lparr>wl_mQueue := q\<rparr>))"

section \<open>The proxy\<close>

record SensorInfo =
  sensorHandle :: int
  si_name :: string
  vendor :: string
  version :: int
  si_type :: SensorType
  typeAsString :: string
  maxRange :: u32
  resolution :: u32
  power_mA :: u32
  minDelay :: int
  fifoReservedEventCount :: u32
  fifoMaxEventCount :: u32
  requiredPermission :: string
  maxDelay :: int
  si_flags :: u32

record AidlSensorInfo =
  ai_sensorHandle :: int
  ai_name :: string
  ai_vendor :: string
  ai_version :: int
  ai_type :: SensorType
  ai_typeAsString :: string
  ai_maxRange :: u32
  ai_resolution :: u32
  ai_power :: u32
  ai_minDelayUs :: int
  ai_fifoReservedEventCount :: u32
  ai_fifoMaxEventCount :: u32
  ai_requiredPermission :: string
  ai_maxDelayUs :: int
  ai_flags :: u32

definition convertSensorInfo :: "SensorInfo \<Rightarrow> AidlSensorInfo" where
  "convertSensorInfo s = \<lparr>ai_sensorHandle = sensorHandle s, ai_name = si_name s, ai_vendor = vendor s,
     ai_version = version s, ai_type = si_type s, ai_typeAsString = typeAsString s, ai_maxRange = maxRange s,
     ai_resolution = resolution s, ai_power = power_mA s, ai_minDelayUs = minDelay s,
     ai_fifoReservedEventCount = fifoReservedEventCount s, ai_fifoMaxEventCount = fifoMaxEventCount s,
     ai_requiredPermission = requiredPermission s, ai_maxDelayUs = maxDelay s, ai_flags = si_flags s\<rparr>"

definition convertToAidlSensorInfos :: "SensorInfo list \<Rightarrow> AidlSensorInfo list" where
  "convertToAidlSensorInfos sensorInfos = map convertSensorInfo sensorInfos"

text \<open>
  The callback wrapper. A callback object is a pair of functions on the state of the client; the status they
  return is dropped.
\<close>

record 'c ISensorsCallback =
  cb_connected :: "AidlSensorInfo list \<Rightarrow> 'c \<Rightarrow> 'c"
  cb_disconnected :: "int list \<Rightarrow> 'c \<Rightarrow> 'c"

record 'c callback_wrapper =
  mSensorsCallback :: "'c ISensorsCallback"

definition onDynamicSensorsConnected :: "'c callback_wrapper \<Rightarrow> SensorInfo list \<Rightarrow> 'c \<Rightarrow> 'c" where
  "onDynamicSensorsConnected w sensorInfos c = cb_connected (mSensorsCallback w) (convertToAidlSensorInfos sensorInfos) c"

definition onDynamicSensorsDisconnected :: "'c callback_wrapper \<Rightarrow> int list \<Rightarrow> 'c \<Rightarrow> 'c" where
  "onDynamicSensorsDisconnected w sensorHandles c = cb_disconnected (mSensorsCallback w) sensorHandles c"

datatype Result = RES_OK | PERMISSION_DENIED | NO_MEMORY | BAD_VALUE | INVALID_OPERATION | RES_OTHER int

datatype sensors_status =
    SENSORS_OK | EX_SECURITY | ERROR_NO_MEMORY | EX_ILLEGAL_ARGUMENT | EX_UNSUPPORTED_OPERATION
  | EX_TRANSACTION_FAILED

fun resultToAStatus :: "Result \<Rightarrow> sensors_status" where
  "resultToAStatus RES_OK = SENSORS_OK"
| "resultToAStatus PERMISSION_DENIED = EX_SECURITY"
| "resultToAStatus NO_MEMORY = ERROR_NO_MEMORY"
| "resultToAStatus BAD_VALUE = EX_ILLEGAL_ARGUMENT"
| "resultToAStatus INVALID_OPERATION = EX_UNSUPPORTED_OPERATION"
| "resultToAStatus (RES_OTHER _) = EX_TRANSACTION_FAILED"

text \<open>A value outside of the enumeration runs into \<open>assert(false)\<close>, and behind it off the function's end.\<close>

datatype RateLevel = RATE_STOP | RATE_NORMAL | RATE_FAST | RATE_VERY_FAST | RATE_OTHER int
datatype OperationMode = MODE_NORMAL | MODE_DATA_INJECTION | MODE_OTHER int
datatype SharedMemType = ASHMEM | GRALLOC | MEMTYPE_OTHER int
datatype SharedMemFormat = SENSORS_EVENT | FORMAT_OTHER int

fun convertRateLevel :: "RateLevel \<Rightarrow> RateLevel option" where
  "convertRateLevel (RATE_OTHER _) = None"
| "convertRateLevel r = Some r"

fun convertOperationMode :: "OperationMode \<Rightarrow> OperationMode option" where
  "convertOperationMode (MODE_OTHER _) = None"
| "convertOperationMode m = Some m"

fun convertSharedMemType :: "SharedMemType \<Rightarrow> SharedMemType option" where
  "convertSharedMemType (MEMTYPE_OTHER _) = None"
| "convertSharedMemType t = Some t"

fun convertSharedMemFormat :: "SharedMemFormat \<Rightarrow> SharedMemFormat option" where
  "convertSharedMemFormat (FORMAT_OTHER _) = None"
| "convertSharedMemFormat f = Some f"

record SharedMemInfo =
  mem_type :: SharedMemType
  mem_format :: SharedMemFormat
  mem_size :: u32
  memoryHandle :: int

definition convertSharedMemInfo :: "SharedMemInfo \<Rightarrow> SharedMemInfo option" where
  "convertSharedMemInfo m =
     (case (convertSharedMemType (mem_type m), convertSharedMemFormat (mem_format m)) of
        (Some t, Some f) \<Rightarrow> Some \<lparr>mem_type = t, mem_format = f, mem_size = mem_size m, memoryHandle = memoryHandle m\<rparr>
      | _ \<Rightarrow> None)"

text \<open>
  The operations of \<open>HalProxy\<close> on its state. The two direct-channel operations hand their result to a callback,
  which they may leave out.
\<close>

record ('s, 'e) HalProxy =
  hp_activate :: "int \<Rightarrow> bool \<Rightarrow> 's \<Rightarrow> Result \<times> 's"
  hp_batch :: "int \<Rightarrow> int \<Rightarrow> int \<Rightarrow> 's \<Rightarrow> Result \<times> 's"
  hp_configDirectReport :: "int \<Rightarrow> int \<Rightarrow> RateLevel \<Rightarrow> 's \<Rightarrow> (Result \<times> int) option \<times> 's"
  hp_flush :: "int \<Rightarrow> 's \<Rightarrow> Result \<times> 's"
  hp_getSensors :: "'s \<Rightarrow> (int \<times> SensorInfo) list"
  hp_injectSensorData :: "'e \<Rightarrow> 's \<Rightarrow> Result \<times> 's"
  hp_registerDirectChannel :: "SharedMemInfo \<Rightarrow> 's \<Rightarrow> (Result \<times> int) option \<times> 's"
  hp_setOperationMode :: "OperationMode \<Rightarrow> 's \<Rightarrow> Result \<times> 's"
  hp_unregisterDirectChannel :: "int \<Rightarrow> 's \<Rightarrow> Result \<times> 's"
  hp_debug :: "int \<Rightarrow> 's \<Rightarrow> 's"
  hp_convertToOldEvent :: "HidlEvent \<Rightarrow> 'e"

text \<open>The state of the service: that of \<open>HalProxy\<close>, and the number of native handles that are allocated.\<close>

record 's proxy =
  hal_state :: 's
  live_handles :: nat

definition forwarded :: "('s \<Rightarrow> Result \<times> 's) \<Rightarrow> 's proxy \<Rightarrow> sensors_status \<times> 's proxy" where
  "forwarded f p = (let (r, s) = f (hal_state p) in (resultToAStatus r, p\<lparr>hal_state := s\<rparr>))"

definition called_back :: "('s \<Rightarrow> (Result \<times> int) option \<times> 's) \<Rightarrow> 's proxy \<Rightarrow> sensors_status \<times> int option \<times> 's proxy" where
  "called_back f p =
     (let (r, s) = f (hal_state p) in
      case r of None \<Rightarrow> (EX_UNSUPPORTED_OPERATION, None, p\<lparr>hal_state := s\<rparr>)
      | Some (result, reportToken) \<Rightarrow> (resultToAStatus result, Some reportToken, p\<lparr>hal_state := s\<rparr>))"

definition activate_sensor :: "('s, 'e) HalProxy \<Rightarrow> int \<Rightarrow> bool \<Rightarrow> 's proxy \<Rightarrow> sensors_status \<times> 's proxy" where
  "activate_sensor hp handle enabled p = forwarded (hp_activate hp handle enabled) p"

definition batch :: "('s, 'e) HalProxy \<Rightarrow> int \<Rightarrow> int \<Rightarrow> int \<Rightarrow> 's proxy \<Rightarrow> sensors_status \<times> 's proxy" where
  "batch hp handle samplingPeriodNs maxReportLatencyNs p =
     forwarded (hp_batch hp handle samplingPeriodNs maxReportLatencyNs) p"

definition configDirectReport ::
  "('s, 'e) HalProxy \<Rightarrow> int \<Rightarrow> int \<Rightarrow> RateLevel \<Rightarrow> 's proxy \<Rightarrow> (sensors_status \<times> int option \<times> 's proxy) option" where
  "configDirectReport hp handle channel rate p =
     (case convertRateLevel rate of None \<Rightarrow> None
      | Some r \<Rightarrow> Some (called_back (hp_configDirectReport hp handle channel r) p))"

definition flush :: "('s, 'e) HalProxy \<Rightarrow> int \<Rightarrow> 's proxy \<Rightarrow> sensors_status \<times> 's proxy" where
  "flush hp handle p = forwarded (hp_flush hp handle) p"

text \<open>The queues that the descriptors give and the initialisation of \<open>HalProxy\<close> are arguments.\<close>

definition initialize ::
  "('q event_queue \<Rightarrow> 'w wakelock_queue \<Rightarrow> 'c callback_wrapper \<Rightarrow> 's \<Rightarrow> Result \<times> 's) \<Rightarrow> ('d \<Rightarrow> 'q) \<Rightarrow> ('x \<Rightarrow> 'w) \<Rightarrow>
    AidlEvent list \<Rightarrow> 'd \<Rightarrow> 'x \<Rightarrow> 'c ISensorsCallback \<Rightarrow> 's proxy \<Rightarrow> sensors_status \<times> 's proxy" where
  "initialize initializeCommon event_mq wakelock_mq buffer eventQueueDescriptor wakeLockDescriptor sensorsCallback p =
     forwarded (initializeCommon \<lparr>mQueue = event_mq eventQueueDescriptor, mIntermediateEventBuffer = buffer\<rparr>
       \<lparr>wl_mQueue = wakelock_mq wakeLockDescriptor\<rparr> \<lparr>mSensorsCallback = sensorsCallback\<rparr>) p"

text \<open>The name of the proximity type is an argument; the range 1 is the float 1.0.\<close>

definition fix_sensor :: "string \<Rightarrow> SensorInfo \<Rightarrow> SensorInfo" where
  "fix_sensor SENSOR_STRING_TYPE_PROXIMITY dst =
     (let dst = (if requiredPermission dst = ''com.samsung.permission.SSENSOR''
                 then dst\<lparr>requiredPermission := []\<rparr> else dst)
      in if typeAsString dst = ''com.samsung.sensor.physical_proximity''
            \<or> typeAsString dst = ''com.samsung.sensor.hover_proximity''
         then dst\<lparr>si_type := PROXIMITY, typeAsString := SENSOR_STRING_TYPE_PROXIMITY, maxRange := 0x3f800000\<rparr>
         else dst)"

text \<open>The sensors are added to what the vector of the caller holds.\<close>

definition getSensorsList :: "('s, 'e) HalProxy \<Rightarrow> string \<Rightarrow> 's proxy \<Rightarrow> AidlSensorInfo list \<Rightarrow> AidlSensorInfo list" where
  "getSensorsList hp proximity p ret =
     ret @ map (\<lambda>sensor. convertSensorInfo (fix_sensor proximity (snd sensor))) (hp_getSensors hp (hal_state p))"

definition injectSensorData ::
  "conv_env \<Rightarrow> ('s, 'e) HalProxy \<Rightarrow> HidlEvent \<Rightarrow> AidlEvent \<Rightarrow> 's proxy \<Rightarrow> (sensors_status \<times> 's proxy) option" where
  "injectSensorData ce hp fresh ev p =
     map_option (\<lambda>h. forwarded (hp_injectSensorData hp (hp_convertToOldEvent hp h)) p) (convertToHidlEvent ce ev fresh)"

definition registerDirectChannel ::
  "('s, 'e) HalProxy \<Rightarrow> SharedMemInfo \<Rightarrow> 's proxy \<Rightarrow> (sensors_status \<times> int option \<times> 's proxy) option" where
  "registerDirectChannel hp mem p =
     (case convertSharedMemInfo mem of None \<Rightarrow> None
      | Some m \<Rightarrow>
          let p = p\<lparr>live_handles := live_handles p + 1\<rparr>;
              (status, token, p) = called_back (hp_registerDirectChannel hp m) p
          in Some (status, token, p\<lparr>live_handles := live_handles p - 1\<rparr>))"

definition setOperationMode :: "('s, 'e) HalProxy \<Rightarrow> OperationMode \<Rightarrow> 's proxy \<Rightarrow> (sensors_status \<times> 's proxy) option" where
  "setOperationMode hp mode p =
     map_option (\<lambda>m. forwarded (hp_setOperationMode hp m) p) (convertOperationMode mode)"

definition unregisterDirectChannel :: "('s, 'e) HalProxy \<Rightarrow> int \<Rightarrow> 's proxy \<Rightarrow> sensors_status \<times> 's proxy" where
  "unregisterDirectChannel hp channel p = forwarded (hp_unregisterDirectChannel hp channel) p"

text \<open>A native handle that cannot be created is a null pointer, which is written through.\<close>

definition dump :: "('s, 'e) HalProxy \<Rightarrow> bool \<Rightarrow> int \<Rightarrow> 's proxy \<Rightarrow> 's proxy option" where
  "dump hp created fd p = (if created then Some (p\<lparr>hal_state := hp_debug hp fd (hal_state p)\<rparr>) else None)"

section \<open>Specification\<close>

text \<open>The member of the union that belongs to a type, with its length.\<close>

fun union_fits :: "conv_env \<Rightarrow> SensorType \<Rightarrow> hidl_union \<Rightarrow> bool" where
  "union_fits ce t (U_meta _) = (t = META_DATA)"
| "union_fits ce t (U_vec3 _ _ _ _) = (t \<in> set vec3_types)"
| "union_fits ce t (U_vec4 _ _ _ _) = (t = GAME_ROTATION_VECTOR)"
| "union_fits ce t (U_uncal _ _ _ _ _ _) = (t \<in> set uncal_types)"
| "union_fits ce t (U_scalar _) = (t \<in> set scalar_types)"
| "union_fits ce t (U_stepCount _) = (t = STEP_COUNTER)"
| "union_fits ce t (U_heartRate _ _) = (t = HEART_RATE)"
| "union_fits ce t (U_pose6DOF _) = (t = POSE_6DOF)"
| "union_fits ce t (U_dynamic _ _ _) = (t = DYNAMIC_SENSOR_META)"
| "union_fits ce t (U_additional _ _ _) = (t = ADDITIONAL_INFO)"
| "union_fits ce t (U_data ws) =
     (length ws = 16 \<and> (t \<in> set rotation_types \<or> t = HEAD_TRACKER \<or> private_type ce t))"

text \<open>The part of the data that a type uses.\<close>

fun significant :: "SensorType \<Rightarrow> hidl_union \<Rightarrow> hidl_union" where
  "significant t (U_data ws) =
     U_data (if t \<in> set rotation_types then take 5 ws else if t = HEAD_TRACKER then take 7 ws else ws)"
| "significant t u = u"

definition same_event :: "HidlEvent \<Rightarrow> HidlEvent \<Rightarrow> bool" where
  "same_event h h' \<longleftrightarrow> h_timestamp h' = h_timestamp h \<and> h_sensorHandle h' = h_sensorHandle h
     \<and> h_sensorType h' = h_sensorType h \<and> significant (h_sensorType h) (h_u h') = significant (h_sensorType h) (h_u h)"

definition zero_env :: conv_env where
  "zero_env = \<lparr>data_behind = (\<lambda>_. replicate 16 0), info_behind = (\<lambda>_. replicate 14 0),
     fresh_values = replicate 16 0, DEVICE_PRIVATE_BASE = 65536\<rparr>"

text \<open>A queue that is a list.\<close>

definition list_write :: "AidlEvent list \<Rightarrow> AidlEvent list \<Rightarrow> bool \<times> AidlEvent list" where
  "list_write evs q = (True, q @ evs)"

definition list_read :: "nat \<Rightarrow> AidlEvent list \<Rightarrow> AidlEvent list \<Rightarrow> bool \<times> AidlEvent list \<times> AidlEvent list" where
  "list_read n buf q = (if n \<le> length q then (True, take n q @ drop n buf, drop n q) else (False, buf, q))"

text \<open>A proxy with one sensor.\<close>

definition hover_sensor :: SensorInfo where
  "hover_sensor = \<lparr>sensorHandle = 3, si_name = ''hover'', vendor = ''v'', version = 1, si_type = OTHER_TYPE 65600,
     typeAsString = ''com.samsung.sensor.hover_proximity'', maxRange = 0, resolution = 0, power_mA = 0, minDelay = 0,
     fifoReservedEventCount = 0, fifoMaxEventCount = 0, requiredPermission = ''com.samsung.permission.SSENSOR'',
     maxDelay = 0, si_flags = 0\<rparr>"

definition one_sensor_hal :: "(unit, HidlEvent) HalProxy" where
  "one_sensor_hal = \<lparr>hp_activate = (\<lambda>_ _ s. (RES_OK, s)), hp_batch = (\<lambda>_ _ _ s. (RES_OK, s)),
     hp_configDirectReport = (\<lambda>_ _ _ s. (None, s)), hp_flush = (\<lambda>_ s. (RES_OK, s)),
     hp_getSensors = (\<lambda>_. [(3, hover_sensor)]), hp_injectSensorData = (\<lambda>_ s. (RES_OK, s)),
     hp_registerDirectChannel = (\<lambda>_ s. (None, s)), hp_setOperationMode = (\<lambda>_ s. (RES_OK, s)),
     hp_unregisterDirectChannel = (\<lambda>_ s. (RES_OK, s)), hp_debug = (\<lambda>_ s. s), hp_convertToOldEvent = (\<lambda>h. h)\<rparr>"

section \<open>Lemmas\<close>

lemmas type_lists = vec3_types_def rotation_types_def uncal_types_def scalar_types_def

lemma seven_words: "length ws = 16 \<Longrightarrow> [ws ! 0, ws ! 1, ws ! 2, ws ! 3, ws ! 4, ws ! 5, ws ! 6] = take 7 ws"
  by (rule nth_equalityI) (auto simp: less_Suc_eq numeral_eq_Suc)

text \<open>The conversion of a payload and back.\<close>

lemma payload_roundtrip:
  assumes "union_fits ce t u"
  shows "\<exists>p u'. aidl_payload_of ce t u = Some p \<and> hidl_payload ce t p u0 = Some u' \<and> significant t u' = significant t u"
proof (cases u)
  case (U_data ws)
  then have len: "length ws = 16" and t: "t \<in> set rotation_types \<or> t = HEAD_TRACKER \<or> private_type ce t"
    using assms by simp_all
  show ?thesis
  proof (cases "private_type ce t")
    case True
    then obtain n where "t = OTHER_TYPE n"
      by (cases t) simp_all
    then show ?thesis
      using True U_data by (simp add: aidl_payload_of_def hidl_payload_def type_lists)
  next
    case False
    then show ?thesis
      using t len U_data seven_words [OF len]
      by (auto simp: aidl_payload_of_def hidl_payload_def type_lists)
  qed
qed (use assms in \<open>auto simp: aidl_payload_of_def hidl_payload_def type_lists\<close>)

lemma event_roundtrip:
  assumes "union_fits ce (h_sensorType h) (h_u h)"
  shows "\<exists>a. convertToAidlEvent ce h = Some a \<and> (\<forall>h0. \<exists>h'. convertToHidlEvent ce a h0 = Some h' \<and> same_event h h')"
proof -
  obtain p where p: "aidl_payload_of ce (h_sensorType h) (h_u h) = Some p"
    using payload_roundtrip [OF assms] by blast
  have "\<exists>u'. hidl_payload ce (h_sensorType h) p u0 = Some u'
      \<and> significant (h_sensorType h) u' = significant (h_sensorType h) (h_u h)" for u0
    using payload_roundtrip [OF assms, of u0] p by auto
  then show ?thesis
    by (fastforce simp: convertToAidlEvent_def convertToHidlEvent_def p same_event_def)
qed

lemma convert_into_spec:
  assumes "\<forall>h \<in> set hs. union_fits ce (h_sensorType h) (h_u h)" "i + length hs \<le> length buf"
  shows "convert_into ce i hs buf =
    Some (take i buf @ map (\<lambda>h. the (convertToAidlEvent ce h)) hs @ drop (i + length hs) buf)"
  using assms
proof (induction hs arbitrary: i buf)
  case (Cons h hs)
  obtain a where a: "convertToAidlEvent ce h = Some a"
    using event_roundtrip [of ce h] Cons.prems(1) by auto
  have "convert_into ce (Suc i) hs (buf[i := a]) = Some (take (Suc i) (buf[i := a]) @
      map (\<lambda>h. the (convertToAidlEvent ce h)) hs @ drop (Suc i + length hs) (buf[i := a]))"
    using Cons.prems by (intro Cons.IH) simp_all
  moreover have "take (Suc i) (buf[i := a]) = take i buf @ [a]"
    using Cons.prems(2) by (simp add: take_Suc_conv_app_nth)
  ultimately show ?case
    using Cons.prems(2) a by simp
qed simp

lemma convert_out_spec:
  assumes "\<forall>h \<in> set hs. union_fits ce (h_sensorType h) (h_u h)" "length outs = length hs"
  shows "\<exists>outs'. convert_out ce (map (\<lambda>h. the (convertToAidlEvent ce h)) hs) outs = Some outs' \<and> list_all2 same_event hs outs'"
  using assms
proof (induction hs arbitrary: outs)
  case (Cons h hs)
  then obtain o1 outs1 where outs: "outs = o1 # outs1" "length outs1 = length hs"
    by (cases outs) auto
  obtain a h' where a: "convertToAidlEvent ce h = Some a" "convertToHidlEvent ce a o1 = Some h'" "same_event h h'"
    using event_roundtrip [of ce h] Cons.prems(1) by (meson list.set_intros(1))
  show ?case
    using Cons.IH [OF _ outs(2)] Cons.prems(1) a by (auto simp: outs(1))
qed simp

text \<open>A blocking write sends what a plain write sends.\<close>

lemma queue_writeBlocking_write:
  "queue_writeBlocking ce mq events rn wn t ev eq = queue_write ce (\<lambda>evs. mq evs rn wn t ev) events eq"
  by (simp add: queue_writeBlocking_def queue_write_def Let_def split: option.split prod.split)

section \<open>Properties\<close>



text \<open>
  The list of sensors has every sensor of the proxy, in order and with its handle. No sensor asks for Samsung's
  own permission; the two Samsung proximity sensors appear as proximity sensors with range 1; and a sensor
  that is neither is reported as it is.
\<close>

theorem sensors_list:
  assumes "i < length (hp_getSensors hp (hal_state p))"
    "s = snd (hp_getSensors hp (hal_state p) ! i)" "r = getSensorsList hp proximity p [] ! i"
  shows "length (getSensorsList hp proximity p []) = length (hp_getSensors hp (hal_state p))
    \<and> ai_sensorHandle r = sensorHandle s
    \<and> ai_requiredPermission r \<noteq> ''com.samsung.permission.SSENSOR''
    \<and> (if typeAsString s \<in> {''com.samsung.sensor.physical_proximity'', ''com.samsung.sensor.hover_proximity''}
       then ai_type r = PROXIMITY \<and> ai_typeAsString r = proximity \<and> ai_maxRange r = 0x3f800000
       else requiredPermission s \<noteq> ''com.samsung.permission.SSENSOR'' \<longrightarrow> r = convertSensorInfo s)"
  using assms by (simp add: getSensorsList_def fix_sensor_def convertSensorInfo_def Let_def)

theorem sensors_list_witness:
  "ai_type (getSensorsList one_sensor_hal ''android.sensor.proximity'' \<lparr>hal_state = (), live_handles = 0\<rparr> [] ! 0) = PROXIMITY"
proof -
  let ?p = "\<lparr>hal_state = (), live_handles = 0\<rparr> :: unit proxy"
  have "0 < length (hp_getSensors one_sensor_hal (hal_state ?p))"
      "hover_sensor = snd (hp_getSensors one_sensor_hal (hal_state ?p) ! 0)"
    by (simp_all add: one_sensor_hal_def)
  from sensors_list [OF this refl, of "''android.sensor.proximity''"] show ?thesis
    by (simp add: hover_sensor_def)
qed

end
