(* ===== verification/Memtrack.thy ===== *)
theory Memtrack
  imports HostTools
begin

text \<open>
  The memory tracking service, \<open>src/aidl/memtrack\<close>: the reader of the GPU's nodes, the two binder calls and the
  small file system library they use. What the system calls return is an argument. A value that was never written
  is \<open>None\<close> when it is used, as is reading a directory that could not be opened.
\<close>

section \<open>Data\<close>

datatype MemtrackType = MT_OTHER | MT_GL | MT_GRAPHICS | MT_MULTIMEDIA | MT_CAMERA | MT_UNKNOWN int

datatype mem_status = MEM_OK | MEM_EX_ILLEGAL_ARGUMENT | MEM_EX_UNSUPPORTED_OPERATION

datatype file_kind = Regular | Directory | Symlink

record MemtrackRecord =
  mr_unaccounted :: bool
  sizeInBytes :: int

record DeviceInfo =
  di_id :: int
  di_name :: string

record mem_fs =
  stat_kind :: "string \<Rightarrow> file_kind option"
  lstat_kind :: "string \<Rightarrow> file_kind option"
  realpath :: "string \<Rightarrow> string option"
  file_text :: "string \<Rightarrow> string option"
  opendir :: "string \<Rightarrow> string list option"

definition kSysfsDevicePath :: string where "kSysfsDevicePath = ''/sys/class/misc/mali0/device''"
definition kProcessDir :: string where "kProcessDir = ''kprcs''"
definition kTotalGpuMemNode :: string where "kTotalGpuMemNode = ''total_gpu_mem''"
definition kDmaBufGpuMemNode :: string where "kDmaBufGpuMemNode = ''dma_buf_gpu_mem''"

section \<open>The file system library\<close>

definition filename :: "string \<Rightarrow> string" where
  "filename strPath =
     (if CHR ''/'' \<notin> set strPath then strPath else rev (takeWhile (\<lambda>c. c \<noteq> CHR ''/'') (rev strPath)))"

definition exists_file :: "mem_fs \<Rightarrow> string \<Rightarrow> bool" where
  "exists_file fs p = (stat_kind fs p \<noteq> None)"

definition is_directory :: "mem_fs \<Rightarrow> string \<Rightarrow> bool" where
  "is_directory fs p = (stat_kind fs p = Some Directory)"

definition is_symlink :: "mem_fs \<Rightarrow> string \<Rightarrow> bool" where
  "is_symlink fs p = (lstat_kind fs p = Some Symlink)"

definition read_symlink :: "mem_fs \<Rightarrow> string \<Rightarrow> string" where
  "read_symlink fs p = (case realpath fs p of None \<Rightarrow> p | Some q \<Rightarrow> q)"

text \<open>A \<open>stringstream\<close> made from a string is written from the beginning of that string.\<close>

definition overwrite :: "string \<Rightarrow> string \<Rightarrow> string" where
  "overwrite s t = t @ drop (length t) s"

definition directory_iterator :: "mem_fs \<Rightarrow> string \<Rightarrow> string list option" where
  "directory_iterator fs p =
     (if \<not> exists_file fs p \<or> \<not> is_directory fs p then Some []
      else map_option (\<lambda>names. map (\<lambda>d_name. overwrite p (''/'' @ d_name))
                                 (filter (\<lambda>d_name. d_name \<noteq> ''.'' \<and> d_name \<noteq> ''..'') names))
             (opendir fs p))"

section \<open>The GPU's nodes\<close>

text \<open>
  \<open>file >> out\<close> for \<open>uint64_t\<close>: without a character behind the spaces \<open>out\<close> is left as it is, here unset; without
  a number it is 0; a number that is too large becomes the largest; a minus sign negates modulo \<open>2 ^ 64\<close>.
\<close>

definition decimal :: "char \<Rightarrow> bool" where
  "decimal c = (case digit_value c of None \<Rightarrow> False | Some d \<Rightarrow> d < 10)"

definition extract_u64 :: "string \<Rightarrow> u64 option" where
  "extract_u64 text =
     (let s = dropWhile is_space text in
      if s = [] then None
      else let neg = (hd s = CHR ''-'');
               s = (if hd s = CHR ''-'' \<or> hd s = CHR ''+'' then tl s else s);
               ds = takeWhile decimal s; n = digits_value 10 ds 0
           in Some (if ds = [] then 0 else if n \<ge> 2 ^ 64 then - 1 else if neg then - of_nat n else of_nat n))"

definition node_path :: "string \<Rightarrow> int \<Rightarrow> string" where
  "node_path node pid =
     (if pid \<noteq> 0 then kSysfsDevicePath @ ''/'' @ kProcessDir @ ''/'' @ show_d (of_int pid) @ ''/'' @ node
      else kSysfsDevicePath @ ''/'' @ node)"

definition readNode :: "mem_fs \<Rightarrow> string \<Rightarrow> int \<Rightarrow> u64 option" where
  "readNode fs node pid =
     (let path = node_path node pid in
      if \<not> exists_file fs path then Some 0
      else case file_text fs path of None \<Rightarrow> Some 0 | Some text \<Rightarrow> extract_u64 text)"

definition getDmaBufGpuMem :: "mem_fs \<Rightarrow> int \<Rightarrow> u64 option" where
  "getDmaBufGpuMem fs pid = readNode fs kDmaBufGpuMemNode pid"

definition getGpuMemTotal :: "mem_fs \<Rightarrow> int \<Rightarrow> u64 option" where
  "getGpuMemTotal fs pid = readNode fs kTotalGpuMemNode pid"

definition getPrivateGpuMem :: "mem_fs \<Rightarrow> int \<Rightarrow> u64 option" where
  "getPrivateGpuMem fs pid =
     do { dma_buf_size \<leftarrow> getDmaBufGpuMem fs pid;
          gpu_total_size \<leftarrow> getGpuMemTotal fs pid;
          Some (if dma_buf_size > gpu_total_size then 0 else gpu_total_size - dma_buf_size) }"

section \<open>The interface\<close>

text \<open>The last argument is the vector of the caller, which is left alone on an error.\<close>

definition getMemory ::
  "mem_fs \<Rightarrow> int \<Rightarrow> MemtrackType \<Rightarrow> MemtrackRecord list \<Rightarrow> (mem_status \<times> MemtrackRecord list) option" where
  "getMemory fs pid type ret =
     (if pid < 0 then Some (MEM_EX_ILLEGAL_ARGUMENT, ret)
      else if type \<notin> {MT_OTHER, MT_GL, MT_GRAPHICS, MT_MULTIMEDIA, MT_CAMERA} then Some (MEM_EX_UNSUPPORTED_OPERATION, ret)
      else if type \<noteq> MT_GL \<and> type \<noteq> MT_GRAPHICS then Some (MEM_OK, [])
      else if pid = 0 \<and> type \<noteq> MT_GL then Some (MEM_OK, [])
      else do { sz \<leftarrow> (if type = MT_GL then getPrivateGpuMem fs pid else getDmaBufGpuMem fs pid);
                Some (MEM_OK, [\<lparr>mr_unaccounted = True, sizeInBytes = sint sz\<rparr>]) })"

definition getGpuDeviceInfo :: "mem_fs \<Rightarrow> DeviceInfo list" where
  "getGpuDeviceInfo fs =
     (let devName = (if exists_file fs kSysfsDevicePath \<and> is_symlink fs kSysfsDevicePath
                     then filename (read_symlink fs kSysfsDevicePath) else ''default-gpu'')
      in [\<lparr>di_id = 0, di_name = devName\<rparr>])"

section \<open>Properties of the components\<close>

lemma filename_no_slash: "CHR ''/'' \<notin> set (filename p)"
  by (auto simp: filename_def dest: set_takeWhileD)

lemma filename_of_join: "CHR ''/'' \<notin> set n \<Longrightarrow> filename (p @ ''/'' @ n) = n"
proof -
  assume "CHR ''/'' \<notin> set n"
  then have "takeWhile (\<lambda>c. c \<noteq> CHR ''/'') (rev n @ CHR ''/'' # rev p) = rev n"
    by (subst takeWhile_append2) auto
  then show ?thesis
    by (simp add: filename_def)
qed

text \<open>
  The entries that \<open>directory_iterator\<close> gives are not the paths of the files: the name overwrites the
  beginning of the directory's path instead of following it.
\<close>

lemma directory_iterator_wrong:
  assumes "directory_iterator fs p = Some es" "opendir fs p = Some names" "p \<noteq> []" "i < length es"
  shows "es ! i \<noteq> p @ ''/'' @ (filter (\<lambda>d_name. d_name \<noteq> ''.'' \<and> d_name \<noteq> ''..'') names) ! i"
proof
  let ?n = "(filter (\<lambda>d_name. d_name \<noteq> ''.'' \<and> d_name \<noteq> ''..'') names) ! i"
  assume eq: "es ! i = p @ ''/'' @ ?n"
  have "es ! i = overwrite p (''/'' @ ?n)"
    using assms by (auto simp: directory_iterator_def split: if_splits)
  then have "length (p @ ''/'' @ ?n) = length (overwrite p (''/'' @ ?n))"
    by (simp only: eq)
  then show False
    using assms(3) by (cases p) (simp_all add: overwrite_def)
qed

lemma getMemory_error_keeps:
  "getMemory fs pid type ret = Some (st, out) \<Longrightarrow> st \<noteq> MEM_OK \<Longrightarrow> out = ret"
  by (auto simp: getMemory_def bind_eq_Some_conv split: if_splits)

section \<open>Theorems\<close>

text \<open>
  C40. For a process whose two nodes hold numbers, both kinds of memory are reported with one record each, and the two
  sizes add up to the total of the GPU, which must be below \<open>2 ^ 63\<close>, as it is reported as a signed number. When the
  nodes contradict each other, with more shared memory than memory in total, nothing is reported as private.
\<close>

theorem memory_adds_up:
  assumes "0 < pid" "getDmaBufGpuMem fs pid = Some d" "getGpuMemTotal fs pid = Some t" "unat t < 2 ^ 63"
  shows "\<exists>g b. getMemory fs pid MT_GL ret = Some (MEM_OK, [g]) \<and> getMemory fs pid MT_GRAPHICS ret = Some (MEM_OK, [b])
    \<and> (if d \<le> t then sizeInBytes g + sizeInBytes b = int (unat t) else sizeInBytes g = 0)"
proof -
  have s: "sint w = int (unat w)" if "unat w < 2 ^ 63" for w :: u64
  proof -
    have "int (unat w) < 2 ^ 63"
      using that of_nat_less_iff [of "unat w" "2 ^ 63", where ?'a = int] by (simp del: of_nat_less_iff)
    then show ?thesis
      using signed_take_bit_int_eq_self [of 63 "int (unat w)"] order_trans [OF _ uint_ge_0 [of w], of "- (2 ^ 63)"]
      by (simp add: sint_uint)
  qed
  show ?thesis
  proof (cases "d \<le> t")
    case True
    then have "unat d \<le> unat t" "unat (t - d) = unat t - unat d"
      by (simp_all add: word_le_nat_alt unat_sub)
    then show ?thesis
      using True assms s [of d] s [of "t - d"] by (auto simp: getMemory_def getPrivateGpuMem_def)
  next
    case False
    then show ?thesis
      using assms by (auto simp: getMemory_def getPrivateGpuMem_def)
  qed
qed

definition example_mem_fs :: mem_fs where
  "example_mem_fs = \<lparr>stat_kind = \<lambda>_. Some Regular, lstat_kind = \<lambda>_. Some Regular, realpath = \<lambda>p. Some p,
     file_text = \<lambda>p. Some (if filename p = kTotalGpuMemNode then ''300'' else ''120''), opendir = \<lambda>_. None\<rparr>"

theorem memory_adds_up_witness:
  "\<exists>g b. getMemory example_mem_fs 5 MT_GL [] = Some (MEM_OK, [g])
    \<and> getMemory example_mem_fs 5 MT_GRAPHICS [] = Some (MEM_OK, [b]) \<and> sizeInBytes g + sizeInBytes b = 300"
proof -
  have "filename (node_path n 5) = n" if "CHR ''/'' \<notin> set n" for n
    using filename_of_join [OF that, of "kSysfsDevicePath @ ''/'' @ kProcessDir @ ''/'' @ show_d (of_int 5)"]
    by (simp add: node_path_def)
  moreover have "extract_u64 ''300'' = Some 300" "extract_u64 ''120'' = Some 120"
    by (simp_all add: extract_u64_def is_space_def decimal_def digit_value_def)
  ultimately have "getDmaBufGpuMem example_mem_fs 5 = Some 120" "getGpuMemTotal example_mem_fs 5 = Some 300"
    by (simp_all add: getDmaBufGpuMem_def getGpuMemTotal_def readNode_def example_mem_fs_def exists_file_def
        kDmaBufGpuMemNode_def kTotalGpuMemNode_def)
  from memory_adds_up [OF _ this] show ?thesis
    by simp
qed

end
