(* ===== verification/Demangle.thy ===== *)
theory Demangle
  imports HostTools
begin

unbundle bit_operations_syntax

text \<open>
  The demangler shim, \<open>src/shims/libdemangle/cxa_demangle.cpp\<close>: the bump allocator of the syntax tree,
  \<open>parse_discriminator\<close>, the entry point \<open>__cxa_demangle\<close>, and the visitor that dumps a tree for debugging. The parser
  and the printer of demangled names are in a header that is not in the repository and are arguments. That the
  process is terminated is \<open>None\<close>.
\<close>

section \<open>The allocator of the demangler\<close>

text \<open>
  A block is named by a number, 0 is \<open>InitialBuffer\<close>. \<open>BlockMeta\<close> has two words, so that \<open>sizeof\<close> is 16. A pointer is a
  block and an offset into its memory. \<open>ok\<close> says which calls of \<open>malloc\<close> succeed.
\<close>

record BlockMeta =
  block :: nat
  block_size :: u64
  Current :: u64

record BumpPointerAllocator =
  BlockList :: "BlockMeta list"
  next_block :: nat
  freed :: "nat list"

definition AllocSize :: u64 where "AllocSize = 4096"
definition sizeof_BlockMeta :: u64 where "sizeof_BlockMeta = 16"
definition UsableAllocSize :: u64 where "UsableAllocSize = AllocSize - sizeof_BlockMeta"

definition BumpPointerAllocator_new :: BumpPointerAllocator where
  "BumpPointerAllocator_new =
     \<lparr>BlockList = [\<lparr>block = 0, block_size = AllocSize, Current = 0\<rparr>], next_block = 1, freed = []\<rparr>"

definition grow :: "(nat \<Rightarrow> bool) \<Rightarrow> BumpPointerAllocator \<Rightarrow> BumpPointerAllocator option" where
  "grow ok a =
     (if \<not> ok (next_block a) then None
      else Some (a\<lparr>BlockList := \<lparr>block = next_block a, block_size = AllocSize, Current = 0\<rparr> # BlockList a,
                   next_block := next_block a + 1\<rparr>))"

definition allocateMassive ::
  "(nat \<Rightarrow> bool) \<Rightarrow> u64 \<Rightarrow> BumpPointerAllocator \<Rightarrow> ((nat \<times> u64) \<times> BumpPointerAllocator) option" where
  "allocateMassive ok NBytes a =
     (let NBytes = NBytes + sizeof_BlockMeta; b = next_block a in
      if \<not> ok b then None
      else case BlockList a of [] \<Rightarrow> None
           | h # bs \<Rightarrow> Some ((b, sizeof_BlockMeta),
               a\<lparr>BlockList := h # \<lparr>block = b, block_size = NBytes, Current = 0\<rparr> # bs, next_block := b + 1\<rparr>))"

text \<open>\<open>~15u\<close> is a 32-bit number, which the conversion to \<open>size_t\<close> extends with zeros.\<close>

definition round_up_16 :: "u64 \<Rightarrow> u64" where
  "round_up_16 N = (N + 15) AND ucast (NOT (15 :: u32))"

definition bump :: "u64 \<Rightarrow> BumpPointerAllocator \<Rightarrow> ((nat \<times> u64) \<times> BumpPointerAllocator) option" where
  "bump N a =
     (case BlockList a of [] \<Rightarrow> None
      | h # bs \<Rightarrow>
          let h = h\<lparr>Current := Current h + N\<rparr>
          in Some ((block h, sizeof_BlockMeta + Current h - N), a\<lparr>BlockList := h # bs\<rparr>))"

definition allocate ::
  "(nat \<Rightarrow> bool) \<Rightarrow> u64 \<Rightarrow> BumpPointerAllocator \<Rightarrow> ((nat \<times> u64) \<times> BumpPointerAllocator) option" where
  "allocate ok N a =
     (let N = round_up_16 N in
      case BlockList a of [] \<Rightarrow> None
      | h # _ \<Rightarrow>
          if N + Current h \<ge> UsableAllocSize
          then if N > UsableAllocSize then allocateMassive ok N a
               else do { a \<leftarrow> grow ok a; bump N a }
          else bump N a)"

definition reset :: "BumpPointerAllocator \<Rightarrow> BumpPointerAllocator" where
  "reset a = a\<lparr>BlockList := [\<lparr>block = 0, block_size = AllocSize, Current = 0\<rparr>],
               freed := freed a @ filter (\<lambda>b. b \<noteq> 0) (map block (BlockList a))\<rparr>"

text \<open>The two requests of the parser: a node of a class, and an array of pointers.\<close>

definition makeNode ::
  "(nat \<Rightarrow> bool) \<Rightarrow> u64 \<Rightarrow> BumpPointerAllocator \<Rightarrow> ((nat \<times> u64) \<times> BumpPointerAllocator) option" where
  "makeNode ok sizeof_T a = allocate ok sizeof_T a"

definition allocateNodeArray ::
  "(nat \<Rightarrow> bool) \<Rightarrow> u64 \<Rightarrow> BumpPointerAllocator \<Rightarrow> ((nat \<times> u64) \<times> BumpPointerAllocator) option" where
  "allocateNodeArray ok sz a = allocate ok (8 * sz) a"

section \<open>The entry points of the demangler\<close>

definition is_dec :: "char \<Rightarrow> bool" where
  "is_dec c = (case digit_value c of None \<Rightarrow> False | Some d \<Rightarrow> d < 10)"

text \<open>The rest of the string behind a discriminator.\<close>

definition parse_discriminator :: "string \<Rightarrow> string" where
  "parse_discriminator s =
     (case s of [] \<Rightarrow> s
      | c # t1 \<Rightarrow>
          if c = CHR ''_'' then
            (case t1 of [] \<Rightarrow> s
             | d # u \<Rightarrow>
                 if is_dec d then u
                 else if d = CHR ''_''
                 then (case dropWhile is_dec u of e # v \<Rightarrow> if e = CHR ''_'' then v else s | [] \<Rightarrow> s)
                 else s)
          else if is_dec c then (if dropWhile is_dec t1 = [] then [] else s)
          else s)"

datatype demangle_status =
    demangle_invalid_args | demangle_invalid_mangled_name | demangle_memory_alloc_failure | demangle_success

text \<open>
  The name, the buffer and the length of the caller may be null. \<open>parse\<close> is the parser with the printer of its result,
  \<open>buffer\<close> gives the buffer the stream works on, or \<open>None\<close> when it cannot be allocated. The result is the status, the
  buffer that is returned, and the length that is stored.
\<close>

definition cxa_demangle ::
  "(string \<Rightarrow> string option) \<Rightarrow> (nat option \<Rightarrow> nat option \<Rightarrow> nat option) \<Rightarrow> string option \<Rightarrow> nat option \<Rightarrow> nat option
    \<Rightarrow> demangle_status \<times> (nat \<times> string) option \<times> nat option" where
  "cxa_demangle parse buffer MangledName Buf N =
     (case MangledName of None \<Rightarrow> (demangle_invalid_args, None, N)
      | Some name \<Rightarrow>
          if Buf \<noteq> None \<and> N = None then (demangle_invalid_args, None, N)
          else case parse name of None \<Rightarrow> (demangle_invalid_mangled_name, None, N)
          | Some text \<Rightarrow>
              (case buffer Buf N of None \<Rightarrow> (demangle_memory_alloc_failure, None, N)
               | Some b \<Rightarrow> (demangle_success, Some (b, text @ [CHR 0x00]), map_option (\<lambda>_. length text + 1) N)))"

section \<open>The dump of a syntax tree\<close>

text \<open>
  The classes of the nodes are declared in a header that is not in the repository. What the visitor uses of them is the
  name of the class and the arguments of the constructor, which \<open>match\<close> passes on. Nodes are named by addresses, as a
  forward reference may lead back to a node that contains it; \<open>heap\<close> gives the node at an address. Every other class
  has at least one argument.
\<close>

datatype ReferenceKind = RK_LValue | RK_RValue
datatype FunctionRefQual = FrefQualNone | FrefQualLValue | FrefQualRValue
datatype SpecialSubKind = SSK_allocator | SSK_basic_string | SSK_string | SSK_istream | SSK_ostream | SSK_iostream

datatype node_or_string = NOS_node "nat option" | NOS_string string | NOS_empty

datatype dump_arg =
    Arg_node "nat option"
  | Arg_array "nat option list"
  | Arg_string string
  | Arg_nos node_or_string
  | Arg_bool bool
  | Arg_unsigned u64
  | Arg_signed u64
  | Arg_rk ReferenceKind
  | Arg_rq FunctionRefQual
  | Arg_quals u32
  | Arg_ssk SpecialSubKind

datatype dump_node =
    Plain_node string dump_arg "dump_arg list"
  | ForwardTemplateReference "nat option" u64

record dump_env =
  heap :: "nat \<Rightarrow> dump_node"
  QualConst :: u32
  QualVolatile :: u32
  QualRestrict :: u32

text \<open>The visitor, what it printed, and the forward references whose \<open>Printing\<close> is set.\<close>

record DumpVisitor =
  Depth :: u32
  PendingNewline :: bool
  printed :: string
  printing :: "nat set"

type_synonym visit = "nat \<Rightarrow> DumpVisitor \<Rightarrow> DumpVisitor option"

fun wantsNewline :: "dump_arg \<Rightarrow> bool" where
  "wantsNewline (Arg_node _) = True"
| "wantsNewline (Arg_array A) = (A \<noteq> [])"
| "wantsNewline _ = False"

definition anyWantNewline :: "dump_arg list \<Rightarrow> bool" where
  "anyWantNewline Vs = (\<exists>V \<in> set Vs. wantsNewline V)"

definition printStr :: "string \<Rightarrow> DumpVisitor \<Rightarrow> DumpVisitor" where
  "printStr S v = v\<lparr>printed := printed v @ S\<rparr>"

definition newLine :: "DumpVisitor \<Rightarrow> DumpVisitor" where
  "newLine v = (printStr ([CHR 0x0A] @ replicate (unat (Depth v)) (CHR '' '')) v)\<lparr>PendingNewline := False\<rparr>"

text \<open>\<open>%.*s\<close> stops at a null character.\<close>

definition print_string :: "string \<Rightarrow> DumpVisitor \<Rightarrow> DumpVisitor" where
  "print_string SV v = printStr ([CHR 0x22] @ takeWhile (\<lambda>c. c \<noteq> CHR 0x00) SV @ [CHR 0x22]) v"

definition print_node :: "visit \<Rightarrow> nat option \<Rightarrow> DumpVisitor \<Rightarrow> DumpVisitor option" where
  "print_node vis N v = (case N of Some a \<Rightarrow> vis a v | None \<Rightarrow> Some (printStr ''<null>'' v))"

fun print_nos :: "visit \<Rightarrow> node_or_string \<Rightarrow> DumpVisitor \<Rightarrow> DumpVisitor option" where
  "print_nos vis (NOS_node N) v = print_node vis N v"
| "print_nos vis (NOS_string s) v = Some (print_string s v)"
| "print_nos vis NOS_empty v = Some (printStr ''NodeOrString()'' v)"

text \<open>
  The separator of \<open>printWithComma\<close>, and the loop over the rest of an array. Every element is a pointer to a node, so that
  a new line is wanted before it and pending after it.
\<close>

definition comma :: "bool \<Rightarrow> DumpVisitor \<Rightarrow> DumpVisitor" where
  "comma wants v = (if PendingNewline v \<or> wants then newLine (printStr '','' v) else printStr '', '' v)"

fun print_rest :: "visit \<Rightarrow> nat option list \<Rightarrow> DumpVisitor \<Rightarrow> DumpVisitor option" where
  "print_rest vis [] v = Some v"
| "print_rest vis (N # A) v =
     do { v \<leftarrow> print_node vis N (comma True v); print_rest vis A (v\<lparr>PendingNewline := True\<rparr>) }"

definition print_array :: "visit \<Rightarrow> nat option list \<Rightarrow> DumpVisitor \<Rightarrow> DumpVisitor option" where
  "print_array vis A v =
     (let v = printStr ''{'' (v\<lparr>Depth := Depth v + 1\<rparr>) in
      do { v \<leftarrow> (case A of [] \<Rightarrow> Some v | N # A \<Rightarrow> do { v \<leftarrow> print_node vis N v; print_rest vis A v });
           let v = printStr ''}'' v;
           Some (v\<lparr>Depth := Depth v - 1\<rparr>) })"

fun print_rk :: "ReferenceKind \<Rightarrow> string" where
  "print_rk RK_LValue = ''ReferenceKind::LValue''"
| "print_rk RK_RValue = ''ReferenceKind::RValue''"

fun print_rq :: "FunctionRefQual \<Rightarrow> string" where
  "print_rq FrefQualNone = ''FunctionRefQual::FrefQualNone''"
| "print_rq FrefQualLValue = ''FunctionRefQual::FrefQualLValue''"
| "print_rq FrefQualRValue = ''FunctionRefQual::FrefQualRValue''"

fun print_qual_names :: "(u32 \<times> string) list \<Rightarrow> u32 \<Rightarrow> string" where
  "print_qual_names [] Qs = []"
| "print_qual_names ((Q, Name) # names) Qs =
     (if Qs AND Q \<noteq> 0
      then Name @ (if Qs AND NOT Q \<noteq> 0 then '' | '' else []) @ print_qual_names names (Qs AND NOT Q)
      else print_qual_names names Qs)"

definition print_quals :: "dump_env \<Rightarrow> u32 \<Rightarrow> string" where
  "print_quals env Qs =
     (if Qs = 0 then ''QualNone''
      else print_qual_names [(QualConst env, ''QualConst''), (QualVolatile env, ''QualVolatile''),
                             (QualRestrict env, ''QualRestrict'')] Qs)"

fun print_ssk :: "SpecialSubKind \<Rightarrow> string" where
  "print_ssk SSK_allocator = ''SpecialSubKind::allocator''"
| "print_ssk SSK_basic_string = ''SpecialSubKind::basic_string''"
| "print_ssk SSK_string = ''SpecialSubKind::string''"
| "print_ssk SSK_istream = ''SpecialSubKind::istream''"
| "print_ssk SSK_ostream = ''SpecialSubKind::ostream''"
| "print_ssk SSK_iostream = ''SpecialSubKind::iostream''"

fun print_arg :: "dump_env \<Rightarrow> visit \<Rightarrow> dump_arg \<Rightarrow> DumpVisitor \<Rightarrow> DumpVisitor option" where
  "print_arg env vis (Arg_node N) v = print_node vis N v"
| "print_arg env vis (Arg_array A) v = print_array vis A v"
| "print_arg env vis (Arg_string s) v = Some (print_string s v)"
| "print_arg env vis (Arg_nos n) v = print_nos vis n v"
| "print_arg env vis (Arg_bool b) v = Some (printStr (if b then ''true'' else ''false'') v)"
| "print_arg env vis (Arg_unsigned n) v = Some (printStr (show_base 10 (unat n)) v)"
| "print_arg env vis (Arg_signed n) v = Some (printStr (show_int (sint n)) v)"
| "print_arg env vis (Arg_rk k) v = Some (printStr (print_rk k) v)"
| "print_arg env vis (Arg_rq q) v = Some (printStr (print_rq q) v)"
| "print_arg env vis (Arg_quals q) v = Some (printStr (print_quals env q) v)"
| "print_arg env vis (Arg_ssk k) v = Some (printStr (print_ssk k) v)"

definition printWithPendingNewline :: "dump_env \<Rightarrow> visit \<Rightarrow> dump_arg \<Rightarrow> DumpVisitor \<Rightarrow> DumpVisitor option" where
  "printWithPendingNewline env vis V v =
     map_option (\<lambda>v. if wantsNewline V then v\<lparr>PendingNewline := True\<rparr> else v) (print_arg env vis V v)"

definition printWithComma :: "dump_env \<Rightarrow> visit \<Rightarrow> dump_arg \<Rightarrow> DumpVisitor \<Rightarrow> DumpVisitor option" where
  "printWithComma env vis V v = printWithPendingNewline env vis V (comma (wantsNewline V) v)"

fun print_in_order :: "dump_env \<Rightarrow> visit \<Rightarrow> dump_arg list \<Rightarrow> DumpVisitor \<Rightarrow> DumpVisitor option" where
  "print_in_order env vis [] v = Some v"
| "print_in_order env vis (V # Vs) v = do { v \<leftarrow> printWithComma env vis V v; print_in_order env vis Vs v }"

definition CtorArgPrinter :: "dump_env \<Rightarrow> visit \<Rightarrow> dump_arg \<Rightarrow> dump_arg list \<Rightarrow> DumpVisitor \<Rightarrow> DumpVisitor option" where
  "CtorArgPrinter env vis V Vs v =
     (let v = (if anyWantNewline (V # Vs) then newLine v else v) in
      do { v \<leftarrow> printWithPendingNewline env vis V v; print_in_order env vis Vs v })"

definition visit_plain :: "dump_env \<Rightarrow> visit \<Rightarrow> string \<Rightarrow> dump_arg \<Rightarrow> dump_arg list \<Rightarrow> DumpVisitor \<Rightarrow> DumpVisitor option" where
  "visit_plain env vis name V Vs v =
     (let v = printStr (name @ ''('') (v\<lparr>Depth := Depth v + 2\<rparr>) in
      do { v \<leftarrow> CtorArgPrinter env vis V Vs v;
           let v = printStr '')'' v;
           Some (v\<lparr>Depth := Depth v - 2\<rparr>) })"

definition visit_forward :: "dump_env \<Rightarrow> visit \<Rightarrow> nat \<Rightarrow> nat option \<Rightarrow> u64 \<Rightarrow> DumpVisitor \<Rightarrow> DumpVisitor option" where
  "visit_forward env vis a Ref Index v =
     (let v = printStr ''ForwardTemplateReference('' (v\<lparr>Depth := Depth v + 2\<rparr>) in
      do { v \<leftarrow> (if Ref \<noteq> None \<and> a \<notin> printing v
                then map_option (\<lambda>v. v\<lparr>printing := printing v - {a}\<rparr>)
                       (CtorArgPrinter env vis (Arg_node Ref) [] (v\<lparr>printing := insert a (printing v)\<rparr>))
                else CtorArgPrinter env vis (Arg_unsigned Index) [] v);
           let v = printStr '')'' v;
           Some (v\<lparr>Depth := Depth v - 2\<rparr>) })"

text \<open>Visiting a node; the number bounds how deep the visits nest, and \<open>None\<close> is that it was not enough.\<close>

fun visit_node :: "dump_env \<Rightarrow> nat \<Rightarrow> visit" where
  "visit_node env 0 a v = None"
| "visit_node env (Suc n) a v =
     (case heap env a of
        Plain_node name V Vs \<Rightarrow> visit_plain env (visit_node env n) name V Vs v
      | ForwardTemplateReference Ref Index \<Rightarrow> visit_forward env (visit_node env n) a Ref Index v)"

definition dump_tree :: "dump_env \<Rightarrow> nat \<Rightarrow> nat \<Rightarrow> nat set \<Rightarrow> DumpVisitor option" where
  "dump_tree env fuel a flags =
     map_option newLine (visit_node env fuel a \<lparr>Depth = 0, PendingNewline = False, printed = [], printing = flags\<rparr>)"

section \<open>Specification\<close>

fun allocate_all ::
  "(nat \<Rightarrow> bool) \<Rightarrow> u64 list \<Rightarrow> BumpPointerAllocator \<Rightarrow> ((nat \<times> u64) list \<times> BumpPointerAllocator) option" where
  "allocate_all ok [] a = Some ([], a)"
| "allocate_all ok (n # ns) a =
     do { (p, a) \<leftarrow> allocate ok n a; (ps, a) \<leftarrow> allocate_all ok ns a; Some (p # ps, a) }"

text \<open>The bytes of a pointer with a size.\<close>

definition bytes :: "nat \<times> u64 \<Rightarrow> nat \<Rightarrow> (nat \<times> nat) set" where
  "bytes p n = {(fst p, i) | i. unat (snd p) \<le> i \<and> i < unat (snd p) + n}"

text \<open>The memory of the blocks behind their headers, and the part of it that is handed out.\<close>

definition memory :: "BumpPointerAllocator \<Rightarrow> (nat \<times> nat) set" where
  "memory a = (\<Union>b \<in> set (BlockList a). {block b} \<times> {16..<unat (block_size b)})"

definition untouched :: "BumpPointerAllocator \<Rightarrow> (nat \<times> nat) set" where
  "untouched a = {(b, i). next_block a \<le> b} \<union>
     (case BlockList a of [] \<Rightarrow> {} | h # _ \<Rightarrow> {(block h, i) | i. 16 + unat (Current h) \<le> i})"

definition alloc_inv :: "BumpPointerAllocator \<Rightarrow> bool" where
  "alloc_inv a \<longleftrightarrow> BlockList a \<noteq> [] \<and> distinct (map block (BlockList a))
     \<and> block ` set (BlockList a) = {..<next_block a} \<and> freed a = []
     \<and> block_size (hd (BlockList a)) = AllocSize \<and> unat (Current (hd (BlockList a))) \<le> 4080
     \<and> 16 dvd unat (Current (hd (BlockList a)))"

text \<open>What one allocation promises.\<close>

definition alloc_post :: "BumpPointerAllocator \<Rightarrow> nat \<Rightarrow> nat \<times> u64 \<Rightarrow> BumpPointerAllocator \<Rightarrow> bool" where
  "alloc_post a n p a' \<longleftrightarrow> alloc_inv a' \<and> bytes p n \<subseteq> memory a' \<and> bytes p n \<subseteq> untouched a
     \<and> bytes p n \<inter> untouched a' = {} \<and> untouched a' \<subseteq> untouched a \<and> memory a \<subseteq> memory a' \<and> 16 dvd unat (snd p)"

text \<open>
  The nodes below a plain node, and the edges of a set of nodes, without those from a forward reference. A dump of a
  node of a set that is closed under all edges never leaves it.
\<close>

fun arg_nodes :: "dump_arg \<Rightarrow> nat set" where
  "arg_nodes (Arg_node N) = set_option N"
| "arg_nodes (Arg_array A) = \<Union> (set_option ` set A)"
| "arg_nodes (Arg_nos (NOS_node N)) = set_option N"
| "arg_nodes _ = {}"

fun node_args :: "dump_node \<Rightarrow> dump_arg list" where
  "node_args (Plain_node _ V Vs) = V # Vs"
| "node_args (ForwardTemplateReference _ _) = []"

fun forward_target :: "dump_node \<Rightarrow> nat set" where
  "forward_target (Plain_node _ _ _) = {}"
| "forward_target (ForwardTemplateReference Ref _) = set_option Ref"

definition below :: "dump_env \<Rightarrow> nat \<Rightarrow> nat set" where
  "below env a = \<Union> (arg_nodes ` set (node_args (heap env a)))"

definition closed_nodes :: "dump_env \<Rightarrow> nat set \<Rightarrow> bool" where
  "closed_nodes env S \<longleftrightarrow> (\<forall>a \<in> S. below env a \<subseteq> S \<and> forward_target (heap env a) \<subseteq> S)"

definition edges :: "dump_env \<Rightarrow> nat set \<Rightarrow> (nat \<times> nat) set" where
  "edges env S = {(a, c). a \<in> S \<and> c \<in> below env a}"

text \<open>What a piece of the dump promises: it returns, only adds to what is printed, and restores the rest.\<close>

definition keeps :: "DumpVisitor \<Rightarrow> DumpVisitor \<Rightarrow> bool" where
  "keeps v w \<longleftrightarrow> Depth w = Depth v \<and> printing w = printing v \<and> (\<exists>s. printed w = printed v @ s)"

definition returns :: "nat set \<Rightarrow> (DumpVisitor \<Rightarrow> DumpVisitor option) \<Rightarrow> bool" where
  "returns F f \<longleftrightarrow> (\<forall>v. printing v = F \<longrightarrow> (\<exists>w. f v = Some w \<and> keeps v w))"

definition extends :: "visit \<Rightarrow> visit \<Rightarrow> bool" where
  "extends vis vis' \<longleftrightarrow> (\<forall>a v w. vis a v = Some w \<longrightarrow> vis' a v = Some w)"

section \<open>Lemmas\<close>

lemma round_up_16_unat:
  assumes "unat N \<le> 2 ^ 32 - 16"
  shows "unat (round_up_16 N) = (unat N + 15) div 16 * 16"
proof -
  have m: "ucast (NOT (15 :: u32)) = (mask 32 :: u64) AND NOT (mask 4)"
    by (simp add: mask_eq_exp_minus_1)
  have N: "unat (N + 15) = unat N + 15"
    using assms by (simp add: unat_word_ariths)
  have "unat ((N + 15) AND mask 32) = unat N + 15"
    using assms by (simp add: N unsigned_take_bit_eq take_bit_nat_eq_self flip: take_bit_eq_mask)
  moreover have "round_up_16 N = ((N + 15) AND mask 32) AND NOT (mask 4)"
    by (simp only: round_up_16_def m and.assoc)
  ultimately show ?thesis
    by (simp only: unat_AND_NOT_mask) simp
qed

lemma round_up_16_bounds:
  assumes "unat N \<le> 2 ^ 32 - 16"
  shows "unat N \<le> unat (round_up_16 N)" "16 dvd unat (round_up_16 N)" "unat (round_up_16 N) \<le> 2 ^ 32"
proof -
  have "unat N \<le> (unat N + 15) div 16 * 16" "(unat N + 15) div 16 * 16 \<le> unat N + 15"
    by linarith+
  then show "unat N \<le> unat (round_up_16 N)" "16 dvd unat (round_up_16 N)" "unat (round_up_16 N) \<le> 2 ^ 32"
    using assms by (simp_all add: round_up_16_unat)
qed

text \<open>From 4 GiB on the upper half of a size is lost: such a request gets no memory at all.\<close>

lemma round_up_16_large: "round_up_16 (2 ^ 32) = 0"
  by (simp add: round_up_16_def)

lemma bump_post:
  assumes inv: "alloc_inv a" and fits: "unat N + unat (Current (hd (BlockList a))) \<le> 4080" and N: "16 dvd unat N"
  shows "\<exists>p a'. bump N a = Some (p, a') \<and> alloc_post a (unat N) p a'"
proof -
  obtain h bs where a: "BlockList a = h # bs"
    using inv by (cases "BlockList a") (auto simp: alloc_inv_def)
  have c: "unat (Current h + N) = unat (Current h) + unat N"
    using fits by (simp add: a unat_word_ariths)
  have o: "unat (16 + Current h :: u64) = 16 + unat (Current h)"
    using fits by (simp add: a unat_word_ariths)
  have p: "sizeof_BlockMeta + (Current h + N) - N = 16 + Current h"
    by (simp add: sizeof_BlockMeta_def)
  have sz: "unat (block_size h) = 4096"
    using inv by (simp add: alloc_inv_def a AllocSize_def)
  let ?a' = "a\<lparr>BlockList := h\<lparr>Current := Current h + N\<rparr> # bs\<rparr>"
  have "bump N a = Some ((block h, 16 + Current h), ?a')"
    by (simp add: bump_def a p)
  moreover have "alloc_inv ?a'"
    using inv fits N c by (simp add: alloc_inv_def a)
  moreover have "block h < next_block a"
    using inv by (auto simp: alloc_inv_def a)
  ultimately show ?thesis
    using inv fits c o sz
    by (auto simp: alloc_post_def bytes_def memory_def untouched_def alloc_inv_def a)
qed

lemma grow_post:
  assumes inv: "alloc_inv a" and ok: "ok (next_block a)"
  shows "\<exists>a'. grow ok a = Some a' \<and> alloc_inv a' \<and> Current (hd (BlockList a')) = 0
    \<and> untouched a' \<subseteq> untouched a \<and> memory a \<subseteq> memory a'"
  using assms
  by (auto simp: grow_def alloc_inv_def untouched_def memory_def lessThan_Suc split: list.split)

lemma massive_post:
  assumes inv: "alloc_inv a" and ok: "ok (next_block a)" and N: "unat N \<le> 2 ^ 32"
  shows "\<exists>p a'. allocateMassive ok N a = Some (p, a') \<and> alloc_post a (unat N) p a'"
proof -
  obtain h bs where a: "BlockList a = h # bs"
    using inv by (cases "BlockList a") (auto simp: alloc_inv_def)
  have n: "unat (N + 16) = unat N + 16"
    using N by (simp add: unat_word_ariths)
  have "next_block a \<notin> insert (block h) (block ` set bs)" "block h \<noteq> next_block a"
    using inv by (auto simp: alloc_inv_def a)
  moreover have "insert (next_block a) (insert (block h) (block ` set bs)) = {..<Suc (next_block a)}"
    using inv by (simp add: alloc_inv_def a lessThan_Suc)
  moreover have "allocateMassive ok N a = Some ((next_block a, 16),
      a\<lparr>BlockList := h # \<lparr>block = next_block a, block_size = N + 16, Current = 0\<rparr> # bs, next_block := next_block a + 1\<rparr>)"
    using ok by (simp add: allocateMassive_def a sizeof_BlockMeta_def Let_def)
  ultimately show ?thesis
    using inv n
    by (auto simp: alloc_post_def bytes_def memory_def untouched_def alloc_inv_def a insert_commute)
qed

lemma alloc_post_mono:
  assumes "alloc_post a n p a'" "m \<le> n"
  shows "alloc_post a m p a'"
proof -
  have "bytes p m \<subseteq> bytes p n"
    using assms(2) by (auto simp: bytes_def)
  then show ?thesis
    using assms(1) unfolding alloc_post_def by blast
qed

lemma allocate_post:
  assumes inv: "alloc_inv a" and ok: "\<And>b. ok b" and N: "unat N \<le> 2 ^ 32 - 16"
  shows "\<exists>p a'. allocate ok N a = Some (p, a') \<and> alloc_post a (unat N) p a'"
proof -
  let ?M = "round_up_16 N"
  obtain h bs where a: "BlockList a = h # bs"
    using inv by (cases "BlockList a") (auto simp: alloc_inv_def)
  note M = round_up_16_bounds [OF N]
  have c: "unat (Current h) \<le> 4080"
    using inv by (simp add: alloc_inv_def a)
  have u: "UsableAllocSize = 4080"
    by (simp add: UsableAllocSize_def AllocSize_def sizeof_BlockMeta_def)
  have s: "unat (?M + Current h) = unat ?M + unat (Current h)"
    using M(3) c by (simp add: unat_word_ariths)
  have "\<exists>p a'. allocate ok N a = Some (p, a') \<and> alloc_post a (unat ?M) p a'"
  proof (cases "?M + Current h \<ge> UsableAllocSize")
    case False
    then have "unat ?M + unat (Current h) \<le> 4080"
      using s by (simp add: u word_le_nat_alt)
    then show ?thesis
      using bump_post [OF inv _ M(2)] False by (simp add: allocate_def a)
  next
    case True
    show ?thesis
    proof (cases "?M > UsableAllocSize")
      case big: True
      then show ?thesis
        using True massive_post [of a ok, OF inv ok M(3)] by (simp add: allocate_def a)
    next
      case False
      obtain g where g: "grow ok a = Some g" "alloc_inv g" "Current (hd (BlockList g)) = 0"
          "untouched g \<subseteq> untouched a" "memory a \<subseteq> memory g"
        using grow_post [of a ok, OF inv ok] by blast
      obtain p a' where "bump ?M g = Some (p, a')" "alloc_post g (unat ?M) p a'"
        using bump_post [OF g(2) _ M(2)] False g(3) by (auto simp: u word_less_nat_alt)
      then show ?thesis
        using True False g by (auto simp: allocate_def a alloc_post_def)
    qed
  qed
  then show ?thesis
    using alloc_post_mono [OF _ M(1)] by blast
qed

lemma allocate_all_post:
  assumes "alloc_inv a" "\<And>b. ok b" "\<forall>n \<in> set ns. unat n \<le> 2 ^ 32 - 16"
  shows "\<exists>ps a'. allocate_all ok ns a = Some (ps, a') \<and> alloc_inv a' \<and> memory a \<subseteq> memory a' \<and> untouched a' \<subseteq> untouched a
    \<and> list_all2 (\<lambda>n p. bytes p (unat n) \<subseteq> memory a' \<inter> untouched a \<and> 16 dvd unat (snd p)) ns ps
    \<and> (\<forall>j < length ns. \<forall>i < j. bytes (ps ! i) (unat (ns ! i)) \<inter> bytes (ps ! j) (unat (ns ! j)) = {})"
  using assms(1,3)
proof (induction ns arbitrary: a)
  case (Cons n ns)
  obtain p b where pb: "allocate ok n a = Some (p, b)" "alloc_post a (unat n) p b"
    using allocate_post [of a ok n, OF Cons.prems(1) assms(2)] Cons.prems(2) by (meson list.set_intros(1))
  then have b: "alloc_inv b"
    by (simp add: alloc_post_def)
  obtain ps a' where q: "allocate_all ok ns b = Some (ps, a')" "alloc_inv a'" "memory b \<subseteq> memory a'"
      "untouched a' \<subseteq> untouched b"
      "list_all2 (\<lambda>n p. bytes p (unat n) \<subseteq> memory a' \<inter> untouched b \<and> 16 dvd unat (snd p)) ns ps"
      "\<forall>j < length ns. \<forall>i < j. bytes (ps ! i) (unat (ns ! i)) \<inter> bytes (ps ! j) (unat (ns ! j)) = {}"
    using Cons.IH [OF b] Cons.prems(2) by auto
  have "bytes p (unat n) \<inter> bytes (ps ! j) (unat (ns ! j)) = {}" if "j < length ns" for j
    using list_all2_nthD [OF q(5) that] pb(2) by (auto simp: alloc_post_def)
  then have "bytes ((p # ps) ! i) (unat ((n # ns) ! i)) \<inter> bytes ((p # ps) ! j) (unat ((n # ns) ! j)) = {}"
    if "j < length (n # ns)" "i < j" for i j
    using that q(6) by (cases j; cases i) auto
  moreover have "list_all2 (\<lambda>n p. bytes p (unat n) \<subseteq> memory a' \<inter> untouched a \<and> 16 dvd unat (snd p)) ns ps"
    using q(5) pb(2) by (rule_tac list_all2_mono [OF q(5)]) (auto simp: alloc_post_def)
  ultimately show ?case
    using pb q by (intro exI [of _ "p # ps"] exI [of _ a']) (auto simp: alloc_post_def)
qed simp

lemma alloc_inv_new: "alloc_inv BumpPointerAllocator_new"
  by (auto simp: alloc_inv_def BumpPointerAllocator_new_def)

text \<open>A discriminator is skipped from the front, and only whole ones are.\<close>

lemma parse_discriminator_suffix: "\<exists>d. s = d @ parse_discriminator s"
proof -
  have drop: "\<exists>d. u = d @ v" if "dropWhile is_dec u = e # v" for u e v
    using that takeWhile_dropWhile_id [of is_dec u] by (metis append.assoc append_Cons append_Nil)
  show ?thesis
    unfolding parse_discriminator_def
    by (auto split: list.splits intro: exI [of _ "[]"] dest!: drop)
qed

lemma parse_discriminator_forms:
  assumes "ds \<noteq> []" "list_all is_dec ds"
  shows "parse_discriminator ([CHR ''_'', hd ds] @ t) = t"
    and "parse_discriminator (''__'' @ ds @ ''_'' @ t) = t"
    and "parse_discriminator ds = []"
proof -
  have u: "\<not> is_dec (CHR ''_'')"
    by code_simp
  have d: "is_dec (hd ds)" "hd ds \<noteq> CHR ''_''" "dropWhile is_dec (tl ds) = []" "dropWhile is_dec (ds @ CHR ''_'' # t) = CHR ''_'' # t"
    using assms u by (cases ds; auto simp: list_all_iff dropWhile_append)+
  show "parse_discriminator ([CHR ''_'', hd ds] @ t) = t" "parse_discriminator (''__'' @ ds @ ''_'' @ t) = t"
    using u d by (simp_all add: parse_discriminator_def)
  show "parse_discriminator ds = []"
    using assms(1) d by (cases ds) (simp_all add: parse_discriminator_def)
qed

text \<open>A result is returned exactly on success, and a null buffer argument never makes the arguments invalid.\<close>

lemma cxa_demangle_result:
  "cxa_demangle parse buffer name Buf N = (st, res, n) \<Longrightarrow> (res \<noteq> None \<longleftrightarrow> st = demangle_success)
    \<and> (st = demangle_invalid_args \<longleftrightarrow> name = None \<or> (Buf \<noteq> None \<and> N = None))"
  by (auto simp: cxa_demangle_def split: option.splits if_splits)

subsection \<open>The dump\<close>

lemma keeps_trans: "keeps u v \<Longrightarrow> keeps v w \<Longrightarrow> keeps u w"
  by (auto simp: keeps_def)

lemma keeps_printStr [simp]: "keeps v (printStr s v)"
  by (auto simp: keeps_def printStr_def)

lemma keeps_newLine [simp]: "keeps v (newLine v)"
  by (auto simp: keeps_def newLine_def printStr_def)

lemma keeps_print_string [simp]: "keeps v (print_string s v)"
  by (simp add: print_string_def)

lemma keeps_pending [simp]: "keeps u (v\<lparr>PendingNewline := b\<rparr>) = keeps u v"
  by (simp add: keeps_def)

lemma keeps_refl [simp]: "keeps v v"
  by (simp add: keeps_def)

lemma keeps_comma [simp]: "keeps v (comma b v)"
  by (simp add: comma_def keeps_trans [OF keeps_printStr keeps_newLine])

lemma keeps_printing: "keeps v w \<Longrightarrow> printing w = printing v"
  by (simp add: keeps_def)

lemma returnsI: "(\<And>v. printing v = F \<Longrightarrow> \<exists>w. f v = Some w \<and> keeps v w) \<Longrightarrow> returns F f"
  by (simp add: returns_def)

lemma returnsE:
  assumes "returns F f" "printing v = F"
  obtains w where "f v = Some w" "keeps v w" "printing w = F"
  using assms by (auto simp: returns_def keeps_def)

lemma returns_Some: "(\<And>v. keeps v (g v)) \<Longrightarrow> returns F (\<lambda>v. Some (g v))"
  by (simp add: returns_def)

lemma returns_bind:
  assumes "returns F f" "returns F g"
  shows "returns F (\<lambda>v. f v \<bind> g)"
proof (rule returnsI)
  fix v :: DumpVisitor assume "printing v = F"
  with assms(1) obtain u where u: "f v = Some u" "keeps v u" "printing u = F"
    by (rule returnsE)
  from assms(2) u(3) obtain w where "g u = Some w" "keeps u w"
    by (rule returnsE)
  with u show "\<exists>w. f v \<bind> g = Some w \<and> keeps v w"
    by (auto intro: keeps_trans)
qed

lemma returns_after:
  assumes "returns F f" "\<And>v. keeps v (g v)"
  shows "returns F (\<lambda>v. f (g v))"
  using returns_bind [OF returns_Some [of g F, OF assms(2)] assms(1)] by simp

lemma returns_pending:
  assumes "returns F f"
  shows "returns F (\<lambda>v. map_option (\<lambda>v. if b then v\<lparr>PendingNewline := True\<rparr> else v) (f v))"
proof -
  have "returns F (\<lambda>v. f v \<bind> (\<lambda>v. Some (if b then v\<lparr>PendingNewline := True\<rparr> else v)))"
    by (rule returns_bind [OF assms returns_Some]) simp
  then show ?thesis
    by (simp add: map_conv_bind_option comp_def)
qed

text \<open>The \<open>Depth\<close> is raised, something printed, and the \<open>Depth\<close> lowered again.\<close>

lemma returns_nested:
  assumes "returns F f"
  shows "returns F (\<lambda>v. f (printStr s (v\<lparr>Depth := Depth v + d\<rparr>)) 
    \<bind> (\<lambda>v. let v = printStr t v in Some (v\<lparr>Depth := Depth v - d\<rparr>)))"
proof (rule returnsI)
  fix v :: DumpVisitor assume "printing v = F"
  then have "printing (printStr s (v\<lparr>Depth := Depth v + d\<rparr>)) = F"
    by (simp add: printStr_def)
  with assms obtain w where "f (printStr s (v\<lparr>Depth := Depth v + d\<rparr>)) = Some w"
      "keeps (printStr s (v\<lparr>Depth := Depth v + d\<rparr>)) w"
    by (rule returnsE)
  then show "\<exists>w. f (printStr s (v\<lparr>Depth := Depth v + d\<rparr>)) \<bind>
      (\<lambda>v. let v = printStr t v in Some (v\<lparr>Depth := Depth v - d\<rparr>)) = Some w \<and> keeps v w"
    by (auto simp: keeps_def printStr_def)
qed

lemma returns_node: "\<forall>a \<in> set_option N. returns F (vis a) \<Longrightarrow> returns F (print_node vis N)"
  by (cases N) (auto simp: print_node_def returns_def)

lemma print_rest_Cons:
  "print_rest vis (N # A) =
     (\<lambda>v. print_node vis N (comma True v) \<bind> (\<lambda>v. print_rest vis A (v\<lparr>PendingNewline := True\<rparr>)))"
  by (simp add: fun_eq_iff)

lemma returns_rest: "\<forall>a \<in> \<Union> (set_option ` set A). returns F (vis a) \<Longrightarrow> returns F (print_rest vis A)"
proof (induction A)
  case Nil
  then show ?case by (simp add: returns_def)
next
  case (Cons N A)
  have "returns F (\<lambda>v. print_node vis N (comma True v))"
    by (rule returns_after) (use Cons.prems in \<open>auto intro: returns_node\<close>)
  moreover have "returns F (\<lambda>v. print_rest vis A (v\<lparr>PendingNewline := True\<rparr>))"
    by (rule returns_after) (use Cons in auto)
  ultimately show ?case
    unfolding print_rest_Cons by (rule returns_bind)
qed

lemma returns_array:
  assumes "\<forall>a \<in> \<Union> (set_option ` set A). returns F (vis a)"
  shows "returns F (print_array vis A)"
proof -
  have "returns F (\<lambda>v. case A of [] \<Rightarrow> Some v | N # A \<Rightarrow> print_node vis N v \<bind> print_rest vis A)"
    using assms by (cases A) (auto intro!: returns_bind returns_node returns_rest returns_Some)
  from returns_nested [OF this, of "''{''" 1 "''}''"] show ?thesis
    by (simp add: print_array_def [abs_def] Let_def)
qed

lemma print_arg_nodes:
  "print_arg env vis (Arg_node N) = print_node vis N"
  "print_arg env vis (Arg_array A) = print_array vis A"
  "print_arg env vis (Arg_nos (NOS_node N)) = print_node vis N"
  by (simp_all add: fun_eq_iff)

lemma returns_arg: "\<forall>a \<in> arg_nodes V. returns F (vis a) \<Longrightarrow> returns F (print_arg env vis V)"
  by (cases V rule: arg_nodes.cases)
    (simp_all add: print_arg_nodes returns_node returns_array, simp_all add: returns_def)

lemma returns_printWithPendingNewline:
  "\<forall>a \<in> arg_nodes V. returns F (vis a) \<Longrightarrow> returns F (printWithPendingNewline env vis V)"
  using returns_pending [OF returns_arg] by (simp add: printWithPendingNewline_def [abs_def])

lemma returns_in_order:
  "\<forall>a \<in> \<Union> (arg_nodes ` set Vs). returns F (vis a) \<Longrightarrow> returns F (print_in_order env vis Vs)"
proof (induction Vs)
  case Nil
  then show ?case by (simp add: returns_def)
next
  case (Cons V Vs)
  have "returns F (printWithComma env vis V)"
    unfolding printWithComma_def [abs_def]
    by (rule returns_after) (use Cons.prems in \<open>auto intro: returns_printWithPendingNewline\<close>)
  moreover have "returns F (print_in_order env vis Vs)"
    using Cons by simp
  ultimately have "returns F (\<lambda>v. printWithComma env vis V v \<bind> print_in_order env vis Vs)"
    by (rule returns_bind)
  then show ?case
    by (simp add: returns_def)
qed

lemma returns_CtorArgPrinter:
  assumes "\<forall>a \<in> \<Union> (arg_nodes ` set (V # Vs)). returns F (vis a)"
  shows "returns F (CtorArgPrinter env vis V Vs)"
proof -
  have "returns F (\<lambda>v. printWithPendingNewline env vis V v \<bind> print_in_order env vis Vs)"
    using assms by (intro returns_bind returns_printWithPendingNewline returns_in_order) auto
  then have "returns F (\<lambda>v. printWithPendingNewline env vis V (if anyWantNewline (V # Vs) then newLine v else v)
      \<bind> print_in_order env vis Vs)"
    by (rule returns_after [where g = "\<lambda>v. if anyWantNewline (V # Vs) then newLine v else v"]) simp
  then show ?thesis
    by (simp add: CtorArgPrinter_def [abs_def] Let_def)
qed

lemma returns_flag:
  assumes "returns (insert a F) f" "a \<notin> F"
  shows "returns F (\<lambda>v. map_option (\<lambda>v. v\<lparr>printing := printing v - {a}\<rparr>) (f (v\<lparr>printing := insert a (printing v)\<rparr>)))"
proof (rule returnsI)
  fix v :: DumpVisitor assume v: "printing v = F"
  then have "printing (v\<lparr>printing := insert a (printing v)\<rparr>) = insert a F"
    by simp
  with assms(1) obtain w where "f (v\<lparr>printing := insert a (printing v)\<rparr>) = Some w"
      "keeps (v\<lparr>printing := insert a (printing v)\<rparr>) w"
    by (rule returnsE)
  with assms(2) v show "\<exists>w. map_option (\<lambda>v. v\<lparr>printing := printing v - {a}\<rparr>)
      (f (v\<lparr>printing := insert a (printing v)\<rparr>)) = Some w \<and> keeps v w"
    by (auto simp: keeps_def)
qed

lemma returns_plain:
  assumes "\<forall>c \<in> \<Union> (arg_nodes ` set (V # Vs)). returns F (vis c)"
  shows "returns F (visit_plain env vis name V Vs)"
  using returns_nested [OF returns_CtorArgPrinter [OF assms, of env], of "name @ ''(''" 2 "'')''"]
  by (simp add: visit_plain_def [abs_def] Let_def)

lemma returns_forward:
  assumes "a \<notin> F \<Longrightarrow> \<forall>c \<in> set_option Ref. returns (insert a F) (vis c)"
  shows "returns F (visit_forward env vis a Ref Index)"
proof -
  define g where "g v = (if Ref \<noteq> None \<and> a \<notin> printing v
      then map_option (\<lambda>v. v\<lparr>printing := printing v - {a}\<rparr>)
             (CtorArgPrinter env vis (Arg_node Ref) [] (v\<lparr>printing := insert a (printing v)\<rparr>))
      else CtorArgPrinter env vis (Arg_unsigned Index) [] v)" for v :: DumpVisitor
  have "returns F g"
  proof (cases "Ref \<noteq> None \<and> a \<notin> F")
    case True
    then have "returns (insert a F) (CtorArgPrinter env vis (Arg_node Ref) [])"
      using assms by (intro returns_CtorArgPrinter) simp
    from returns_flag [OF this] True show ?thesis
      by (auto simp: returns_def g_def)
  next
    case False
    have "returns F (CtorArgPrinter env vis (Arg_unsigned Index) [])"
      by (rule returns_CtorArgPrinter) simp
    with False show ?thesis
      by (auto simp: returns_def g_def)
  qed
  from returns_nested [OF this, of "''ForwardTemplateReference(''" 2 "'')''"] show ?thesis
    by (simp add: visit_forward_def [abs_def] Let_def g_def)
qed

text \<open>
  A forward reference is followed at most once on the way down, and between two of them the rank decreases.
\<close>

lemma visit_returns:
  assumes "finite S" "closed_nodes env S" "\<And>a c. (a, c) \<in> edges env S \<Longrightarrow> rank c < rank a" "\<And>a. a \<in> S \<Longrightarrow> rank a < R"
  shows "a \<in> S \<Longrightarrow> card (S - F) * R + rank a < n \<Longrightarrow> returns F (visit_node env n a)"
proof (induction n arbitrary: a F)
  case (Suc n)
  show ?case
  proof (cases "heap env a")
    case (Plain_node name V Vs)
    have "returns F (visit_node env n c)" if "c \<in> \<Union> (arg_nodes ` set (V # Vs))" for c
    proof -
      have "c \<in> below env a"
        using that Plain_node by (simp add: below_def)
      with Suc.prems assms(2,3) show ?thesis
        by (intro Suc.IH) (fastforce simp: closed_nodes_def edges_def)+
    qed
    then show ?thesis
      using returns_plain [of V Vs F "visit_node env n" env name] Plain_node by (simp add: returns_def)
  next
    case (ForwardTemplateReference Ref Index)
    have "returns (insert a F) (visit_node env n c)" if "a \<notin> F" "c \<in> set_option Ref" for c
    proof (rule Suc.IH)
      show c: "c \<in> S"
        using that Suc.prems assms(2) ForwardTemplateReference by (force simp: closed_nodes_def)
      have "card (S - insert a F) < card (S - F)"
        using that Suc.prems assms(1) by (intro psubset_card_mono) auto
      then have "card (S - insert a F) * R + R \<le> card (S - F) * R"
        using mult_le_mono1 [of "Suc (card (S - insert a F))" "card (S - F)" R] by simp
      with assms(4) [OF c] Suc.prems show "card (S - insert a F) * R + rank c < n"
        by linarith
    qed
    then show ?thesis
      using returns_forward [of a F Ref "visit_node env n" env Index] ForwardTemplateReference by (simp add: returns_def)
  qed
qed simp

text \<open>The number of nodes reachable without following a forward reference is a rank.\<close>

lemma reachable_rank:
  assumes "finite S" "closed_nodes env S" "acyclic (edges env S)"
  defines "rank \<equiv> \<lambda>a. card ((edges env S)\<^sup>+ `` {a})"
  shows "(a, c) \<in> edges env S \<Longrightarrow> rank c < rank a" and "a \<in> S \<Longrightarrow> rank a < card S"
proof -
  have sub: "edges env S \<subseteq> S \<times> S"
    using assms(2) by (auto simp: edges_def closed_nodes_def)
  then have im: "(edges env S)\<^sup>+ `` {b} \<subseteq> S" for b
    using trancl_subset_Sigma [OF sub] by blast
  show "rank c < rank a" if "(a, c) \<in> edges env S"
  proof -
    have "c \<notin> (edges env S)\<^sup>+ `` {c}" "c \<in> (edges env S)\<^sup>+ `` {a}"
      using that assms(3) by (simp_all add: acyclic_def r_into_trancl')
    moreover have "(edges env S)\<^sup>+ `` {c} \<subseteq> (edges env S)\<^sup>+ `` {a}"
      using trancl_into_trancl2 [OF that] by blast
    ultimately show ?thesis
      unfolding rank_def using finite_subset [OF im assms(1)] by (intro psubset_card_mono) blast+
  qed
  show "rank a < card S" if "a \<in> S"
  proof -
    have "a \<notin> (edges env S)\<^sup>+ `` {a}"
      using assms(3) by (simp add: acyclic_def)
    then show ?thesis
      unfolding rank_def using that im [of a] assms(1) by (intro psubset_card_mono) blast+
  qed
qed

text \<open>A visit that returned gives the same with a larger bound.\<close>

lemma extends_node: "extends vis vis' \<Longrightarrow> print_node vis N v = Some w \<Longrightarrow> print_node vis' N v = Some w"
  by (cases N) (auto simp: print_node_def extends_def)

lemma extends_rest: "extends vis vis' \<Longrightarrow> print_rest vis A v = Some w \<Longrightarrow> print_rest vis' A v = Some w"
  by (induction A arbitrary: v) (auto simp: bind_eq_Some_conv dest: extends_node)

lemma extends_array: "extends vis vis' \<Longrightarrow> print_array vis A v = Some w \<Longrightarrow> print_array vis' A v = Some w"
  by (cases A) (auto simp: print_array_def Let_def bind_eq_Some_conv, blast dest: extends_node extends_rest)

lemma extends_arg: "extends vis vis' \<Longrightarrow> print_arg env vis V v = Some w \<Longrightarrow> print_arg env vis' V v = Some w"
  by (cases V rule: arg_nodes.cases) (auto simp: extends_node extends_array)

lemma extends_pending:
  "extends vis vis' \<Longrightarrow> printWithPendingNewline env vis V v = Some w \<Longrightarrow> printWithPendingNewline env vis' V v = Some w"
  by (auto simp: printWithPendingNewline_def dest: extends_arg)

lemma extends_in_order:
  "extends vis vis' \<Longrightarrow> print_in_order env vis Vs v = Some w \<Longrightarrow> print_in_order env vis' Vs v = Some w"
  by (induction Vs arbitrary: v) (auto simp: printWithComma_def bind_eq_Some_conv dest: extends_pending)

lemma extends_CtorArgPrinter:
  "extends vis vis' \<Longrightarrow> CtorArgPrinter env vis V Vs v = Some w \<Longrightarrow> CtorArgPrinter env vis' V Vs v = Some w"
  unfolding CtorArgPrinter_def Let_def bind_eq_Some_conv by (blast dest: extends_pending extends_in_order)

lemma extends_visit: "extends (visit_node env n) (visit_node env (Suc n))"
proof (induction n)
  case 0
  then show ?case by (simp add: extends_def)
next
  case (Suc n)
  have "visit_node env (Suc (Suc n)) a v = Some w" if "visit_node env (Suc n) a v = Some w" for a v w
  proof (cases "heap env a")
    case (Plain_node name V Vs)
    with that extends_CtorArgPrinter [OF Suc] show ?thesis
      unfolding visit_node.simps(2) [of _ n] visit_node.simps(2) [of _ "Suc n"]
      by (auto simp: visit_plain_def Let_def bind_eq_Some_conv simp del: visit_node.simps)
  next
    case (ForwardTemplateReference Ref Index)
    with that extends_CtorArgPrinter [OF Suc] show ?thesis
      unfolding visit_node.simps(2) [of _ n] visit_node.simps(2) [of _ "Suc n"]
      by (fastforce simp: visit_forward_def Let_def bind_eq_Some_conv simp del: visit_node.simps split: if_splits)
  qed
  then show ?case
    unfolding extends_def by blast
qed

lemma visit_mono: "visit_node env n a v = Some w \<Longrightarrow> n \<le> m \<Longrightarrow> visit_node env m a v = Some w"
  by (rotate_tac, induction m rule: dec_induct) (use extends_visit in \<open>unfold extends_def, blast+\<close>)

section \<open>Properties\<close>



text \<open>
  C38. The dump of a syntax tree ends although forward references may lead back to a node that contains them. Take any
  finite set of nodes that is closed under all references and whose other references have no cycle. Then visits nest at
  most as deep as the number of nodes times one more than that number, whichever forward references are already
  marked, and the result does not depend on a larger bound. The visitor is back at depth 0, and exactly the forward
  references that were marked before are marked after.
\<close>

theorem dump_terminates:
  assumes "finite S" "a \<in> S" "closed_nodes env S" "acyclic (edges env S)"
  shows "\<exists>v. Depth v = 0 \<and> printing v = flags
    \<and> (\<forall>n. card S * (card S + 1) \<le> n \<longrightarrow> dump_tree env n a flags = Some v)"
proof -
  let ?rank = "\<lambda>a. card ((edges env S)\<^sup>+ `` {a})" and ?n = "card S * (card S + 1)"
  let ?v = "\<lparr>Depth = 0, PendingNewline = False, printed = [], printing = flags\<rparr>"
  note rank = reachable_rank [OF assms(1,3,4)]
  have "card (S - flags) * card S \<le> card S * card S"
    using assms(1) by (intro mult_le_mono1 card_mono) auto
  then have "card (S - flags) * card S + ?rank a < ?n"
    using rank(2) [OF assms(2)] unfolding distrib_left mult_1_right by linarith
  with rank have "returns flags (visit_node env ?n a)"
    using visit_returns [of S env ?rank "card S" a flags ?n] assms(1-3) by blast
  then obtain w where w: "visit_node env ?n a ?v = Some w" "keeps ?v w"
    by (rule returnsE [of _ _ ?v]) simp
  have "Depth (newLine w) = 0 \<and> printing (newLine w) = flags"
    using keeps_trans [OF w(2) keeps_newLine] by (simp add: keeps_def)
  with visit_mono [OF w(1)] show ?thesis
    by (auto simp: dump_tree_def)
qed

text \<open>A node that contains a forward reference to itself.\<close>

theorem dump_terminates_witness:
  "\<exists>v. printing v = {} \<and> dump_tree \<lparr>heap = (\<lambda>a. if a = 0 then Plain_node ''NameType'' (Arg_node (Some 1)) [Arg_bool True]
        else ForwardTemplateReference (Some 0) 7), QualConst = 1, QualVolatile = 2, QualRestrict = 4\<rparr> 6 0 {} = Some v"
proof -
  let ?env = "\<lparr>heap = (\<lambda>a. if a = 0 then Plain_node ''NameType'' (Arg_node (Some 1)) [Arg_bool True]
        else ForwardTemplateReference (Some 0) 7), QualConst = 1, QualVolatile = 2, QualRestrict = 4\<rparr>"
  have "edges ?env {0, 1} = {(0, 1)}"
    by (auto simp: edges_def below_def split: if_splits)
  moreover have "acyclic {(0 :: nat, 1 :: nat)}"
    by (simp add: acyclic_insert) (simp add: acyclic_def)
  moreover have "closed_nodes ?env {0, 1}"
    by (simp add: closed_nodes_def below_def)
  ultimately show ?thesis
    using dump_terminates [of "{0, 1}" 0 ?env "{}"] by auto
qed

end
