(* ===== verification/Shims.thy ===== *)
theory Shims
  imports HostTools
begin

text \<open>
  The small programs and libraries around prebuilt code: the sample rate of \<open>src/shims/libaudioparams\<close>, the looper of
  \<open>src/shims/sensorsndkbridge\<close>, the stub of \<open>src/shims/libepicoperator\<close>, and the property loader
  \<open>src/ril/secril_config_svc\<close>. The functions of the system libraries are arguments.
\<close>

section \<open>The audio parameters\<close>

text \<open>
  \<open>str_parms_get_str\<close> is an argument: \<open>None\<close> is \<open>-ENOENT\<close>, otherwise the result and the text it stores, which is cut
  to the length. \<open>strlcpy\<close> stores at most one character less than the length and returns the length of the source.
\<close>

definition strlcpy :: "string \<Rightarrow> nat \<Rightarrow> string \<Rightarrow> int \<times> string" where
  "strlcpy src len val = (int (length src), if len = 0 then val else take (len - 1) src)"

definition str_parms_get_mod ::
  "(string \<Rightarrow> nat \<Rightarrow> (int \<times> string) option) \<Rightarrow> string \<Rightarrow> string \<Rightarrow> nat \<Rightarrow> (int \<times> string) option" where
  "str_parms_get_mod get_str key val len =
     (if key = ''g_sco_samplerate''
      then (case get_str ''bt_wbs'' 4 of
              None \<Rightarrow> None
            | Some (_, wb) \<Rightarrow> Some (strlcpy (if wb = ''on'' then ''16000'' else ''8000'') len val))
      else get_str key len)"

section \<open>The property loader\<close>

text \<open>The properties that are set, in order; whether setting one succeeded is not looked at.\<close>

fun load_lines :: "(string \<Rightarrow> string \<Rightarrow> string list) \<Rightarrow> string list \<Rightarrow> (string \<times> string) list" where
  "load_lines Split [] = []"
| "load_lines Split (line # ls) =
     (if line = [] then []
      else case Split line ''='' of [k, v] \<Rightarrow> (k, v) # load_lines Split ls | _ \<Rightarrow> load_lines Split ls)"

definition LoadProperties :: "(string \<Rightarrow> string \<Rightarrow> string list) \<Rightarrow> string \<Rightarrow> (string \<times> string) list" where
  "LoadProperties Split data = load_lines Split (Split data [CHR 0x0A])"

definition secril_main ::
  "(string \<Rightarrow> string \<Rightarrow> string list) \<Rightarrow> (string \<Rightarrow> bool) \<Rightarrow> (string \<Rightarrow> string option) \<Rightarrow> string list \<Rightarrow> (string \<times> string) list" where
  "secril_main Split good ReadFileToString argv =
     (let prop = (if length argv > 1 \<and> argv ! 1 = ''NetworkConfig'' then ''telephony.prop'' else ''factory.prop'');
          prop = (if good (''/mnt/vendor/efs/'' @ prop) then ''/mnt/vendor/efs/'' @ prop else ''/efs/'' @ prop)
      in case ReadFileToString prop of
           Some content \<Rightarrow> LoadProperties Split (takeWhile (\<lambda>c. c \<noteq> CHR 0x00) content)
         | None \<Rightarrow> if drop (length prop - 12) prop = ''factory.prop''
                   then LoadProperties Split ''ro.vendor.multisim.simslotcount=1'' else [])"

section \<open>The camera's looper\<close>

text \<open>
  The loopers that are allocated. A null pointer is \<open>None\<close>; deleting or polling a looper that is not allocated is
  undefined, as is polling through a null pointer.
\<close>

record loopers =
  live :: "nat set"
  next_looper :: nat

definition ALooper_forCamera :: "loopers \<Rightarrow> nat option \<times> loopers" where
  "ALooper_forCamera l = (Some (next_looper l), \<lparr>live = insert (next_looper l) (live l), next_looper = next_looper l + 1\<rparr>)"

definition ALooper_release_forCamera :: "nat option \<Rightarrow> loopers \<Rightarrow> (int \<times> loopers) option" where
  "ALooper_release_forCamera sLooper l =
     (case sLooper of None \<Rightarrow> Some (0, l)
      | Some a \<Rightarrow> if a \<in> live l then Some (0, l\<lparr>live := live l - {a}\<rparr>) else None)"

definition ALooper_pollOnce_camera :: "(nat \<Rightarrow> int \<Rightarrow> 'r) \<Rightarrow> nat option \<Rightarrow> int \<Rightarrow> loopers \<Rightarrow> 'r option" where
  "ALooper_pollOnce_camera pollOnce sLooper timeoutMillis l =
     (case sLooper of None \<Rightarrow> None
      | Some a \<Rightarrow> if a \<in> live l then Some (pollOnce a timeoutMillis) else None)"

definition createOperator :: "int \<Rightarrow> u32" where
  "createOperator param_1 = 0"

section \<open>Lemmas\<close>

text \<open>The loader sets what is before the first empty line, and nothing behind it.\<close>

lemma load_lines_stop: "load_lines Split (ls @ [] # ms) = load_lines Split ls"
  by (induction ls) (auto split: list.split)

lemma load_lines_sound: "(k, v) \<in> set (load_lines Split ls) \<Longrightarrow> \<exists>l \<in> set ls. l \<noteq> [] \<and> Split l ''='' = [k, v]"
  by (induction ls) (auto split: list.splits if_splits)

text \<open>A new looper can be polled and released once; the others stay as they are.\<close>

lemma looper_life:
  assumes "\<forall>a \<in> live l. a < next_looper l"
  shows "ALooper_forCamera l = (Some a, m) \<Longrightarrow> a \<notin> live l \<and> ALooper_pollOnce_camera p (Some a) t m = Some (p a t)
    \<and> ALooper_release_forCamera (Some a) m = Some (0, l\<lparr>next_looper := next_looper l + 1\<rparr>)"
  using assms by (auto simp: ALooper_forCamera_def ALooper_pollOnce_camera_def ALooper_release_forCamera_def)

end
