(* ===== verification/Extract.thy ===== *)
theory Extract
  imports HostTools
begin

text \<open>
  The scripts that extract the vendor's files, \<open>src/extract-files.sh\<close> and \<open>src/setup-makefiles.sh\<close>: the options, the
  patches of \<open>blob_fixup\<close>, and the sequence of commands. The helper \<open>extract_utils.sh\<close> and the script of the device are
  not in the repository; what is called of them is a command of the trace. Under \<open>set -e\<close> the first command that fails
  ends a script.
\<close>

section \<open>Patterns of case\<close>

text \<open>In a pattern of \<open>case\<close> a star also matches slashes.\<close>

datatype glob = Lit char | Star

definition glob_of :: "string \<Rightarrow> glob list" where
  "glob_of p = map (\<lambda>c. if c = CHR ''*'' then Star else Lit c) p"

fun glob_match :: "glob list \<Rightarrow> string \<Rightarrow> bool" where
  "glob_match [] s = (s = [])"
| "glob_match (Lit c # p) [] = False"
| "glob_match (Lit c # p) (d # s) = (c = d \<and> glob_match p s)"
| "glob_match (Star # p) [] = glob_match p []"
| "glob_match (Star # p) (d # s) = (glob_match p (d # s) \<or> glob_match (Star # p) s)"

section \<open>Patches\<close>

datatype patchelf = Replace_needed string string string | Add_needed string string

fun first_case :: "(string \<times> 'a) list \<Rightarrow> string \<Rightarrow> 'a option" where
  "first_case [] w = None"
| "first_case ((p, x) # cs) w = (if glob_match (glob_of p) w then Some x else first_case cs w)"

definition fixup_cases :: "string \<Rightarrow> (string \<times> patchelf) list" where
  "fixup_cases file =
     [(''vendor/bin/hw/rild'', Replace_needed ''libril.so'' ''libril-samsung.so'' file),
      (''vendor/lib*/libsensorlistener.so'', Add_needed ''libshim_sensorndkbridge.so'' file),
      (''vendor/lib*/sensors.*.so'', Replace_needed ''libutils.so'' ''libutils-v32.so'' file),
      (''vendor/lib*/libsensorlistener.so'', Replace_needed ''libutils.so'' ''libutils-v32.so'' file)]"

definition blob_fixup :: "string \<Rightarrow> string \<Rightarrow> patchelf list" where
  "blob_fixup name file = (case first_case (fixup_cases file) name of None \<Rightarrow> [] | Some x \<Rightarrow> [x])"

section \<open>Options\<close>

record extract_opts =
  CLEAN_VENDOR :: bool
  ONLY_COMMON :: bool
  ONLY_TARGET :: bool
  KANG :: string
  SECTION :: string
  SRC :: string

text \<open>\<open>SRC\<close> is not set by the script and has the value of the environment.\<close>

definition extract_defaults :: "string \<Rightarrow> extract_opts" where
  "extract_defaults src =
     \<lparr>CLEAN_VENDOR = True, ONLY_COMMON = False, ONLY_TARGET = False, KANG = [], SECTION = [], SRC = src\<rparr>"

text \<open>After a last \<open>-s\<close> nothing is left for the second \<open>shift\<close>, which fails.\<close>

fun extract_args :: "string list \<Rightarrow> extract_opts \<Rightarrow> extract_opts run" where
  "extract_args [] v = Goes v"
| "extract_args (arg # rest) v =
     (if arg = ''--only-common'' then extract_args rest (v\<lparr>ONLY_COMMON := True\<rparr>)
      else if arg = ''--only-target'' then extract_args rest (v\<lparr>ONLY_TARGET := True\<rparr>)
      else if arg = ''-n'' \<or> arg = ''--no-cleanup'' then extract_args rest (v\<lparr>CLEAN_VENDOR := False\<rparr>)
      else if arg = ''-k'' \<or> arg = ''--kang'' then extract_args rest (v\<lparr>KANG := ''--kang''\<rparr>)
      else if arg = ''-s'' \<or> arg = ''--section''
      then (case rest of [] \<Rightarrow> Exits 1
            | val # rest' \<Rightarrow> extract_args rest' (v\<lparr>SECTION := val, CLEAN_VENDOR := False\<rparr>))
      else extract_args rest (v\<lparr>SRC := arg\<rparr>))"

definition default_src :: "extract_opts \<Rightarrow> extract_opts" where
  "default_src v = (if SRC v = [] then v\<lparr>SRC := ''adb''\<rparr> else v)"

section \<open>The scripts\<close>

record script_env =
  is_directory_at :: "string \<Rightarrow> bool"
  is_file_at :: "string \<Rightarrow> bool"
  not_empty_at :: "string \<Rightarrow> bool"
  BASH_SOURCE :: string
  PWD :: string
  DEVICE :: string
  DEVICE_COMMON :: string
  VENDOR :: string
  env_SRC :: string

datatype script_cmd =
    Source string
  | Setup_vendor string string string bool "bool option"
  | Extract_blobs string string string string
  | Write_headers "string option"
  | Write_makefiles string bool
  | Write_footers
  | Run_script string

text \<open>\<open>\<dots>%/*\<close> cuts off the last slash and what follows it.\<close>

definition cut_name :: "string \<Rightarrow> string" where
  "cut_name s = (if CHR ''/'' \<in> set s then rev (tl (dropWhile (\<lambda>c. c \<noteq> CHR ''/'') (rev s))) else s)"

definition MY_DIR :: "script_env \<Rightarrow> string" where
  "MY_DIR e = (if \<not> is_directory_at e (cut_name (BASH_SOURCE e)) then PWD e else cut_name (BASH_SOURCE e))"

definition ANDROID_ROOT :: "script_env \<Rightarrow> string" where
  "ANDROID_ROOT e = MY_DIR e @ ''/../../..''"

definition HELPER :: "script_env \<Rightarrow> string" where
  "HELPER e = ANDROID_ROOT e @ ''/tools/extract-utils/extract_utils.sh''"

definition common_list :: "script_env \<Rightarrow> string" where
  "common_list e = MY_DIR e @ ''/proprietary-files.txt''"

definition device_list :: "script_env \<Rightarrow> string" where
  "device_list e = MY_DIR e @ ''/../'' @ DEVICE e @ ''/proprietary-files.txt''"

text \<open>
  A run: whether it got to its end, and the commands that were started. \<open>ok\<close> says whether a command succeeds after the
  commands before it.
\<close>

fun run_cmds :: "(script_cmd list \<Rightarrow> script_cmd \<Rightarrow> bool) \<Rightarrow> script_cmd list \<Rightarrow> script_cmd list \<Rightarrow> bool \<times> script_cmd list" where
  "run_cmds ok done [] = (True, done)"
| "run_cmds ok done (c # cs) = (if ok done c then run_cmds ok (done @ [c]) cs else (False, done @ [c]))"

text \<open>The script of the device is sourced in the middle and may change the variables, which is \<open>device\<close>.\<close>

definition extract_cmds :: "script_env \<Rightarrow> (extract_opts \<Rightarrow> extract_opts) \<Rightarrow> extract_opts \<Rightarrow> script_cmd list" where
  "extract_cmds e device v =
     (if \<not> ONLY_TARGET v
      then [Setup_vendor (DEVICE_COMMON e) (VENDOR e) (ANDROID_ROOT e) True (Some (CLEAN_VENDOR v)),
            Extract_blobs (common_list e) (SRC v) (KANG v) (SECTION v)]
      else [])
     @ (if \<not> ONLY_COMMON v \<and> not_empty_at e (device_list e)
        then (let d = device v in
              [Source (MY_DIR e @ ''/../'' @ DEVICE e @ ''/extract-files.sh''),
               Setup_vendor (DEVICE e) (VENDOR e) (ANDROID_ROOT e) False (Some (CLEAN_VENDOR d)),
               Extract_blobs (device_list e) (SRC d) (KANG d) (SECTION d)])
        else [])
     @ [Run_script (MY_DIR e @ ''/setup-makefiles.sh'')]"

definition extract_files ::
  "(script_cmd list \<Rightarrow> script_cmd \<Rightarrow> bool) \<Rightarrow> script_env \<Rightarrow> (extract_opts \<Rightarrow> extract_opts) \<Rightarrow> string list
    \<Rightarrow> bool \<times> script_cmd list" where
  "extract_files ok e device argv =
     (if \<not> is_file_at e (HELPER e) then (False, [])
      else if \<not> ok [] (Source (HELPER e)) then (False, [Source (HELPER e)])
      else case extract_args argv (extract_defaults (env_SRC e)) of
        Goes v \<Rightarrow> run_cmds ok [Source (HELPER e)] (extract_cmds e device (default_src v))
      | _ \<Rightarrow> (False, [Source (HELPER e)]))"

definition setup_makefiles ::
  "(script_cmd list \<Rightarrow> script_cmd \<Rightarrow> bool) \<Rightarrow> script_env \<Rightarrow> bool \<times> script_cmd list" where
  "setup_makefiles ok e =
     (if \<not> is_file_at e (HELPER e) then (False, [])
      else run_cmds ok []
        ([Source (HELPER e),
          Setup_vendor (DEVICE_COMMON e) (VENDOR e) (ANDROID_ROOT e) True None,
          Write_headers (Some ''starlte star2lte crownlte''),
          Write_makefiles (common_list e) True,
          Write_footers]
         @ (if not_empty_at e (device_list e)
            then [Setup_vendor (DEVICE e) (VENDOR e) (ANDROID_ROOT e) False None,
                  Write_headers None,
                  Write_makefiles (device_list e) True,
                  Write_footers]
            else [])))"

section \<open>Lemmas\<close>

lemma glob_lit: "glob_match (map Lit p @ q) (p @ s) = glob_match q s"
  by (induction p) simp_all

lemma glob_star: "glob_match (Star # p) s \<longleftrightarrow> (\<exists>a b. s = a @ b \<and> glob_match p b)"
proof (induction s)
  case (Cons d s)
  have "(\<exists>a b. d # s = a @ b \<and> glob_match p b) \<longleftrightarrow> glob_match p (d # s) \<or> (\<exists>a b. s = a @ b \<and> glob_match p b)"
    by (auto simp: Cons_eq_append_conv)
  with Cons show ?case by simp
qed simp

lemma glob_exact: "glob_match (map Lit p) s \<longleftrightarrow> s = p"
  by (induction p arbitrary: s; case_tac s) auto

text \<open>
  The listener of the sensors gets the shim, and nothing else: the case that would give it the old \<open>libutils\<close> comes
  after a case with the same pattern.
\<close>

lemma sensorlistener_fixup:
  "blob_fixup (''vendor/lib'' @ abi @ ''/libsensorlistener.so'') file = [Add_needed ''libshim_sensorndkbridge.so'' file]"
proof -
  let ?w = "''vendor/lib'' @ abi @ ''/libsensorlistener.so''"
  have "glob_of ''vendor/lib*/libsensorlistener.so'' = map Lit ''vendor/lib'' @ Star # map Lit ''/libsensorlistener.so''"
    by (simp add: glob_of_def)
  then have "glob_match (glob_of ''vendor/lib*/libsensorlistener.so'') ?w"
    by (simp only: glob_lit glob_star glob_exact) blast
  moreover have "\<not> glob_match (glob_of ''vendor/bin/hw/rild'') ?w"
    by (simp add: glob_of_def)
  ultimately show ?thesis
    by (simp only: blob_fixup_def fixup_cases_def first_case.simps if_True if_False option.case)
qed

text \<open>Every name gets at most one patch, and the file that is patched is the one that was given.\<close>

lemma blob_fixup_one: "length (blob_fixup name file) \<le> 1"
  by (simp add: blob_fixup_def split: option.split)

lemma last_fixup_dead: "first_case (fixup_cases file) name = first_case (take 3 (fixup_cases file)) name"
  by (simp add: fixup_cases_def)

text \<open>A run starts a prefix of its commands, and all of them when it gets to its end.\<close>

lemma run_cmds_prefix:
  "run_cmds ok done cs = (r, out) \<Longrightarrow> \<exists>k \<le> length cs. out = done @ take k cs \<and> (r \<longrightarrow> k = length cs)"
proof (induction cs arbitrary: "done")
  case (Cons c cs)
  show ?case
  proof (cases "ok done c")
    case True
    with Cons obtain k where "k \<le> length cs" "out = (done @ [c]) @ take k cs" "r \<longrightarrow> k = length cs"
      by fastforce
    then show ?thesis by (intro exI [of _ "Suc k"]) simp
  next
    case False
    with Cons.prems show ?thesis by (intro exI [of _ "Suc 0"]) simp
  qed
qed simp

text \<open>A section of the list, or \<open>-n\<close>, keeps what is there; other options do not change whether the folder is cleaned.\<close>

lemma extract_args_clean:
  "extract_args argv v = Goes w \<Longrightarrow> CLEAN_VENDOR w \<Longrightarrow> CLEAN_VENDOR v \<and> SECTION w = SECTION v"
  by (induction argv v rule: extract_args.induct) (auto split: if_splits list.splits)

lemma extract_never_cleans:
  assumes "extract_files ok e device argv = (r, out)" "extract_args argv (extract_defaults (env_SRC e)) = Goes v"
    and "SECTION v \<noteq> []" "CLEAN_VENDOR (device (default_src v)) = CLEAN_VENDOR v"
  shows "Setup_vendor d n a b (Some True) \<notin> set out"
proof -
  have c: "\<not> CLEAN_VENDOR v"
    using extract_args_clean [OF assms(2)] assms(3) by (auto simp: extract_defaults_def)
  then have "Setup_vendor d n a b (Some True) \<notin> set (extract_cmds e device (default_src v))"
    using assms(4) by (auto simp: extract_cmds_def default_src_def Let_def)
  with assms(1,2) show ?thesis
    by (auto simp: extract_files_def split: if_splits dest!: run_cmds_prefix dest: in_set_takeD)
qed

end
