(* ===== verification/Spec2Isabelle.thy ===== *)
theory Spec2Isabelle
  imports PowerService BootImage Usb Fingerprint Lights Vibrator Sensors Memtrack Demangle Shims Extract
begin

text \<open>
  A verification library for the programs of \<open>device_samsung_exynos9810-common\<close>: the hardware
  abstraction services under \<open>src/aidl\<close> and \<open>src/hidl\<close>, the image tools under \<open>src/dtbhtool\<close>, the shims under
  \<open>src/shims\<close> and the extraction scripts.

  \<^bold>\<open>The parts of the program.\<close> The services are separate processes; they meet only in the kernel. The power
  service (\<open>src/aidl/power-libperfmgr\<close>) is the one with parts that interact: \<open>Power\<close> takes boosts and modes and
  passes interaction boosts to \<open>InteractionHandler\<close>; \<open>PowerExt\<close> takes the vendor's modes; \<open>Power\<close> makes
  \<open>PowerHintSession\<close> objects, which register with \<open>PowerSessionManager\<close> and post messages to its looper. The
  tools \<open>mkdtbimg\<close> and \<open>mkbootimg\<close> write images that \<open>unpackdtbhimg\<close> and \<open>unpackbootimg\<close> take apart; they share
  \<open>libdtbimg\<close>. The other services are the USB, fingerprint, lights, vibrator,
  sensors and memory tracking services; the shims under \<open>src/shims\<close> serve prebuilt libraries.

  \<^bold>\<open>Conventions.\<close> A class is a record with the source's field names and an operation is a function from the
  state to the result and the new state. Undefined behaviour, an abort, or a loop that does not end is
  \<open>None\<close> (\<open>Undefined\<close> for the tools, whose runs are \<open>'a run\<close>). Unsigned integers are words; signed ones are
  \<open>int\<close> with the overflow written out, or words read with \<open>sint\<close>. Files, nodes of the kernel, results of system
  calls, libraries and generated interface types that are not under \<open>src/\<close> are arguments; what a theorem needs of
  them is a hypothesis, and its witness instantiates them. Logging and tracing are left out.

  \<^bold>\<open>Theories.\<close>

  \<^item> \<open>Prelude\<close>: types, shared lemmas on lists, maps and words, and the locale \<open>invariant_system\<close> with
    reachability, which the power, interaction and USB models interpret.
  \<^item> \<open>Doubles\<close>: \<open>double\<close> arithmetic as exact rationals rounded to 53 bits.
  \<^item> \<open>InteractionHandler\<close>: \<open>InteractionHandler.cpp\<close>. The worker thread is a program counter, and its steps
    interleave with the calls. The INTERACTION hint is held exactly outside of the idle state, a pending abort ends
    the wait, the worker settles, and an accepted boost covers the window of the one before.
  \<^item> \<open>PowerHintSession\<close>: \<open>PowerHintSession.cpp\<close> with its PID controller, proved equal to a
    reference definition with bounds under which every report returns; the error paths keep the state.
  \<^item> \<open>PowerSessionManager\<close>: \<open>PowerSessionManager.cpp\<close>. The locale \<open>thread_registry\<close> is the contract of the
    reference counts of threads, a multiset, and is interpreted on the code's map.
  \<^item> \<open>PowerHal\<close>: \<open>Power.cpp\<close> and \<open>PowerExt.cpp\<close>: which hints are held in which mode.
  \<^item> \<open>PowerService\<close>: the process of \<open>service.cpp\<close> as a transition system over all of these: the clamps stay in
    range, the counts are those of the open sessions, stale messages and the boost of the system are exact, and
    a stale message can outlive its session.
  \<^item> \<open>HostTools\<close>: the parts of the C library and of the host that the tools use, and the locale
    \<open>image_tool\<close>, the contract of a program that writes one image, interpreted on both writers.
  \<^item> \<open>DtbImage\<close>: \<open>dtbimg.c\<close>, \<open>mkdtbimg.c\<close>, \<open>unpackdtbhimg.c\<close>: the layout of the image, that unpacking gives
    back the blobs, the order of the entries, and the offsets that go wrong for many blobs.
  \<^item> \<open>BootImage\<close>: \<open>bootimg.h\<close>, \<open>mkbootimg.c\<close>, \<open>unpackbootimg.c\<close>: layout, round trip, alignment and failures.
  \<^item> \<open>Usb\<close>: \<open>Usb.cpp\<close>: the status of the ports, role and mode switches, and the worker thread, which can
    deadlock with \<open>setCallback\<close>.
  \<^item> \<open>Fingerprint\<close>: \<open>BiometricsFingerprint.cpp\<close>. The vendor library is a function of the calls made so far.
    When the service is defined at all, which clients learn of an authentication, and that polling ends.
  \<^item> \<open>Lights\<close>: \<open>Lights.cpp\<close>: the priority of the LED states, the scaling of the backlight, that every listed
    light can be set, and the backlight notification that is never switched off.
  \<^item> \<open>Vibrator\<close>: \<open>Vibrator.cpp\<close>: which effects succeed and what they leave in the driver, and amplitudes up
    to 1. \<open>float\<close> operations round to 24 bits.
  \<^item> \<open>Sensors\<close>: \<open>ConvertUtils.cpp\<close>, \<open>HalProxyAidl.cpp\<close> and the wrappers of the message queues and of the callbacks:
    events survive the conversion both ways, and the list of sensors.
  \<^item> \<open>Memtrack\<close>: \<open>src/aidl/memtrack\<close>: the memory of a process adds up to the total of the GPU, and the
    paths that \<open>directory_iterator\<close> gives are wrong.
  \<^item> \<open>Demangle\<close>: \<open>src/shims/libdemangle\<close>: the allocator, whose pointers never overlap below 4 GiB, the entry points,
    and the dump of a syntax tree, which ends although forward references may be cyclic.
  \<^item> \<open>Shims\<close>: the audio parameters shim, the camera's looper, the stub of \<open>src/shims/libepicoperator\<close>, and the property
    loader \<open>src/ril/secril_config_svc\<close>.
  \<^item> \<open>Extract\<close>: \<open>extract-files.sh\<close> and \<open>setup-makefiles.sh\<close>: the options, the patches, and the commands up to the first
    that fails; extracting a section never cleans the folder, and the last patch is never applied.
  \<^item> This theory: the two ways to a boot image with a device tree, which join \<open>mkdtbimg\<close> and \<open>mkbootimg\<close>, agree.

  \<^bold>\<open>Bounds and fuel.\<close> Only the dump of a syntax tree takes fuel, the depth to which visits nest; for \<open>n\<close> nodes
  \<open>n * (n + 1)\<close> is enough, as each forward reference is followed at most once on the way down, and more does not
  change the result. Other loops are total recursive functions, except for the polling of the fingerprint sensor, a
  \<open>partial_function\<close> that is proved to return for a positive interval. The number bounds in
  the theorems are those of the code's types, and are hypotheses where a caller could exceed them, such as the panel's
  maximum of the backlight and the duration of a report. In \<open>Doubles\<close> and \<open>Vibrator\<close> the exponent is not bounded
  and only finite values are modelled.

  \<^bold>\<open>Not modelled.\<close> The classes of nodes, the parser and the printer of the demangler are in a header that is not in
  the repository, and are arguments. The trace counters of the power service, what the tools print for the user, and log
  messages have no effect on the state. The files behind the first write of \<open>unpackbootimg\<close> to a closed stream have no
  defined contents. The build files, policies and resources are not programs. The
  \<open>main\<close> functions of the services other than the power service only register them. Races on
  memory are not modelled: a step of a thread is atomic between its lock operations.
\<close>

section \<open>The two ways to a boot image with a device tree\<close>

lemma load_file_other: "g \<noteq> f \<Longrightarrow> load_file (h\<lparr>files := (files h)(f \<mapsto> bs)\<rparr>) g = load_file h g"
  by (simp add: load_file_def Let_def split: option.split)

lemma load_part_other: "fn \<noteq> Some f \<Longrightarrow> load_part (h\<lparr>files := (files h)(f \<mapsto> bs)\<rparr>) fn = load_part h fn"
  by (cases fn) (simp_all add: load_part_def load_file_other)

lemma load_file_written:
  assumes "host_ok h" "length bs \<le> 0x7ffff000"
  shows "load_file (h\<lparr>files := (files h)(f \<mapsto> bs)\<rparr>) f = Some (bs, of_nat (length bs))"
  using assms to_int32_id [of "int (length bs)"] by (simp add: load_file_def host_ok_def Let_def)

text \<open>What is loaded with \<open>--dt_dir\<close> is what is loaded with \<open>--dt\<close> from a file with the block.\<close>

lemma load_parts_dt_file:
  assumes "host_ok h" "load_parts fdt h o' kfn rfn = Goes p" "o_dt_dir o' = Some dir" "dt_fn o' = None" "parts_fit p"
    and "f \<noteq> kfn" "f \<noteq> rfn" "second_fn o' \<noteq> Some f" "sig_fn o' \<noteq> Some f"
  obtains bs where "load_dtbh_block fdt h dir (pagesize o') = Goes (Some (bs, of_nat (length bs)))"
    "length bs \<le> 0x7ffff000"
    "load_parts fdt (h\<lparr>files := (files h)(f \<mapsto> bs)\<rparr>) (o'\<lparr>o_dt_dir := None, dt_fn := Some f\<rparr>) kfn rfn = Goes p"
proof -
  from assms(2-4) obtain bs n where b: "load_dtbh_block fdt h dir (pagesize o') = Goes (Some (bs, n))"
      "dt_data p = Some (bs, n)"
    by (auto simp: load_parts_def load_dt_def goes_on_Goes split: option.splits)
  note n = load_dtbh_block_size [OF b(1)]
  have len: "length bs \<le> 0x7ffff000"
    using assms(5) b(2) by (simp add: parts_fit_def part_bytes_def)
  let ?h = "h\<lparr>files := (files h)(f \<mapsto> bs)\<rparr>" and ?o = "o'\<lparr>o_dt_dir := None, dt_fn := Some f\<rparr>"
  have "load_dt fdt ?h ?o = Goes (Some (bs, n))" "load_dt fdt h o' = Goes (Some (bs, n))"
    using load_file_written [OF assms(1) len] b(1) assms(3,4)
    by (simp_all add: load_dt_def goes_on_def load_part_def n)
  then have "load_parts fdt ?h ?o kfn rfn = load_parts fdt h o' kfn rfn"
    using assms(6-9) by (simp add: load_parts_def load_file_other load_part_other cong: option.case_cong)
  with b(1) len n assms(2) show ?thesis
    by (intro that) simp_all
qed

lemma mkdtbimg_block:
  assumes "host_ok h" "load_dtbh_block fdt h dir ps = Goes (Some (bs, n))" "length bs \<le> 0x7ffff000"
    and "word_of_int (strtol 10 s) = ps" "ps \<noteq> 0"
  shows "mkdtbimg_main fdt h [''-o'', f, ''-s'', s, ''--dt_dir'', dir] = Some (0, (files h)(f \<mapsto> bs))"
  using assms by (simp add: mkdtbimg_main_def Let_def write_all_def host_ok_def)

text \<open>
  C39. The two ways to a boot image with a device tree agree. Running \<open>mkbootimg\<close> with \<open>--dt_dir\<close> gives the same image,
  byte for byte, as first running \<open>mkdtbimg\<close> on that directory, with the page size of the boot image, and then
  \<open>mkbootimg\<close> with the same options and \<open>--dt\<close> for the file that \<open>mkdtbimg\<close> wrote, as long as this file is none of the
  other parts. All three runs end with status 0.
\<close>

theorem dt_dir_or_dt_file:
  assumes "\<And>x. length (sha1 x) = 20" "host_ok h" "mkboot_args argv mkboot_defaults = Goes o'"
    and "mkboot_args argv' mkboot_defaults = Goes (o'\<lparr>o_dt_dir := None, dt_fn := Some f\<rparr>)"
    and "boot_request o' img kfn rfn" "o_dt_dir o' = Some dir"
    and "load_parts fdt h o' kfn rfn = Goes p" "parts_fit p" "word_of_int (strtol 10 s) = pagesize o'"
    and "f \<noteq> kfn" "f \<noteq> rfn" "second_fn o' \<noteq> Some f" "sig_fn o' \<noteq> Some f"
  shows "\<exists>image fs. mkbootimg_main fdt sha1 h argv = Some (0, (files h)(img \<mapsto> image))
    \<and> mkdtbimg_main fdt h [''-o'', f, ''-s'', s, ''--dt_dir'', dir] = Some (0, fs)
    \<and> mkbootimg_main fdt sha1 (h\<lparr>files := fs\<rparr>) argv' = Some (0, fs(img \<mapsto> image))"
proof -
  let ?o = "o'\<lparr>o_dt_dir := None, dt_fn := Some f\<rparr>"
  have "dt_fn o' = None"
    using assms(5,6) by (simp add: boot_request_def)
  then obtain bs where b: "load_dtbh_block fdt h dir (pagesize o') = Goes (Some (bs, of_nat (length bs)))"
      "length bs \<le> 0x7ffff000" "load_parts fdt (h\<lparr>files := (files h)(f \<mapsto> bs)\<rparr>) ?o kfn rfn = Goes p"
    using load_parts_dt_file [OF assms(2,7,6) _ assms(8,10-13)] by blast
  have "pagesize o' \<in> set page_sizes"
    by (rule args_pagesize [OF assms(3)]) (simp add: mkboot_defaults_def page_sizes_def)
  then have "pagesize o' \<noteq> 0"
    by (auto simp: page_sizes_def)
  note dtb = mkdtbimg_block [OF assms(2) b(1,2) assms(9) this, of f]
  have r: "host_ok (h\<lparr>files := (files h)(f \<mapsto> bs)\<rparr>)" "boot_request ?o img kfn rfn"
    using assms(2,5) by (simp_all add: host_ok_def boot_request_def)
  have "make_hdr sha1 ?o p = make_hdr sha1 o' p"
    by (simp add: make_hdr_def)
  with mkbootimg_image [of sha1, OF assms(1) r(1) assms(4) r(2) b(3) assms(8)] dtb
    mkbootimg_image [of sha1, OF assms(1-3,5,7,8)]
  show ?thesis by (intro exI conjI) simp_all
qed

theorem dt_dir_or_dt_file_witness:
  "\<exists>image fs. mkbootimg_main wit_fdt wit_sha (wit_dir [''x.txt'', ''a.dtb''])
       [''--kernel'', ''k'', ''--ramdisk'', ''r'', ''--dt_dir'', ''d'', ''-o'', ''b'']
       = Some (0, (\<lambda>_. Some [7, 5])(''b'' \<mapsto> image))
    \<and> mkbootimg_main wit_fdt wit_sha ((wit_dir [''x.txt'', ''a.dtb''])\<lparr>files := fs\<rparr>)
       [''--kernel'', ''k'', ''--ramdisk'', ''r'', ''--dt'', ''t'', ''-o'', ''b''] = Some (0, fs(''b'' \<mapsto> image))"
proof -
  let ?h = "wit_dir [''x.txt'', ''a.dtb'']" and ?dt = "dtbh_image 2048 [([7, 5], 7, 7, 7)]"
  let ?o = "mkboot_defaults\<lparr>kernel_fn := Some ''k'', ramdisk_fn := Some ''r'', o_dt_dir := Some ''d'', bootimg := Some ''b''\<rparr>"
  let ?p = "\<lparr>kernel_data = ([7, 5], 2), ramdisk_data = Some ([7, 5], 2), second_data = None,
      dt_data = Some (?dt, 4096), sig_data = None\<rparr>"
  have args: "mkboot_args [''--kernel'', ''k'', ''--ramdisk'', ''r'', ''--dt_dir'', ''d'', ''-o'', ''b''] mkboot_defaults = Goes ?o"
      "mkboot_args [''--kernel'', ''k'', ''--ramdisk'', ''r'', ''--dt'', ''t'', ''-o'', ''b''] mkboot_defaults
         = Goes (?o\<lparr>o_dt_dir := None, dt_fn := Some ''t''\<rparr>)"
    by (simp_all add: mkboot_opt_def mkboot_defaults_def)
  have "load_dtbh_block wit_fdt ?h ''d'' 2048 = Goes (Some (?dt, 4096))"
    using load_dtbh_block_image [OF wit_host(3) wit_kept(1), of 11] wit_sizes wit_length by simp
  then have parts: "load_parts wit_fdt ?h ?o ''k'' ''r'' = Goes ?p"
    by (simp add: load_parts_def load_part_def load_dt_def goes_on_def wit_load mkboot_defaults_def)
  have ok: "boot_request ?o ''b'' ''k'' ''r''" "parts_fit ?p"
    by (simp_all add: boot_request_def mkboot_defaults_def parts_fit_def part_bytes_def wit_length)
  have "strtol 10 ''2048'' = 2048" by code_simp
  with dt_dir_or_dt_file [of wit_sha, OF wit_boot_facts(1) wit_host(1) args ok(1) _ parts ok(2), of "''d''" "''2048''"]
  show ?thesis by (auto simp: mkboot_defaults_def wit_dir_def good_host_def)
qed

end
